(* ===== verification/F32.thy ===== *)
theory F32
  imports Complex_Main "HOL-Library.Log_Nat"
begin

section \<open>Single-precision floating point\<close>

text \<open>
  The values of Rust's \<open>f32\<close> as the program uses them: comparisons against constants
  (\<open>sampling_params.rs\<close>), one running sum (\<open>SequenceData::append_token_id\<close>) and one
  descending sort (\<open>LLMEngine::generate\<close>).  A value is a NaN, an infinity or an exact rational;
  the two zeros are identified, which no comparison or sum of the program can observe.  Sums are
  rounded to the nearest representable value, ties to even, as IEEE 754 prescribes.
\<close>

datatype f32 = NaN | Infinite bool | Fin rat

text \<open>The values of an \<open>f64\<close> have the same form; no arithmetic on them is modelled.\<close>

type_synonym f64 = f32

subsection \<open>Rounding\<close>

definition pow2 :: "int \<Rightarrow> rat" where
  "pow2 k = (if 0 \<le> k then 2 ^ nat k else 1 / 2 ^ nat (- k))"

definition round_half_even :: "rat \<Rightarrow> int" where
  "round_half_even q =
     (let n = \<lfloor>q\<rfloor>; r = q - of_int n
      in if r < 1 / 2 \<or> (r = 1 / 2 \<and> even n) then n else n + 1)"

text \<open>The binary exponent of a positive rational: \<open>2 ^ k \<le> q < 2 ^ (k + 1)\<close>.\<close>

definition exponent_of :: "rat \<Rightarrow> int" where
  "exponent_of q =
     (let (n, d) = quotient_of q; k = int (floorlog 2 (nat n)) - int (floorlog 2 (nat d))
      in if pow2 k \<le> q then k else k - 1)"

text \<open>
  A finite \<open>f32\<close> has 24 significant bits and no bit below \<open>2 ^ -149\<close>; a magnitude that rounds to
  \<open>2 ^ 128\<close> or more is an infinity.
\<close>

definition f32_round :: "rat \<Rightarrow> f32" where
  "f32_round q =
     (if q = 0 then Fin 0
      else let ulp = pow2 (max (exponent_of \<bar>q\<bar> - 23) (- 149));
               r = of_int (round_half_even (q / ulp)) * ulp
           in if pow2 128 \<le> \<bar>r\<bar> then Infinite (q < 0) else Fin r)"

subsection \<open>The operators the program uses\<close>

fun f32_neg :: "f32 \<Rightarrow> f32" where
  "f32_neg NaN = NaN"
| "f32_neg (Infinite s) = Infinite (\<not> s)"
| "f32_neg (Fin q) = Fin (- q)"

fun f32_add :: "f32 \<Rightarrow> f32 \<Rightarrow> f32" where
  "f32_add (Fin p) (Fin q) = f32_round (p + q)"
| "f32_add (Infinite s) (Infinite t) = (if s = t then Infinite s else NaN)"
| "f32_add (Infinite s) (Fin q) = Infinite s"
| "f32_add (Fin p) (Infinite t) = Infinite t"
| "f32_add _ _ = NaN"

definition f32_sub :: "f32 \<Rightarrow> f32 \<Rightarrow> f32" where
  "f32_sub x y = f32_add x (f32_neg y)"

text \<open>A divisor of zero is taken to be the positive zero: the model has one zero.\<close>

fun f32_div :: "f32 \<Rightarrow> f32 \<Rightarrow> f32" where
  "f32_div (Fin p) (Fin q) = (if q \<noteq> 0 then f32_round (p / q) else if p = 0 then NaN else Infinite (p < 0))"
| "f32_div (Infinite s) (Fin q) = Infinite (s \<noteq> (q < 0))"
| "f32_div (Fin p) (Infinite t) = Fin 0"
| "f32_div _ _ = NaN"

text \<open>\<open>x as f32\<close> of a \<open>usize\<close>.\<close>

definition f32_of_nat :: "nat \<Rightarrow> f32" where
  "f32_of_nat k = f32_round (of_nat k)"

text \<open>Every comparison with a NaN is false, equality included.\<close>

fun f32_lt :: "f32 \<Rightarrow> f32 \<Rightarrow> bool" where
  "f32_lt (Fin p) (Fin q) = (p < q)"
| "f32_lt (Infinite s) (Fin q) = s"
| "f32_lt (Fin p) (Infinite t) = (\<not> t)"
| "f32_lt (Infinite s) (Infinite t) = (s \<and> \<not> t)"
| "f32_lt _ _ = False"

fun f32_eq :: "f32 \<Rightarrow> f32 \<Rightarrow> bool" where
  "f32_eq (Fin p) (Fin q) = (p = q)"
| "f32_eq (Infinite s) (Infinite t) = (s = t)"
| "f32_eq _ _ = False"

definition f32_le :: "f32 \<Rightarrow> f32 \<Rightarrow> bool" where
  "f32_le x y = (f32_lt x y \<or> f32_eq x y)"

text \<open>\<open>partial_cmp\<close>: no answer when an operand is a NaN.\<close>

datatype Ordering = Less | Equal | Greater

definition partial_cmp :: "f32 \<Rightarrow> f32 \<Rightarrow> Ordering option" where
  "partial_cmp x y =
     (if f32_lt x y then Some Less
      else if f32_eq x y then Some Equal
      else if f32_lt y x then Some Greater
      else None)"

lemma f32_eq_refl [simp]: "f32_eq x x \<longleftrightarrow> x \<noteq> NaN"
  by (cases x) auto

lemma f32_eq_sym: "f32_eq x y \<Longrightarrow> f32_eq y x"
  by (cases x; cases y) auto

lemma f32_not_lt_refl [simp]: "\<not> f32_lt x x"
  by (cases x) auto

lemma f32_le_NaN [simp]: "\<not> f32_le NaN x" "\<not> f32_le x NaN"
  by (cases x; simp add: f32_le_def)+

lemma f32_lt_NaN [simp]: "\<not> f32_lt NaN x" "\<not> f32_lt x NaN"
  by (cases x; simp)+

lemma f32_le_trans: "f32_le x y \<Longrightarrow> f32_le y z \<Longrightarrow> f32_le x z"
  by (cases x; cases y; cases z) (auto simp: f32_le_def)

lemma f32_le_total: "x \<noteq> NaN \<Longrightarrow> y \<noteq> NaN \<Longrightarrow> f32_le x y \<or> f32_le y x"
  by (cases x; cases y) (auto simp: f32_le_def)

lemma f32_lt_irrefl_le: "f32_lt x y \<Longrightarrow> \<not> f32_le y x"
  by (cases x; cases y) (auto simp: f32_le_def)

lemma partial_cmp_None_iff: "partial_cmp x y = None \<longleftrightarrow> x = NaN \<or> y = NaN"
  by (cases x; cases y) (auto simp: partial_cmp_def)

lemma partial_cmp_not_Greater:
  "partial_cmp x y = Some Less \<or> partial_cmp x y = Some Equal \<longleftrightarrow> f32_le x y"
  by (auto simp: partial_cmp_def f32_le_def)

end
