(* ===== verification/Prelude.thy ===== *)
theory Prelude
  imports F32 "HOL-Library.AList" "HOL-Library.Multiset"
begin

section \<open>Shared vocabulary of the development\<close>

text \<open>
  The ways a call of the program can stop without a value, the monad that threads them, the Rust
  collections the components share (a \<open>Vec\<close> as a list pushed and popped at its end, a \<open>HashMap\<close>
  as an association list in its iteration order), loop combinators with the locales that carry
  their invariants, and the automation the component theories rely on.
\<close>

named_theorems eval_defs \<open>definitions that evaluate a call of the program on concrete data\<close>

subsection \<open>How a call ends\<close>

text \<open>Why a panic was raised.\<close>

datatype reason =
    UnwrapNone
  | UnwrapErr
  | AssertFailed
  | DoubleFree nat
  | Unreachable
  | IndexOutOfBounds
  | ArithmeticOverflow
  | DivisionByZero
  | NotImplemented
  | ExplicitPanic string

text \<open>The text of an \<open>APIError\<close>, with the arguments of \<open>format!\<close> kept as values.\<close>

datatype piece = Txt string | Num int | Flt f32

type_synonym message = "piece list"

text \<open>
  \<open>Panic\<close>: the thread panics.  \<open>Deadlock\<close>: the thread spins on a mutex it holds itself and never
  returns.  \<open>Err\<close>: an \<open>Err(APIError)\<close> that the function returns.
\<close>

datatype stop = Panic reason | Deadlock | Err message

type_synonym 'a res = "stop + 'a"

primrec bindE :: "'e + 'a \<Rightarrow> ('a \<Rightarrow> 'e + 'b) \<Rightarrow> 'e + 'b" where
  "bindE (Inl e) f = Inl e"
| "bindE (Inr x) f = f x"

lemma bindE_Inr_iff: "bindE m f = Inr y \<longleftrightarrow> (\<exists>x. m = Inr x \<and> f x = Inr y)"
  by (cases m) auto

lemma bindE_Inl_iff: "bindE m f = Inl e \<longleftrightarrow> m = Inl e \<or> (\<exists>x. m = Inr x \<and> f x = Inl e)"
  by (cases m) auto

lemma bindE_cong [fundef_cong]:
  "m = m' \<Longrightarrow> (\<And>x. m' = Inr x \<Longrightarrow> f x = g x) \<Longrightarrow> bindE m f = bindE m' g"
  by (cases m') auto

lemma bindE_assoc: "bindE (bindE m f) g = bindE m (\<lambda>x. bindE (f x) g)"
  by (cases m) auto

lemma bindE_case_sum: "bindE m f = (case m of Inl e \<Rightarrow> Inl e | Inr x \<Rightarrow> f x)"
  by (cases m) auto

lemmas bindE_iffs = bindE_Inr_iff bindE_Inl_iff

definition assertE :: "bool \<Rightarrow> unit res" where
  "assertE b = (if b then Inr () else Inl (Panic AssertFailed))"

definition unwrap :: "'a option \<Rightarrow> 'a res" where
  "unwrap v = (case v of None \<Rightarrow> Inl (Panic UnwrapNone) | Some x \<Rightarrow> Inr x)"

lemma unwrap_simps [simp]: "unwrap None = Inl (Panic UnwrapNone)" "unwrap (Some x) = Inr x"
  by (simp_all add: unwrap_def)

lemma unwrap_Inr_iff [simp]: "unwrap v = Inr x \<longleftrightarrow> v = Some x"
  by (cases v) auto

lemma assertE_iff [simp]:
  "assertE b = Inr u \<longleftrightarrow> b" "assertE b = Inl e \<longleftrightarrow> \<not> b \<and> e = Panic AssertFailed"
  by (auto simp: assertE_def)

text \<open>\<open>Option::unwrap_or\<close>.\<close>

definition unwrap_or :: "'a option \<Rightarrow> 'a \<Rightarrow> 'a" where
  "unwrap_or v d = (case v of None \<Rightarrow> d | Some x \<Rightarrow> x)"

lemma unwrap_or_simps [simp]: "unwrap_or None d = d" "unwrap_or (Some x) d = x"
  by (simp_all add: unwrap_or_def)

subsection \<open>Machine arithmetic\<close>

text \<open>
  \<open>usize\<close> values are naturals below \<open>2 ^ 64\<close>.  A subtraction below zero panics when overflow
  checks are compiled in (\<open>chk\<close>, the debug profile) and wraps around otherwise.
\<close>

definition usize_max :: nat where
  "usize_max = 2 ^ 64 - 1"

definition usize_sub :: "bool \<Rightarrow> nat \<Rightarrow> nat \<Rightarrow> nat res" where
  "usize_sub chk a b =
     (if b \<le> a then Inr (a - b)
      else if chk then Inl (Panic ArithmeticOverflow)
      else Inr (2 ^ 64 - (b - a)))"

definition usize_add :: "bool \<Rightarrow> nat \<Rightarrow> nat \<Rightarrow> nat res" where
  "usize_add chk a b =
     (if a + b < 2 ^ 64 then Inr (a + b)
      else if chk then Inl (Panic ArithmeticOverflow)
      else Inr ((a + b) mod 2 ^ 64))"

text \<open>The same for \<open>u32\<close>.\<close>

definition u32_add :: "bool \<Rightarrow> nat \<Rightarrow> nat \<Rightarrow> nat res" where
  "u32_add chk a b =
     (if a + b < 2 ^ 32 then Inr (a + b)
      else if chk then Inl (Panic ArithmeticOverflow)
      else Inr ((a + b) mod 2 ^ 32))"

definition u32_sub :: "bool \<Rightarrow> nat \<Rightarrow> nat \<Rightarrow> nat res" where
  "u32_sub chk a b =
     (if b \<le> a then Inr (a - b)
      else if chk then Inl (Panic ArithmeticOverflow)
      else Inr (2 ^ 32 - (b - a)))"

definition usize_div :: "nat \<Rightarrow> nat \<Rightarrow> nat res" where
  "usize_div a b = (if b = 0 then Inl (Panic DivisionByZero) else Inr (a div b))"

definition usize_rem :: "nat \<Rightarrow> nat \<Rightarrow> nat res" where
  "usize_rem a b = (if b = 0 then Inl (Panic DivisionByZero) else Inr (a mod b))"

text \<open>\<open>usize::try_into::<i64>().unwrap()\<close> and \<open>try_into::<u32>().unwrap()\<close>.\<close>

definition try_into_i64 :: "nat \<Rightarrow> int res" where
  "try_into_i64 n = (if n < 2 ^ 63 then Inr (int n) else Inl (Panic UnwrapErr))"

definition try_into_u32 :: "nat \<Rightarrow> nat res" where
  "try_into_u32 n = (if n < 2 ^ 32 then Inr n else Inl (Panic UnwrapErr))"

definition try_into_i32 :: "nat \<Rightarrow> int res" where
  "try_into_i32 n = (if n < 2 ^ 31 then Inr (int n) else Inl (Panic UnwrapErr))"

lemma usize_sub_no_borrow [simp]: "b \<le> a \<Longrightarrow> usize_sub chk a b = Inr (a - b)"
  by (simp add: usize_sub_def)

lemma usize_div_pos [simp]: "0 < b \<Longrightarrow> usize_div a b = Inr (a div b)"
  by (simp add: usize_div_def)

lemma usize_rem_pos [simp]: "0 < b \<Longrightarrow> usize_rem a b = Inr (a mod b)"
  by (simp add: usize_rem_def)

text \<open>The decimal digits of \<open>format!("{}", i)\<close>.\<close>

fun show_nat :: "nat \<Rightarrow> string" where
  "show_nat k = (if k < 10 then [char_of (48 + k)] else show_nat (k div 10) @ [char_of (48 + k mod 10)])"

declare show_nat.simps [simp del]

subsection \<open>Vectors and hash maps\<close>

text \<open>\<open>v[i]\<close>.\<close>

definition vec_index :: "'a list \<Rightarrow> nat \<Rightarrow> 'a res" where
  "vec_index xs i = (if i < length xs then Inr (xs ! i) else Inl (Panic IndexOutOfBounds))"

text \<open>\<open>Result::unwrap\<close> of a call that returns an \<open>APIError\<close> or an error of a library.\<close>

definition unwrap_err :: "'a res \<Rightarrow> 'a res" where
  "unwrap_err r = (case r of Inl (Err _) \<Rightarrow> Inl (Panic UnwrapErr) | _ \<Rightarrow> r)"

lemma unwrap_err_Inr: "unwrap_err r = Inr x \<longleftrightarrow> r = Inr x"
  by (auto simp: unwrap_err_def split: sum.splits stop.splits)

text \<open>\<open>Vec::pop\<close>: the last element and the rest.\<close>

definition vec_pop :: "'a list \<Rightarrow> ('a \<times> 'a list) option" where
  "vec_pop xs = (if xs = [] then None else Some (last xs, butlast xs))"

lemma vec_pop_snoc [simp]: "vec_pop (xs @ [x]) = Some (x, xs)"
  by (simp add: vec_pop_def)

lemma vec_pop_Nil [simp]: "vec_pop [] = None"
  by (simp add: vec_pop_def)

lemma vec_pop_Some_iff: "vec_pop xs = Some (x, ys) \<longleftrightarrow> xs = ys @ [x]"
  by (auto simp: vec_pop_def)

text \<open>A hash map as an association list with distinct keys, in its iteration order.\<close>

type_synonym ('k, 'v) hash_map = "('k \<times> 'v) list"

abbreviation keys :: "('k, 'v) hash_map \<Rightarrow> 'k list" where
  "keys m \<equiv> map fst m"

abbreviation vals :: "('k, 'v) hash_map \<Rightarrow> 'v list" where
  "vals m \<equiv> map snd m"

lemma keys_update_absent: "k \<notin> set (keys m) \<Longrightarrow> AList.update k v m = m @ [(k, v)]"
  by (induction m) auto

lemma update_split:
  "distinct (keys (xs @ (k, v) # ys)) \<Longrightarrow> AList.update k v' (xs @ (k, v) # ys) = xs @ (k, v') # ys"
  by (induction xs) auto

lemma delete_split:
  "distinct (keys (xs @ (k, v) # ys)) \<Longrightarrow> AList.delete k (xs @ (k, v) # ys) = xs @ ys"
proof -
  assume d: "distinct (keys (xs @ (k, v) # ys))"
  then have "filter (\<lambda>p. fst p \<noteq> k) xs = xs" "filter (\<lambda>p. fst p \<noteq> k) ys = ys"
    by (auto simp: filter_id_conv image_iff)
  then show ?thesis
    by (auto simp: AList.delete_eq split_def eq_commute)
qed

lemma map_of_split:
  assumes "map_of m k = Some v"
  obtains xs ys where "m = xs @ (k, v) # ys"
  using map_of_SomeD [OF assms] by (auto dest: split_list)

subsection \<open>Loops\<close>

text \<open>\<open>for x in xs { ... }\<close> over a body that may stop.\<close>

fun foldE :: "('s \<Rightarrow> 'x \<Rightarrow> 'e + 's) \<Rightarrow> 's \<Rightarrow> 'x list \<Rightarrow> 'e + 's" where
  "foldE step s [] = Inr s"
| "foldE step s (x # xs) = bindE (step s x) (\<lambda>s'. foldE step s' xs)"

text \<open>\<open>for _ in 0..n { v.push(f()) }\<close>.\<close>

fun collectE :: "nat \<Rightarrow> ('s \<Rightarrow> 'e + 'x \<times> 's) \<Rightarrow> 's \<Rightarrow> 'e + 'x list \<times> 's" where
  "collectE 0 f s = Inr ([], s)"
| "collectE (Suc n) f s = bindE (f s) (\<lambda>(x, s'). bindE (collectE n f s') (\<lambda>(xs, s''). Inr (x # xs, s'')))"

text \<open>\<open>iter().map(f).collect()\<close> with a closure that may stop.\<close>

fun mapE :: "('x \<Rightarrow> 'e + 'y) \<Rightarrow> 'x list \<Rightarrow> 'e + 'y list" where
  "mapE f [] = Inr []"
| "mapE f (x # xs) = bindE (f x) (\<lambda>y. bindE (mapE f xs) (\<lambda>ys. Inr (y # ys)))"

lemma foldE_append: "foldE step s (xs @ ys) = bindE (foldE step s xs) (\<lambda>s'. foldE step s' ys)"
  by (induction xs arbitrary: s) (auto simp: bindE_assoc)

lemma mapE_Inr_iff: "mapE f xs = Inr ys \<longleftrightarrow> list_all2 (\<lambda>x y. f x = Inr y) xs ys"
proof (induction xs arbitrary: ys)
  case Nil
  then show ?case by auto
next
  case (Cons x xs)
  then show ?case by (cases ys) (auto simp: bindE_Inr_iff)
qed

lemma mapE_all_Inr: "(\<And>x. x \<in> set xs \<Longrightarrow> f x = Inr (g x)) \<Longrightarrow> mapE f xs = Inr (map g xs)"
  by (induction xs) auto

text \<open>
  Two contracts for a loop body.  In \<open>kept_by_loop\<close> every step that returns keeps the invariant.
  In \<open>guarded_loop\<close> the invariant mentions the elements still to come and is strong enough for
  every step to return.
\<close>

locale kept_by_loop =
  fixes step :: "'s \<Rightarrow> 'x \<Rightarrow> 'e + 's"
    and invar :: "'s \<Rightarrow> bool"
  assumes step_keeps: "invar s \<Longrightarrow> step s x = Inr s' \<Longrightarrow> invar s'"
begin

lemma loop_keeps: "invar s \<Longrightarrow> foldE step s xs = Inr s' \<Longrightarrow> invar s'"
  by (induction xs arbitrary: s) (auto simp: bindE_Inr_iff intro: step_keeps)

end

locale guarded_loop =
  fixes step :: "'s \<Rightarrow> 'x \<Rightarrow> 'e + 's"
    and invar :: "'s \<Rightarrow> 'x list \<Rightarrow> bool"
  assumes step_ok: "invar s (x # xs) \<Longrightarrow> \<exists>s'. step s x = Inr s' \<and> invar s' xs"
begin

lemma loop_returns: "invar s xs \<Longrightarrow> \<exists>s'. foldE step s xs = Inr s' \<and> invar s' []"
proof (induction xs arbitrary: s)
  case Nil
  then show ?case by simp
next
  case (Cons x xs)
  then obtain s1 where "step s x = Inr s1" "invar s1 xs"
    using step_ok by blast
  with Cons.IH show ?case by auto
qed

lemma loop_invar: "invar s xs \<Longrightarrow> foldE step s xs = Inr s' \<Longrightarrow> invar s' []"
  using loop_returns by force

end

subsection \<open>Spin locks\<close>

text \<open>
  \<open>deref_mut\<close> of a mutex loops on \<open>try_lock\<close> until it succeeds.  \<open>free k\<close> says that the lock is
  free at the \<open>k\<close>-th attempt; the loop returns the attempt that succeeds.
\<close>

partial_function (option) spin :: "(nat \<Rightarrow> bool) \<Rightarrow> nat \<Rightarrow> nat option" where
  "spin free k = (if free k then Some k else spin free (Suc k))"

lemma spin_finds: "free (k + d) \<Longrightarrow> \<exists>n. spin free k = Some n \<and> free n \<and> k \<le> n"
proof (induction d arbitrary: k)
  case 0
  then show ?case by (simp add: spin.simps)
next
  case (Suc d)
  show ?case
  proof (cases "free k")
    case True
    then show ?thesis by (simp add: spin.simps)
  next
    case False
    with Suc.IH [of "Suc k"] Suc.prems show ?thesis
      by (force simp: spin.simps [of free k])
  qed
qed

lemma spin_result: "spin free k = Some n \<Longrightarrow> free n"
  by (rule spin.raw_induct [where P = "\<lambda>free k n. free n"]) (auto split: if_splits)

lemma spin_never: "(\<And>n. \<not> free n) \<Longrightarrow> spin free k = None"
  using spin_result [of "free" k] by (cases "spin free k") auto

text \<open>
  The model of a single thread needs only the two extreme cases: a lock nobody holds is taken at
  the first attempt, and a lock the thread itself holds is never taken.
\<close>

definition spin_lock :: "bool \<Rightarrow> bool res" where
  "spin_lock held = (if held then Inl Deadlock else Inr True)"

subsection \<open>Lists\<close>

lemma count_list_concat: "count_list (concat xss) x = sum_list (map (\<lambda>xs. count_list xs x) xss)"
  by (induction xss) auto

lemma count_list_pos_iff [simp]: "0 < count_list xs x \<longleftrightarrow> x \<in> set xs"
  by (metis count_list_0_iff gr0I less_irrefl)

lemma count_list_distinct: "distinct xs \<Longrightarrow> count_list xs x = (if x \<in> set xs then 1 else 0)"
  by (induction xs) auto

lemma distinct_count_list_le: "distinct xs \<longleftrightarrow> (\<forall>x. count_list xs x \<le> 1)"
proof (induction xs)
  case Nil
  then show ?case by simp
next
  case (Cons y ys)
  show ?case
  proof
    assume "distinct (y # ys)"
    then show "\<forall>x. count_list (y # ys) x \<le> 1"
      by (auto simp: count_list_distinct)
  next
    assume *: "\<forall>x. count_list (y # ys) x \<le> 1"
    then have "\<forall>x. count_list ys x \<le> 1"
      by (metis count_list.simps(2) add_leD1 le_trans order_refl le_add1)
    moreover have "count_list ys y = 0"
      using * [rule_format, of y] by simp
    ultimately show "distinct (y # ys)"
      using Cons.IH by (simp add: count_list_0_iff)
  qed
qed

subsection \<open>Forward simulation\<close>

text \<open>
  A detailed step relation that keeps an invariant and whose steps are abstract steps, or none, under a view of the state.  Then
  every run is an abstract run.
\<close>

locale forward_simulation =
  fixes step :: "'s \<Rightarrow> 's \<Rightarrow> bool" and inv :: "'s \<Rightarrow> bool" and abs_step :: "'a \<Rightarrow> 'a \<Rightarrow> bool" and abs :: "'s \<Rightarrow> 'a"
  assumes keeps_inv: "inv s \<Longrightarrow> step s s' \<Longrightarrow> inv s'"
    and simulates: "inv s \<Longrightarrow> step s s' \<Longrightarrow> abs s' = abs s \<or> abs_step (abs s) (abs s')"
begin

lemma run_simulates: "step\<^sup>*\<^sup>* s s' \<Longrightarrow> inv s \<Longrightarrow> inv s' \<and> abs_step\<^sup>*\<^sup>* (abs s) (abs s')"
proof (induction rule: rtranclp_induct)
  case (step t u)
  then have "inv t" "abs_step\<^sup>*\<^sup>* (abs s) (abs t)" by simp_all
  then show ?case
    using keeps_inv [OF _ step.hyps(2)] simulates [OF _ step.hyps(2)] by (auto intro: rtranclp.rtrancl_into_rtrancl)
qed simp

text \<open>So an invariant of the abstract machine holds of the view of every state that is reached.\<close>

lemma run_abs_invariant:
  assumes "step\<^sup>*\<^sup>* s s'" "inv s" "P (abs s)" "\<And>a a'. P a \<Longrightarrow> abs_step a a' \<Longrightarrow> P a'"
  shows "P (abs s')"
proof -
  have "abs_step\<^sup>*\<^sup>* (abs s) (abs s')" using run_simulates assms(1,2) by blast
  then show ?thesis using assms(3) by (induction rule: rtranclp_induct) (auto intro: assms(4))
qed

end

end
