(* ===== verification/Requests.thy ===== *)
theory Requests
  imports Prelude
begin

section \<open>Requests and responses\<close>

text \<open>
  The data of \<open>src/openai/requests.rs\<close> and \<open>src/openai/responses.rs\<close>.  JSON parsing is the
  \<open>serde\<close> library's: a request is the value it delivers, with absent fields as \<open>None\<close>.
\<close>

datatype Messages = MapMessages "(string, string) hash_map list" | Literal string

datatype StopTokens = Multi "string list" | Single string

record ChatCompletionRequest =
  rq_model :: string
  rq_messages :: Messages
  rq_temperature :: "f32 option"
  rq_top_p :: "f32 option"
  rq_n :: "nat option"
  rq_max_tokens :: "nat option"
  rq_stop :: "StopTokens option"
  rq_stream :: "bool option"
  rq_presence_penalty :: "f32 option"
  rq_frequency_penalty :: "f32 option"
  rq_logit_bias :: "(string, f32) hash_map option"
  rq_user :: "string option"
  rq_top_k :: "int option"
  rq_best_of :: "nat option"
  rq_use_beam_search :: "bool option"
  rq_ignore_eos :: "bool option"
  rq_skip_special_tokens :: "bool option"
  rq_stop_token_ids :: "nat list option"

text \<open>
  \<open>APIError::new\<close> keeps the text.  \<open>try_api!\<close> builds the new error from the \<open>Display\<close> text of the old one;
  when that is an \<open>APIError\<close> itself the text gets the prefix of its \<open>Display\<close> format.
\<close>

definition try_api :: "'a res \<Rightarrow> 'a res" where
  "try_api r = (case r of Inl (Err m) \<Rightarrow> Inl (Err (Txt ''Error: '' # m)) | _ \<Rightarrow> r)"

lemma try_api_simps [simp]:
  "try_api (Inr x) = Inr x" "try_api (Inl (Err m)) = Inl (Err (Txt ''Error: '' # m))"
  "try_api (Inl (Panic p)) = Inl (Panic p)" "try_api (Inl Deadlock) = Inl Deadlock"
  by (simp_all add: try_api_def)

lemma try_api_Inr: "try_api r = Inr x \<longleftrightarrow> r = Inr x"
  by (auto simp: try_api_def split: sum.splits stop.splits)

record ChatCompletionUsageResponse =
  completion_tokens :: nat
  prompt_tokens :: nat
  total_tokens :: nat

record ChatChoiceData =
  cd_content :: "string option"
  cd_role :: string

text \<open>The chunks of a stream of answers; the server sends none.\<close>

record StreamingChoiceData =
  sd_content :: "string option"
  sd_role :: string

record StreamingChoice =
  delta :: StreamingChoiceData
  sc_finish_reason :: "string option"
  sc_index :: nat

record StreamingChatCompletionResponse =
  sr_id :: string
  sr_choices :: "StreamingChoice list"
  sr_created :: nat
  sr_model :: string
  sr_object :: string

end
