(* ===== verification/Candle.thy ===== *)
theory Candle
  imports Requests
begin

section \<open>The tensor library as a parameter\<close>

text \<open>
  Tensors and devices belong to the \<open>candle\<close> and \<open>cudarc\<close> crates.  The model takes the calls the program makes
  as the fields of one record over an arbitrary type of tensors; a call that can fail returns an \<open>Err\<close> with
  the text of the library's error.  Calls that write through device pointers return the tensor written to.
  A CUDA device is its ordinal and \<open>same_device\<close> is equality of devices; candle also tells apart two handles
  that were opened for one ordinal, which no theorem depends on.
\<close>

datatype Device = Cpu | Cuda nat | OtherDevice

datatype DType = U8 | U32 | I64 | BF16 | F16 | F32 | F64

record 't candle =
  new_cuda :: "nat \<Rightarrow> Device res"
  zeros :: "nat list \<Rightarrow> DType \<Rightarrow> Device \<Rightarrow> 't res"
  from_vec :: "int list \<Rightarrow> nat list \<Rightarrow> Device \<Rightarrow> 't res"
  cat :: "'t list \<Rightarrow> nat \<Rightarrow> 't res"
  dims :: "'t \<Rightarrow> nat list"
  dim :: "'t \<Rightarrow> nat \<Rightarrow> nat res"
  index1 :: "'t \<Rightarrow> nat \<Rightarrow> 't res"
  index2 :: "'t \<Rightarrow> nat \<Rightarrow> nat \<Rightarrow> 't res"
  device :: "'t \<Rightarrow> Device"
  dtype :: "'t \<Rightarrow> DType"
  size_in_bytes :: "DType \<Rightarrow> nat"
  debug_device :: "Device \<Rightarrow> string"
  debug_dtype :: "DType \<Rightarrow> string"
  start_offset :: "'t \<Rightarrow> nat"
  cuda_bytes_ptr :: "'t \<Rightarrow> nat res"
  cpu_bytes_len :: "'t \<Rightarrow> nat res"
  dtod_copy :: "nat \<Rightarrow> 't \<Rightarrow> nat \<Rightarrow> nat \<Rightarrow> 't res"
  htod_copy :: "'t \<Rightarrow> nat \<Rightarrow> 't \<Rightarrow> nat \<Rightarrow> nat \<Rightarrow> 't res"
  to_device :: "'t \<Rightarrow> Device \<Rightarrow> 't res"
  fork_default_stream :: "nat \<Rightarrow> unit res"
  load_func :: "string \<Rightarrow> string \<Rightarrow> string res"
  launch_copy :: "string \<Rightarrow> nat list \<Rightarrow> nat list \<Rightarrow> int list \<Rightarrow> nat \<Rightarrow> nat \<Rightarrow> 't list \<Rightarrow> 't list \<Rightarrow> ('t list \<times> 't list) res"

text \<open>\<open>dims()[i]\<close> panics out of range.\<close>

definition dims_at :: "'t candle \<Rightarrow> 't \<Rightarrow> nat \<Rightarrow> nat res" where
  "dims_at cd t i = (if i < length (dims cd t) then Inr (dims cd t ! i) else Inl (Panic IndexOutOfBounds))"

text \<open>The kernel files and their kernels.\<close>

definition COPY_BLOCKS_PTX :: string where "COPY_BLOCKS_PTX = ''kernels/copy_blocks_kernel.ptx''"

definition COPY_BLOCKS_KERNEL :: string where "COPY_BLOCKS_KERNEL = ''copy_blocks_kernel''"

definition RESHAPE_AND_CACHE_PTX :: string where "RESHAPE_AND_CACHE_PTX = ''kernels/reshape_and_cache_kernel.ptx''"

definition RESHAPE_AND_CACHE_KERNEL :: string where "RESHAPE_AND_CACHE_KERNEL = ''reshape_and_cache_kernel''"

definition ROTARY_EMBDEDDING_PTX :: string where "ROTARY_EMBDEDDING_PTX = ''kernels/rotary_embedding_kernel.ptx''"

definition ROTARY_EMBDEDDING_KERNEL :: string where "ROTARY_EMBDEDDING_KERNEL = ''rotary_embedding_kernel''"

lemmas kernel_names = COPY_BLOCKS_PTX_def COPY_BLOCKS_KERNEL_def RESHAPE_AND_CACHE_PTX_def RESHAPE_AND_CACHE_KERNEL_def
  ROTARY_EMBDEDDING_PTX_def ROTARY_EMBDEDDING_KERNEL_def

text \<open>\<open>get_or_load_func\<close> of \<open>src/backend/mod.rs\<close>: the kernel of a data type.\<close>

definition get_or_load_func :: "'t candle \<Rightarrow> string \<Rightarrow> string \<Rightarrow> DType \<Rightarrow> string option \<Rightarrow> string res" where
  "get_or_load_func cd ptx_file kernel_base dt suffix =
     (let spec = (case dt of U8 \<Rightarrow> ''_u8'' | U32 \<Rightarrow> ''_u32'' | I64 \<Rightarrow> ''_i64'' | BF16 \<Rightarrow> ''_bf16'' | F16 \<Rightarrow> ''_f16''
                  | F32 \<Rightarrow> ''_f32'' | F64 \<Rightarrow> ''_f64'');
          spec' = (case suffix of Some s \<Rightarrow> spec @ s | None \<Rightarrow> spec)
      in load_func cd (kernel_base @ spec') ptx_file)"

end
