(* ===== verification/Attn_Bias.thy ===== *)
theory Attn_Bias
  imports Candle
begin

section \<open>Attention masks\<close>

text \<open>
  \<open>src/paged_attention/attn_bias.rs\<close> and \<open>src/paged_attention/utils.rs\<close>: the masks of the attention of a
  batch of prompts.  The further calls of the tensor library are the fields of \<open>tensor_ops\<close>; the three structs
  behind \<open>dyn AttentionBiasBlockDiagonal\<close> are the constructors of \<open>AttentionBias\<close>.
\<close>

record 't tensor_ops =
  ones :: "nat list \<Rightarrow> DType \<Rightarrow> Device \<Rightarrow> 't res"
  from_vec_u8 :: "nat list \<Rightarrow> nat list \<Rightarrow> Device \<Rightarrow> 't res"
  new_f64 :: "f64 list \<Rightarrow> Device \<Rightarrow> 't res"
  arange :: "nat \<Rightarrow> Device \<Rightarrow> 't res"
  to_dtype :: "'t \<Rightarrow> DType \<Rightarrow> 't res"
  slice_assign :: "'t \<Rightarrow> (nat \<times> nat) list \<Rightarrow> 't \<Rightarrow> 't res"
  assign_all :: "'t \<Rightarrow> 't \<Rightarrow> 't res"
  index_all :: "'t \<Rightarrow> nat \<Rightarrow> 't res"
  index_last_upto :: "'t \<Rightarrow> nat \<Rightarrow> 't res"
  unsqueeze :: "'t \<Rightarrow> nat \<Rightarrow> 't res"
  expand :: "'t \<Rightarrow> nat list \<Rightarrow> 't res"
  reshape :: "'t \<Rightarrow> nat list \<Rightarrow> 't res"
  reshape_rest :: "'t \<Rightarrow> nat list \<Rightarrow> 't res"
  flatten :: "'t \<Rightarrow> nat \<Rightarrow> nat \<Rightarrow> 't res"
  dim_minus2 :: "'t \<Rightarrow> nat res"
  dims2 :: "'t \<Rightarrow> (nat \<times> nat) res"
  dims3 :: "'t \<Rightarrow> (nat \<times> nat \<times> nat) res"
  mul :: "'t \<Rightarrow> 't \<Rightarrow> 't res"
  add :: "'t \<Rightarrow> 't \<Rightarrow> 't res"
  sub :: "'t \<Rightarrow> 't \<Rightarrow> 't res"
  log :: "'t \<Rightarrow> 't res"
  stride :: "'t \<Rightarrow> nat list"
  zeros_like :: "'t \<Rightarrow> 't res"
  transpose_last :: "'t \<Rightarrow> 't res"
  contiguous :: "'t \<Rightarrow> 't res"
  matmul :: "'t \<Rightarrow> 't \<Rightarrow> 't res"
  mul_scalar :: "'t \<Rightarrow> f32 \<Rightarrow> 't res"
  broadcast_as :: "'t \<Rightarrow> nat list \<Rightarrow> 't res"
  softmax_last_dim :: "'t \<Rightarrow> 't res"
  dropout :: "'t \<Rightarrow> f32 \<Rightarrow> 't res"
  flash_attn :: "'t \<Rightarrow> 't \<Rightarrow> 't \<Rightarrow> f32 \<Rightarrow> 't res"
  cuda_slice_ptr :: "'t \<Rightarrow> nat res"
  launch_reshape :: "string \<Rightarrow> nat \<Rightarrow> nat \<Rightarrow> nat list \<Rightarrow> nat list \<Rightarrow> 't \<Rightarrow> 't \<Rightarrow> ('t \<times> 't) res"
  launch_rotary :: "string \<Rightarrow> nat \<Rightarrow> nat \<Rightarrow> nat list \<Rightarrow> nat list \<Rightarrow> 't \<Rightarrow> 't \<Rightarrow> ('t \<times> 't) res"

subsection \<open>The starts of the sequences of a batch\<close>

record SeqLenInfo =
  seqstart_py :: "nat list"

definition SeqLenInfo_new :: "nat list \<Rightarrow> SeqLenInfo" where
  "SeqLenInfo_new starts = \<lparr>seqstart_py = starts\<rparr>"

definition SeqLenInfo_from_seqlens :: "bool \<Rightarrow> nat list \<Rightarrow> SeqLenInfo res" where
  "SeqLenInfo_from_seqlens chk seqlens =
     bindE (foldE (\<lambda>starts seqlen.
       bindE (u32_add chk (last starts) seqlen) (\<lambda>next. Inr (starts @ [next]))) [0] seqlens) (\<lambda>starts.
     Inr (SeqLenInfo_new starts))"

definition intervals :: "SeqLenInfo \<Rightarrow> (nat \<times> nat) list res" where
  "intervals info =
     (if seqstart_py info = [] then Inl (Panic IndexOutOfBounds)
      else Inr (zip (seqstart_py info) (tl (seqstart_py info))))"

subsection \<open>Triangles\<close>

text \<open>The zeros and ones of \<open>apply_triangular\<close>, row by row.\<close>

definition triangle_cells :: "nat \<Rightarrow> nat \<Rightarrow> int \<Rightarrow> bool \<Rightarrow> nat list" where
  "triangle_cells l s diagonal upper =
     concat (map (\<lambda>i. map (\<lambda>j.
       if (if upper then int i + diagonal > int j else int i + diagonal < int j) then 0 else 1) [0..<s]) [0..<l])"

definition apply_triangular :: "'t candle \<Rightarrow> 't tensor_ops \<Rightarrow> 't \<Rightarrow> int \<Rightarrow> bool \<Rightarrow> 't res" where
  "apply_triangular cd ops xs diagonal upper =
     bindE (dims2 ops xs) (\<lambda>(l, s).
     bindE (try_into_i64 l) (\<lambda>_.
     bindE (if l = 0 then Inr 0 else try_into_i64 s) (\<lambda>_.
     bindE (from_vec_u8 ops (triangle_cells l s diagonal upper) [l * s] (device cd xs)) (\<lambda>tri.
     bindE (to_dtype ops tri (dtype cd xs)) (\<lambda>tri'.
     mul ops xs tri')))))"

definition materialize_causal_mask ::
    "'t candle \<Rightarrow> 't tensor_ops \<Rightarrow> bool \<Rightarrow> nat list \<Rightarrow> DType \<Rightarrow> Device \<Rightarrow> nat option \<Rightarrow> bool \<Rightarrow> 't res" where
  "materialize_causal_mask cd ops chk shape dt dev window_size from_bottomright =
     bindE (ones ops shape (if dt \<noteq> BF16 then dt else F32) dev) (\<lambda>tensor.
     bindE (if from_bottomright
            then bindE (usize_sub chk (length shape) 2) (\<lambda>iq.
                 bindE (vec_index shape iq) (\<lambda>num_queries.
                 bindE (usize_sub chk (length shape) 1) (\<lambda>ik.
                 bindE (vec_index shape ik) (\<lambda>num_keys.
                 usize_sub chk num_keys num_queries))))
            else Inr 0) (\<lambda>shift.
     bindE (try_into_i64 shift) (\<lambda>diag.
     bindE (try_api (apply_triangular cd ops tensor diag False)) (\<lambda>mask.
     bindE (case window_size of
              Some w \<Rightarrow>
                bindE (usize_sub chk shift w) (\<lambda>d.
                bindE (usize_add chk d 1) (\<lambda>d'.
                bindE (try_into_i64 d') (\<lambda>diag'.
                try_api (apply_triangular cd ops mask diag' False))))
            | None \<Rightarrow> Inr mask) (\<lambda>mask'.
     bindE (log ops mask') (\<lambda>logm.
     to_dtype ops logm dt))))))"

subsection \<open>The masks\<close>

record BlockDiagonalCausalMask =
  cm_q_seqinfo :: SeqLenInfo
  cm_k_seqinfo :: SeqLenInfo
  cm_batch_sizes :: "nat list option"

record BlockDiagonalCausalLocalAttentionMask =
  lm_q_seqinfo :: SeqLenInfo
  lm_k_seqinfo :: SeqLenInfo
  lm_batch_sizes :: "nat list option"
  lm_window_size :: nat

record 't LowerTriangularMaskWithTensorBias =
  bias :: 't

datatype 't AttentionBias =
    CausalMask BlockDiagonalCausalMask
  | LocalMask BlockDiagonalCausalLocalAttentionMask
  | TensorBias "'t LowerTriangularMaskWithTensorBias"

subsubsection \<open>\<open>BlockDiagonalCausalMask\<close>\<close>

definition BlockDiagonalCausalMask_new :: "SeqLenInfo \<Rightarrow> SeqLenInfo \<Rightarrow> nat list option \<Rightarrow> BlockDiagonalCausalMask" where
  "BlockDiagonalCausalMask_new q_info k_info sizes = \<lparr>cm_q_seqinfo = q_info, cm_k_seqinfo = k_info, cm_batch_sizes = sizes\<rparr>"

definition BlockDiagonalCausalMask_from_seqlens :: "bool \<Rightarrow> nat list \<Rightarrow> nat list option \<Rightarrow> 't AttentionBias res" where
  "BlockDiagonalCausalMask_from_seqlens chk q_seqlen kv_seqlen =
     bindE (assertE (case kv_seqlen of None \<Rightarrow> True | Some kv \<Rightarrow> length q_seqlen = length kv)) (\<lambda>_.
     bindE (try_api (SeqLenInfo_from_seqlens chk q_seqlen)) (\<lambda>q_info.
     bindE (case kv_seqlen of
              None \<Rightarrow> Inr q_info
            | Some kv \<Rightarrow> if q_seqlen = kv then Inr q_info else try_api (SeqLenInfo_from_seqlens chk kv)) (\<lambda>k_info.
     Inr (CausalMask (BlockDiagonalCausalMask_new q_info k_info None)))))"

definition CausalMask_create_block_mask :: "'t candle \<Rightarrow> nat list \<Rightarrow> DType \<Rightarrow> Device \<Rightarrow> 't res" where
  "CausalMask_create_block_mask cd shape dt dev = zeros cd shape dt dev"

definition LocalAttentionMask_new :: "SeqLenInfo \<Rightarrow> SeqLenInfo \<Rightarrow> nat list option \<Rightarrow> nat \<Rightarrow> BlockDiagonalCausalLocalAttentionMask" where
  "LocalAttentionMask_new q_info k_info sizes window_size =
     \<lparr>lm_q_seqinfo = q_info, lm_k_seqinfo = k_info, lm_batch_sizes = sizes, lm_window_size = window_size\<rparr>"

definition CausalMask_make_local_attention :: "BlockDiagonalCausalMask \<Rightarrow> nat \<Rightarrow> 't AttentionBias res" where
  "CausalMask_make_local_attention c window_size =
     Inr (LocalMask (LocalAttentionMask_new (cm_q_seqinfo c) (cm_k_seqinfo c) (cm_batch_sizes c) window_size))"

subsubsection \<open>\<open>BlockDiagonalCausalLocalAttentionMask\<close>\<close>

definition LocalMask_create_block_mask ::
    "'t candle \<Rightarrow> 't tensor_ops \<Rightarrow> bool \<Rightarrow> BlockDiagonalCausalLocalAttentionMask \<Rightarrow> nat list \<Rightarrow> DType \<Rightarrow> Device \<Rightarrow> 't res" where
  "LocalMask_create_block_mask cd ops chk l shape dt dev =
     materialize_causal_mask cd ops chk shape dt dev (Some (lm_window_size l)) False"

definition LocalMask_get_seqinfos :: "BlockDiagonalCausalLocalAttentionMask \<Rightarrow> SeqLenInfo \<times> SeqLenInfo" where
  "LocalMask_get_seqinfos l = (lm_q_seqinfo l, lm_k_seqinfo l)"

text \<open>The default of the trait, which this mask inherits.\<close>

definition default_make_local_attention :: "nat \<Rightarrow> 't AttentionBias res" where
  "default_make_local_attention window_size = Inl (Panic NotImplemented)"

subsubsection \<open>\<open>LowerTriangularMaskWithTensorBias\<close>\<close>

definition TensorBias_materialize ::
    "'t candle \<Rightarrow> 't tensor_ops \<Rightarrow> bool \<Rightarrow> 't LowerTriangularMaskWithTensorBias \<Rightarrow> nat list \<Rightarrow> DType \<Rightarrow> Device \<Rightarrow> 't res" where
  "TensorBias_materialize cd ops chk b shape dt dev =
     bindE (try_api (materialize_causal_mask cd ops chk shape dt dev None False)) (\<lambda>mask. add ops mask (bias b))"

text \<open>\<open>_create_block_mask\<close>, the two getters and \<open>make_local_attention\<close> of this struct.\<close>

definition TensorBias_unimplemented :: "'a res" where
  "TensorBias_unimplemented = Inl (Panic NotImplemented)"

lemmas mask_methods = BlockDiagonalCausalMask_new_def CausalMask_create_block_mask_def LocalAttentionMask_new_def
  CausalMask_make_local_attention_def LocalMask_create_block_mask_def LocalMask_get_seqinfos_def default_make_local_attention_def
  TensorBias_materialize_def TensorBias_unimplemented_def

subsubsection \<open>Calls through the trait\<close>

definition get_q_seqinfo :: "'t AttentionBias \<Rightarrow> SeqLenInfo res" where
  "get_q_seqinfo m = (case m of CausalMask c \<Rightarrow> Inr (cm_q_seqinfo c) | LocalMask l \<Rightarrow> Inr (fst (LocalMask_get_seqinfos l))
     | TensorBias _ \<Rightarrow> TensorBias_unimplemented)"

definition get_k_seqinfo :: "'t AttentionBias \<Rightarrow> SeqLenInfo res" where
  "get_k_seqinfo m = (case m of CausalMask c \<Rightarrow> Inr (cm_k_seqinfo c) | LocalMask l \<Rightarrow> Inr (snd (LocalMask_get_seqinfos l))
     | TensorBias _ \<Rightarrow> TensorBias_unimplemented)"

definition create_block_mask ::
    "'t candle \<Rightarrow> 't tensor_ops \<Rightarrow> bool \<Rightarrow> 't AttentionBias \<Rightarrow> nat list \<Rightarrow> DType \<Rightarrow> Device \<Rightarrow> 't res" where
  "create_block_mask cd ops chk m shape dt dev =
     (case m of
        CausalMask _ \<Rightarrow> CausalMask_create_block_mask cd shape dt dev
      | LocalMask l \<Rightarrow> LocalMask_create_block_mask cd ops chk l shape dt dev
      | TensorBias _ \<Rightarrow> TensorBias_unimplemented)"

definition make_local_attention :: "nat \<Rightarrow> 't AttentionBias \<Rightarrow> 't AttentionBias res" where
  "make_local_attention window_size m =
     (case m of
        CausalMask c \<Rightarrow> CausalMask_make_local_attention c window_size
      | LocalMask _ \<Rightarrow> default_make_local_attention window_size
      | TensorBias _ \<Rightarrow> TensorBias_unimplemented)"

text \<open>
  \<open>materialize\<close> of the trait.  \<open>slice_assign\<close> returns a new tensor, which the loop drops, so the mask stays the
  tensor of zeros.
\<close>

definition materialize_blocks ::
    "'t candle \<Rightarrow> 't tensor_ops \<Rightarrow> bool \<Rightarrow> 't AttentionBias \<Rightarrow> nat list \<Rightarrow> DType \<Rightarrow> Device \<Rightarrow> 't res" where
  "materialize_blocks cd ops chk m shape dt dev =
     bindE (if length shape < 2 then Inl (Panic IndexOutOfBounds) else Inr (drop 2 shape)) (\<lambda>inner.
     bindE (zeros cd inner dt dev) (\<lambda>zero.
     bindE (to_dtype ops zero dt) (\<lambda>mask.
     bindE (bindE (get_q_seqinfo m) intervals) (\<lambda>qs.
     bindE (bindE (get_k_seqinfo m) intervals) (\<lambda>ks.
     bindE (foldE (\<lambda>mask ((q_start, q_end), (k_start, k_end)).
         bindE (u32_sub chk q_end q_start) (\<lambda>ql.
         bindE (u32_sub chk k_end k_start) (\<lambda>kl.
         bindE (create_block_mask cd ops chk m [ql, kl] dt dev) (\<lambda>block.
         bindE (slice_assign ops mask [(q_start, q_end), (k_start, k_end)] block) (\<lambda>_.
         Inr mask))))) mask (zip qs ks)) (\<lambda>mask'.
     bindE (foldE (\<lambda>mask _. unsqueeze ops mask 0) mask' [0..<length shape - 2]) (\<lambda>mask''.
     expand ops mask'' shape)))))))"

definition materialize ::
    "'t candle \<Rightarrow> 't tensor_ops \<Rightarrow> bool \<Rightarrow> 't AttentionBias \<Rightarrow> nat list \<Rightarrow> DType \<Rightarrow> Device \<Rightarrow> 't res" where
  "materialize cd ops chk m shape dt dev =
     (case m of
        TensorBias b \<Rightarrow> TensorBias_materialize cd ops chk b shape dt dev
      | _ \<Rightarrow> materialize_blocks cd ops chk m shape dt dev)"

end
