(* ===== verification/Input_Metadata.thy ===== *)
theory Input_Metadata
  imports Attn_Bias
begin

section \<open>The metadata of a batch\<close>

text \<open>\<open>InputMetadata\<close> of \<open>src/paged_attention/input_metadata.rs\<close>.\<close>

record 't InputMetadata =
  prompt_lens :: "nat list"
  max_context_len :: "nat option"
  md_block_tables :: "'t option"
  context_lens :: "'t option"
  slot_mapping :: 't
  attn_bias :: "'t AttentionBias option"
  md_is_prompt :: bool
  kv_cache_dtype :: string

definition InputMetadata_new ::
    "nat list \<Rightarrow> nat option \<Rightarrow> 't option \<Rightarrow> 't option \<Rightarrow> 't \<Rightarrow> string \<Rightarrow> 't InputMetadata" where
  "InputMetadata_new lens max_len tables ctx slots dt =
     \<lparr>prompt_lens = lens, max_context_len = max_len, md_block_tables = tables, context_lens = ctx, slot_mapping = slots,
      attn_bias = None, md_is_prompt = (lens \<noteq> []), kv_cache_dtype = dt\<rparr>"

end
