(* ===== verification/Kernels.thy ===== *)
theory Kernels
  imports Input_Metadata
begin

section \<open>Kernel launches\<close>

text \<open>
  The functions of \<open>src/backend\<close> that check their arguments and launch a CUDA kernel: \<open>reshape_and_cache\<close> of
  \<open>cache.rs\<close>, \<open>rotary_embedding\<close> of \<open>layers.rs\<close>, and the entry points of \<open>paged_attention.rs\<close>.  A launch gets the
  kernel, the grid and block dimensions, the pointers and the scalar arguments, and returns the tensors it writes to.
  Arguments that a function does not look at are left out, and so is the test of \<open>reshape_and_cache\<close> for a CUDA device that
  its first pattern has already made.
\<close>

text \<open>\<open>dispatch_get_cuda_pointer\<close>: the storage of a tensor is where its device is.\<close>

definition dispatch_get_cuda_pointer :: "'t candle \<Rightarrow> 't tensor_ops \<Rightarrow> 't \<Rightarrow> nat res" where
  "dispatch_get_cuda_pointer cd ops t =
     (case device cd t of
        Cuda _ \<Rightarrow> (case cuda_slice_ptr ops t of Inl (Err _) \<Rightarrow> Inl (Panic UnwrapErr) | r \<Rightarrow> r)
      | _ \<Rightarrow> Inl (Panic (ExplicitPanic ''Unsupported storage'')))"

text \<open>The message of a comparison of two tensors.\<close>

definition differ :: "string \<Rightarrow> string \<Rightarrow> string \<Rightarrow> string \<Rightarrow> string \<Rightarrow> 'a res" where
  "differ a b what x y = Inl (Err [Txt (''`'' @ a @ ''` and `'' @ b @ ''` have different '' @ what @ '', got ''), Txt x,
     Txt '' and '', Txt y, Txt '' respectively.''])"

definition reshape_and_cache ::
    "'t candle \<Rightarrow> 't tensor_ops \<Rightarrow> 't \<Rightarrow> 't \<Rightarrow> 't \<Rightarrow> 't \<Rightarrow> 't \<Rightarrow> ('t \<times> 't) res" where
  "reshape_and_cache cd ops key val key_cache value_cache slots =
     (let dd = debug_device cd; dt = debug_dtype cd in
      case device cd key of
        Cuda ord \<Rightarrow>
          if dtype cd slots \<noteq> I64
          then Inl (Err [Txt ''`slot_mapping` has '', Txt (dt (dtype cd slots)), Txt '' type, expected I64 type.''])
          else if dtype cd key \<noteq> dtype cd val
          then differ ''key'' ''value'' ''data types'' (dt (dtype cd key)) (dt (dtype cd val))
          else if dtype cd key \<noteq> dtype cd key_cache
          then differ ''key'' ''key_cache'' ''data types'' (dt (dtype cd key)) (dt (dtype cd key_cache))
          else if dtype cd key \<noteq> dtype cd value_cache
          then differ ''key'' ''value_cache'' ''data types'' (dt (dtype cd key)) (dt (dtype cd value_cache))
          else if device cd key \<noteq> device cd val
          then differ ''key'' ''value'' ''devices'' (dd (device cd key)) (dd (device cd val))
          else if device cd key \<noteq> device cd key_cache
          then differ ''key'' ''key_cache'' ''devices'' (dd (device cd key)) (dd (device cd key_cache))
          else if device cd key \<noteq> device cd value_cache
          then differ ''key'' ''value_cache'' ''devices'' (dd (device cd key)) (dd (device cd value_cache))
          else
            bindE (dims_at cd key 0) (\<lambda>num_tokens.
            bindE (dims_at cd key 1) (\<lambda>num_heads.
            bindE (dims_at cd key 2) (\<lambda>head_size.
            bindE (dims_at cd key_cache 3) (\<lambda>bsize.
            bindE (dims_at cd key_cache 4) (\<lambda>x.
            bindE (vec_index (stride ops key) 0) (\<lambda>key_stride.
            bindE (vec_index (stride ops val) 0) (\<lambda>value_stride.
            bindE (fork_default_stream cd ord) (\<lambda>_.
            bindE (try_into_u32 num_tokens) (\<lambda>grid.
            bindE (try_into_u32 (num_heads * head_size)) (\<lambda>threads.
            bindE (try_api (get_or_load_func cd RESHAPE_AND_CACHE_PTX RESHAPE_AND_CACHE_KERNEL
                     (dtype cd key) None)) (\<lambda>kernel.
            bindE (mapE (dispatch_get_cuda_pointer cd ops) [key, val, key_cache, value_cache]) (\<lambda>ptrs.
            launch_reshape ops kernel grid (min 512 threads) ptrs
              [key_stride, value_stride, num_heads, head_size, bsize, x] key_cache value_cache))))))))))))
      | _ \<Rightarrow> Inl (Panic (ExplicitPanic ''Expected the key to be on a CUDA device.'')))"

definition last_dim :: "'t candle \<Rightarrow> 't \<Rightarrow> nat res" where
  "last_dim cd t = unwrap (if dims cd t = [] then None else Some (last (dims cd t)))"

text \<open>\<open>v.get(i).unwrap()\<close>.\<close>

definition get_unwrap :: "'a list \<Rightarrow> nat \<Rightarrow> 'a res" where
  "get_unwrap xs i = unwrap (if i < length xs then Some (xs ! i) else None)"

definition rotary_embedding ::
    "'t candle \<Rightarrow> 't tensor_ops \<Rightarrow> bool \<Rightarrow> 't \<Rightarrow> 't \<Rightarrow> 't \<Rightarrow> nat \<Rightarrow> 't \<Rightarrow> bool \<Rightarrow> ('t \<times> 't) res" where
  "rotary_embedding cd ops chk positions query key head_size cos_sin_cache is_neox =
     (let dd = debug_device cd in
      case device cd positions of
        Cuda ord \<Rightarrow>
          if dtype cd positions \<noteq> I64
          then Inl (Err [Txt ''`positions` has '', Txt (debug_dtype cd (dtype cd positions)), Txt '' type, expected I64 type.''])
          else if device cd query \<noteq> device cd positions
          then differ ''query'' ''positions'' ''devices'' (dd (device cd query)) (dd (device cd positions))
          else if device cd key \<noteq> device cd positions
          then differ ''key'' ''positions'' ''devices'' (dd (device cd key)) (dd (device cd positions))
          else if device cd cos_sin_cache \<noteq> device cd positions
          then differ ''cos_sin_cache'' ''positions'' ''devices'' (dd (device cd cos_sin_cache)) (dd (device cd positions))
          else
            bindE (last_dim cd query) (\<lambda>qlast.
            bindE (usize_div (prod_list (dims cd query)) qlast) (\<lambda>num_tokens.
            bindE (get_unwrap (dims cd cos_sin_cache) 1) (\<lambda>rot_dim.
            bindE (usize_div qlast head_size) (\<lambda>num_heads.
            bindE (last_dim cd key) (\<lambda>klast.
            bindE (usize_div klast head_size) (\<lambda>num_kv_heads.
            bindE (usize_sub chk (length (stride ops key)) 2) (\<lambda>ix.
            bindE (get_unwrap (stride ops query) ix) (\<lambda>query_stride.
            bindE (get_unwrap (stride ops key) ix) (\<lambda>key_stride.
            bindE (try_into_u32 num_tokens) (\<lambda>grid.
            bindE (try_into_u32 (num_heads * rot_dim div 2)) (\<lambda>threads.
            bindE (mapE (dispatch_get_cuda_pointer cd ops) [positions, key, query, cos_sin_cache]) (\<lambda>ptrs.
            bindE (fork_default_stream cd ord) (\<lambda>_.
            bindE (try_api (get_or_load_func cd ROTARY_EMBDEDDING_PTX ROTARY_EMBDEDDING_KERNEL
                     (dtype cd query) (if is_neox then Some ''_neox'' else None))) (\<lambda>kernel.
            launch_rotary ops kernel grid (min 512 threads) [ptrs ! 0, ptrs ! 2, ptrs ! 1, ptrs ! 3]
              [rot_dim, query_stride, key_stride, num_heads, num_kv_heads, head_size] query key))))))))))))))
      | _ \<Rightarrow> Inl (Panic (ExplicitPanic ''Expected the positions to be on a CUDA device.'')))"

subsection \<open>Paged attention\<close>

definition WARP_SIZE :: nat where
  "WARP_SIZE = 32"

text \<open>\<open>debug_assert_eq!\<close> is compiled in together with the overflow checks.\<close>

definition paged_attention_v1_launcher :: "'t candle \<Rightarrow> 't tensor_ops \<Rightarrow> bool \<Rightarrow> 't \<Rightarrow> 't \<Rightarrow> 't \<Rightarrow> nat \<Rightarrow> 't res" where
  "paged_attention_v1_launcher cd ops chk query key_cache tables bsize =
     bindE (mapE (dims_at cd query) [0, 1, 2]) (\<lambda>qd.
     bindE (dims_at cd tables 1) (\<lambda>_.
     bindE (vec_index (stride ops query) 0) (\<lambda>_.
     bindE (mapE (vec_index (stride ops key_cache)) [0, 1]) (\<lambda>_.
     bindE (usize_div WARP_SIZE bsize) (\<lambda>w.
     bindE (if chk then assertE (qd ! 2 mod max 1 w = 0) else Inr ()) (\<lambda>_.
     Inl (Panic NotImplemented)))))))"

definition paged_attention_v1 ::
    "'t candle \<Rightarrow> 't tensor_ops \<Rightarrow> bool \<Rightarrow> 't \<Rightarrow> 't \<Rightarrow> 't \<Rightarrow> nat \<Rightarrow> string \<Rightarrow> 't res" where
  "paged_attention_v1 cd ops chk query key_cache tables bsize kv_dtype =
     (let unsupported = Inl (Err [Txt ''Unsupported data type '', Txt (debug_dtype cd (dtype cd query))]) in
      if kv_dtype = ''auto'' \<or> kv_dtype = ''fp8_e5m2''
      then if dtype cd query \<in> {F32, F16, BF16} then paged_attention_v1_launcher cd ops chk query key_cache tables bsize
           else unsupported
      else unsupported)"

definition paged_attention_v2 :: "'t res" where
  "paged_attention_v2 = Inl (Panic NotImplemented)"

end
