(* ===== verification/Paged_Attention.thy ===== *)
theory Paged_Attention
  imports Kernels
begin

section \<open>Paged attention\<close>

text \<open>
  \<open>PagedAttention\<close> of \<open>src/paged_attention/mod.rs\<close> and \<open>memory_efficient_attention.rs\<close>.  A call that stores the mask in
  the metadata returns the metadata; \<open>cuda\<close> is the feature of that name.
\<close>

definition PARTITION_SIZE :: nat where
  "PARTITION_SIZE = 512"

record 't PagedAttention =
  pa_num_attention_heads :: nat
  pa_head_dim :: nat
  pa_num_key_value_heads :: nat
  pa_scale :: f32
  pa_sliding_window :: "nat option"
  pa_num_queries_per_kv :: nat
  pa_alibi_slopes :: "'t option"

definition PagedAttention_new ::
    "'t tensor_ops \<Rightarrow> nat \<Rightarrow> nat \<Rightarrow> f32 \<Rightarrow> nat option \<Rightarrow> nat option \<Rightarrow> Device \<Rightarrow> f64 list option \<Rightarrow> 't PagedAttention res" where
  "PagedAttention_new ops heads head_dim scale kv_heads window dev slopes =
     (let kv = unwrap_or kv_heads heads in
      bindE (usize_div heads kv) (\<lambda>per_kv.
      bindE (case slopes of Some s \<Rightarrow> bindE (new_f64 ops s dev) (\<lambda>t. Inr (Some t)) | None \<Rightarrow> Inr None) (\<lambda>alibi.
      Inr \<lparr>pa_num_attention_heads = heads, pa_head_dim = head_dim, pa_num_key_value_heads = kv, pa_scale = scale,
           pa_sliding_window = window, pa_num_queries_per_kv = per_kv, pa_alibi_slopes = alibi\<rparr>)))"

subsection \<open>Decoding\<close>

definition paged_attention ::
    "'t candle \<Rightarrow> 't tensor_ops \<Rightarrow> bool \<Rightarrow> 't PagedAttention \<Rightarrow> 't \<Rightarrow> 't \<Rightarrow> 't \<Rightarrow> 't InputMetadata \<Rightarrow> 't res" where
  "paged_attention cd ops chk pa query key_cache value_cache md =
     bindE (get_unwrap (dims cd value_cache) 3) (\<lambda>bsize.
     bindE (dims3 ops query) (\<lambda>(num_seqs, num_heads, _).
     bindE (unwrap (max_context_len md)) (\<lambda>max_len.
     let max_num_partitions = (max_len + PARTITION_SIZE - 1) div PARTITION_SIZE in
     if max_len \<le> 8192 \<and> (max_num_partitions = 1 \<or> num_seqs * num_heads > 512)
     then bindE (try_into_i32 (pa_num_key_value_heads pa)) (\<lambda>_.
          bindE (unwrap (md_block_tables md)) (\<lambda>tables.
          bindE (unwrap (context_lens md)) (\<lambda>_.
          paged_attention_v1 cd ops chk query key_cache tables bsize (kv_cache_dtype md))))
     else bindE (usize_rem PARTITION_SIZE bsize) (\<lambda>r.
          bindE (assertE (r = 0)) (\<lambda>_.
          bindE (zeros cd [num_seqs, num_heads, max_num_partitions] F32 (device cd query)) (\<lambda>exp_sums.
          bindE (zeros_like ops exp_sums) (\<lambda>_.
          bindE (try_into_i32 (pa_num_key_value_heads pa)) (\<lambda>_.
          bindE (unwrap (md_block_tables md)) (\<lambda>_.
          bindE (unwrap (context_lens md)) (\<lambda>_.
          paged_attention_v2))))))))))"

subsection \<open>Prompts\<close>

text \<open>The version of a build with CUDA ignores mask and dropout.\<close>

definition flash_scaled_dot_product_attention :: "'t tensor_ops \<Rightarrow> 't \<Rightarrow> 't \<Rightarrow> 't \<Rightarrow> 't \<Rightarrow> f32 option \<Rightarrow> f32 \<Rightarrow> 't res" where
  "flash_scaled_dot_product_attention ops query key val attn_mask dropout_p scale_factor = flash_attn ops query key val scale_factor"

definition scaled_dot_product_attention ::
    "'t candle \<Rightarrow> 't tensor_ops \<Rightarrow> bool \<Rightarrow> 't \<Rightarrow> 't \<Rightarrow> 't \<Rightarrow> 't \<Rightarrow> f32 option \<Rightarrow> f32 \<Rightarrow> 't res" where
  "scaled_dot_product_attention cd ops cuda query key val attn_mask dropout_p scale =
     (if cuda then flash_scaled_dot_product_attention ops query key val attn_mask dropout_p scale
      else
        bindE (transpose_last ops key) (\<lambda>kt.
        bindE (contiguous ops kt) (\<lambda>kc.
        bindE (matmul ops query kc) (\<lambda>qk.
        bindE (mul_scalar ops qk scale) (\<lambda>w.
        bindE (broadcast_as ops attn_mask (dims cd w)) (\<lambda>m.
        bindE (add ops w m) (\<lambda>w1.
        bindE (softmax_last_dim ops w1) (\<lambda>w2.
        bindE (case dropout_p of Some p \<Rightarrow> dropout ops w2 p | None \<Rightarrow> Inr w2) (\<lambda>w3.
        matmul ops w3 val)))))))))"

text \<open>Heads that share a key are grouped, and keys and values repeated for them.\<close>

definition repeat_heads :: "'t candle \<Rightarrow> 't tensor_ops \<Rightarrow> 't PagedAttention \<Rightarrow> 't \<Rightarrow> 't res" where
  "repeat_heads cd ops pa t =
     bindE (index_all ops t 4) (\<lambda>t1.
     bindE (unsqueeze ops t1 2) (\<lambda>t2.
     bindE (get_unwrap (dims cd t) 0) (\<lambda>d0.
     bindE (last_dim cd t) (\<lambda>dl.
     expand ops t2 [d0, pa_num_key_value_heads pa, pa_num_queries_per_kv pa, dl]))))"

definition group_heads :: "'t candle \<Rightarrow> 't tensor_ops \<Rightarrow> 't PagedAttention \<Rightarrow> 't \<Rightarrow> 't \<Rightarrow> 't \<Rightarrow> ('t \<times> 't \<times> 't) res" where
  "group_heads cd ops pa query key val =
     (if pa_num_key_value_heads pa \<noteq> pa_num_attention_heads pa
      then bindE (get_unwrap (dims cd query) 0) (\<lambda>d0.
           bindE (last_dim cd query) (\<lambda>dl.
           bindE (reshape ops query [d0, pa_num_key_value_heads pa, pa_num_queries_per_kv pa, dl]) (\<lambda>q.
           bindE (repeat_heads cd ops pa key) (\<lambda>k.
           bindE (repeat_heads cd ops pa val) (\<lambda>v.
           Inr (q, k, v))))))
      else Inr (query, key, val))"

definition alibi_bias ::
    "'t candle \<Rightarrow> 't tensor_ops \<Rightarrow> 't \<Rightarrow> nat \<Rightarrow> nat \<Rightarrow> Device \<Rightarrow> DType \<Rightarrow> 't AttentionBias res" where
  "alibi_bias cd ops slopes seq_len batch_size dev dt =
     bindE (try_into_i32 seq_len) (\<lambda>_.
     bindE (arange ops seq_len dev) (\<lambda>a.
     bindE (to_dtype ops a dt) (\<lambda>b.
     bindE (unsqueeze ops b 0) (\<lambda>row.
     bindE (unsqueeze ops b 1) (\<lambda>col.
     bindE (sub ops row col) (\<lambda>dist.
     bindE (to_device cd dist (device cd slopes)) (\<lambda>dist'.
     let padded_len = (seq_len + 7) div 8 * 8 in
     bindE (dims_at cd slopes 0) (\<lambda>heads.
     bindE (zeros cd [batch_size, heads, seq_len, padded_len] dt dev) (\<lambda>z.
     bindE (index_last_upto ops z seq_len) (\<lambda>z1.
     bindE (assign_all ops z1 dist') (\<lambda>z2.
     bindE (index_all ops slopes 1) (\<lambda>s0.
     bindE (unsqueeze ops s0 1) (\<lambda>s1.
     bindE (unsqueeze ops s1 2) (\<lambda>s2.
     bindE (mul ops z2 s2) (\<lambda>z3.
     Inr (TensorBias \<lparr>bias = z3\<rparr>))))))))))))))))"

definition make_bias ::
    "'t candle \<Rightarrow> 't tensor_ops \<Rightarrow> bool \<Rightarrow> 't PagedAttention \<Rightarrow> nat \<Rightarrow> nat \<Rightarrow> Device \<Rightarrow> DType \<Rightarrow> 't AttentionBias res" where
  "make_bias cd ops chk pa seq_len batch_size dev dt =
     (case pa_alibi_slopes pa of
        Some slopes \<Rightarrow> alibi_bias cd ops slopes seq_len batch_size dev dt
      | None \<Rightarrow>
          bindE (try_into_u32 seq_len) (\<lambda>l.
          bindE (try_api (BlockDiagonalCausalMask_from_seqlens chk (replicate batch_size l) None)) (\<lambda>m.
          case pa_sliding_window pa of
            Some w \<Rightarrow> try_api (make_local_attention w m)
          | None \<Rightarrow> Inr m)))"

text \<open>The batch dimension: one is added in front, or split off the first dimension when there are slopes.\<close>

definition split_batch :: "'t candle \<Rightarrow> 't tensor_ops \<Rightarrow> nat \<Rightarrow> nat \<Rightarrow> 't \<Rightarrow> 't res" where
  "split_batch cd ops batch_size seq_len t =
     bindE (mapE (dims_at cd t) [1..<length (dims cd t)]) (\<lambda>ds. reshape ops t ([batch_size, seq_len] @ ds))"

definition with_batch ::
    "'t candle \<Rightarrow> 't tensor_ops \<Rightarrow> 't PagedAttention \<Rightarrow> nat \<Rightarrow> nat \<Rightarrow> 't \<Rightarrow> 't \<Rightarrow> 't \<Rightarrow> ('t \<times> 't \<times> 't) res" where
  "with_batch cd ops pa batch_size seq_len query key val =
     (if pa_alibi_slopes pa = None
      then bindE (unsqueeze ops query 0) (\<lambda>q. bindE (unsqueeze ops key 0) (\<lambda>k.
           bindE (unsqueeze ops val 0) (\<lambda>v. Inr (q, k, v))))
      else
        bindE (assertE (length (dims cd query) = length (dims cd key))) (\<lambda>_.
        bindE (assertE (length (dims cd val) = length (dims cd key))) (\<lambda>_.
        bindE (assertE (length (dims cd query) = 3 \<or> length (dims cd query) = 4)) (\<lambda>_.
        bindE (split_batch cd ops batch_size seq_len query) (\<lambda>q.
        bindE (split_batch cd ops batch_size seq_len key) (\<lambda>k.
        bindE (split_batch cd ops batch_size seq_len val) (\<lambda>v. Inr (q, k, v))))))))"

text \<open>The mask of the bias for the queries and keys, and the attention with it.\<close>

definition masked_attention ::
    "'t candle \<Rightarrow> 't tensor_ops \<Rightarrow> bool \<Rightarrow> bool \<Rightarrow> 't PagedAttention \<Rightarrow> 't AttentionBias \<Rightarrow> Device \<Rightarrow> 't \<Rightarrow> 't \<Rightarrow> 't \<Rightarrow> 't res" where
  "masked_attention cd ops cuda chk pa m dev q k v =
     bindE (dim_minus2 ops q) (\<lambda>l.
     bindE (dim_minus2 ops k) (\<lambda>s.
     bindE (try_api (materialize cd ops chk m [l, s] (dtype cd q) dev)) (\<lambda>mask.
     scaled_dot_product_attention cd ops cuda q k v mask None (pa_scale pa))))"

definition memory_efficient_attention ::
    "'t candle \<Rightarrow> 't tensor_ops \<Rightarrow> bool \<Rightarrow> bool \<Rightarrow> 't PagedAttention \<Rightarrow> 't \<Rightarrow> 't \<Rightarrow> 't \<Rightarrow> 't InputMetadata \<Rightarrow> nat \<Rightarrow> nat
     \<Rightarrow> Device \<Rightarrow> DType \<Rightarrow> ('t \<times> 't InputMetadata) res" where
  "memory_efficient_attention cd ops cuda chk pa query key val md seq_len batch_size dev dt =
     bindE (group_heads cd ops pa query key val) (\<lambda>(q0, k0, v0).
     bindE (case attn_bias md of
              Some m \<Rightarrow> Inr m
            | None \<Rightarrow> make_bias cd ops chk pa seq_len batch_size dev dt) (\<lambda>m.
     let md' = md\<lparr>attn_bias := Some m\<rparr> in
     bindE (with_batch cd ops pa batch_size seq_len q0 k0 v0) (\<lambda>(q, k, v).
     bindE (masked_attention cd ops cuda chk pa m dev q k v) (\<lambda>out.
     Inr (out, md')))))"

definition normal_attention ::
    "'t candle \<Rightarrow> 't tensor_ops \<Rightarrow> bool \<Rightarrow> bool \<Rightarrow> 't PagedAttention \<Rightarrow> 't \<Rightarrow> 't \<Rightarrow> 't \<Rightarrow> 't InputMetadata \<Rightarrow> nat \<Rightarrow> nat
     \<Rightarrow> Device \<Rightarrow> DType \<Rightarrow> ('t \<times> 't InputMetadata) res" where
  [simp]: "normal_attention cd ops cuda chk pa query key val md seq_len batch_size dev dt =
     memory_efficient_attention cd ops cuda chk pa query key val md seq_len batch_size dev dt"

subsection \<open>The layer\<close>

definition PagedAttention_forward ::
    "'t candle \<Rightarrow> 't tensor_ops \<Rightarrow> bool \<Rightarrow> bool \<Rightarrow> 't PagedAttention \<Rightarrow> 't \<Rightarrow> 't \<Rightarrow> 't \<Rightarrow> 't option \<Rightarrow> 't option
     \<Rightarrow> 't InputMetadata \<Rightarrow> DType \<Rightarrow> Device \<Rightarrow> ('t \<times> 't InputMetadata) res" where
  "PagedAttention_forward cd ops cuda chk pa query key val key_cache value_cache md dt dev =
     bindE (dims3 ops query) (\<lambda>(batch_size, seq_len, hidden).
     bindE (reshape_rest ops query [pa_num_attention_heads pa, pa_head_dim pa]) (\<lambda>q.
     bindE (reshape_rest ops key [pa_num_key_value_heads pa, pa_head_dim pa]) (\<lambda>k.
     bindE (reshape_rest ops val [pa_num_key_value_heads pa, pa_head_dim pa]) (\<lambda>v.
     bindE (flatten ops (slot_mapping md) 0 (length (dims cd (slot_mapping md)))) (\<lambda>slots.
     bindE (case (key_cache, value_cache) of
              (Some kc, Some vc) \<Rightarrow>
                bindE (try_api (reshape_and_cache cd ops k v kc vc slots)) (\<lambda>(kc', vc'). Inr (Some kc', Some vc'))
            | caches \<Rightarrow> Inr caches) (\<lambda>(kc, vc).
     bindE (if md_is_prompt md
            then normal_attention cd ops cuda chk pa q k v md seq_len batch_size dev dt
            else bindE (unwrap kc) (\<lambda>kc'. bindE (unwrap vc) (\<lambda>vc'.
                 bindE (paged_attention cd ops chk pa q kc' vc' md) (\<lambda>out. Inr (out, md))))) (\<lambda>(output, md').
     bindE (reshape ops output [batch_size, seq_len, hidden]) (\<lambda>out. Inr (out, md')))))))))"

end
