(* ===== verification/Cache_Config.thy ===== *)
theory Cache_Config
  imports Prelude
begin

section \<open>The cache configuration\<close>

text \<open>
  \<open>CacheConfig\<close> of \<open>src/scheduler/cache_engine.rs\<close>.  The two block counts are set after profiling;
  \<open>fully_init\<close> is meant to say that both are there.
\<close>

record CacheConfig =
  block_size :: nat
  cc_num_gpu_blocks :: "nat option"
  cc_num_cpu_blocks :: "nat option"
  fully_init :: bool

definition set_num_gpu_blocks :: "nat \<Rightarrow> CacheConfig \<Rightarrow> CacheConfig" where
  "set_num_gpu_blocks n c =
     (let c' = (if cc_num_cpu_blocks c \<noteq> None then c\<lparr>fully_init := True\<rparr> else c)
      in c'\<lparr>cc_num_gpu_blocks := Some n\<rparr>)"

definition set_num_cpu_blocks :: "nat \<Rightarrow> CacheConfig \<Rightarrow> CacheConfig" where
  "set_num_cpu_blocks n c =
     (let c' = (if cc_num_gpu_blocks c \<noteq> None then c\<lparr>fully_init := True\<rparr> else c)
      in c'\<lparr>cc_num_cpu_blocks := Some n\<rparr>)"

text \<open>What the engines assert or unwrap.\<close>

definition cache_ready :: "CacheConfig \<Rightarrow> bool" where
  "cache_ready c \<longleftrightarrow> fully_init c \<and> cc_num_gpu_blocks c \<noteq> None \<and> cc_num_cpu_blocks c \<noteq> None"

text \<open>The flag is truthful: once set, both counts are there.\<close>

definition cache_config_ok :: "CacheConfig \<Rightarrow> bool" where
  "cache_config_ok c \<longleftrightarrow> (fully_init c \<longrightarrow> cc_num_gpu_blocks c \<noteq> None \<and> cc_num_cpu_blocks c \<noteq> None)"

lemma set_blocks_ok [simp]:
  "cache_config_ok c \<Longrightarrow> cache_config_ok (set_num_gpu_blocks n c)"
  "cache_config_ok c \<Longrightarrow> cache_config_ok (set_num_cpu_blocks n c)"
  by (auto simp: cache_config_ok_def set_num_gpu_blocks_def set_num_cpu_blocks_def Let_def)

lemma set_both_ready:
  "cache_ready (set_num_gpu_blocks n (set_num_cpu_blocks m c))"
  "cache_ready (set_num_cpu_blocks m (set_num_gpu_blocks n c))"
  by (auto simp: cache_ready_def set_num_gpu_blocks_def set_num_cpu_blocks_def Let_def)

end
