(* ===== verification/Model_Config.thy ===== *)
theory Model_Config
  imports F32 Prelude
begin

section \<open>Model configuration\<close>

text \<open>
  The configurations of \<open>src/openai/models/llama.rs\<close> and the trait \<open>ConfigLike\<close> of \<open>src/openai/models/mod.rs\<close>.  A trait object
  is the record of its answers; \<open>dyn_Config\<close> and \<open>dyn_LlamaConfig\<close> are the two implementations, \<open>get_head_size\<close> is the method with a default body.
\<close>

record Config =
  hidden_size :: nat
  intermediate_size :: nat
  vocab_size :: nat
  num_hidden_layers :: nat
  num_attention_heads :: nat
  num_key_value_heads :: nat
  rms_norm_eps :: f64
  rope_theta :: f32

record LlamaConfig =
  lc_hidden_size :: nat
  lc_intermediate_size :: nat
  lc_vocab_size :: nat
  lc_num_hidden_layers :: nat
  lc_num_attention_heads :: nat
  lc_num_key_value_heads :: "nat option"
  lc_rms_norm_eps :: f64
  lc_rope_theta :: f32

definition into_config :: "LlamaConfig \<Rightarrow> Config" where
  "into_config c = \<lparr>hidden_size = lc_hidden_size c, intermediate_size = lc_intermediate_size c, vocab_size = lc_vocab_size c,
     num_hidden_layers = lc_num_hidden_layers c, num_attention_heads = lc_num_attention_heads c,
     num_key_value_heads = unwrap_or (lc_num_key_value_heads c) (lc_num_attention_heads c),
     rms_norm_eps = lc_rms_norm_eps c, rope_theta = lc_rope_theta c\<rparr>"

text \<open>The two configurations of the code; the epsilons are the \<open>f64\<close> values next to one millionth and one hundred thousandth.\<close>

definition config_7b_v1 :: Config where
  "config_7b_v1 = \<lparr>hidden_size = 4096, intermediate_size = 11008, vocab_size = 32000, num_hidden_layers = 32,
     num_attention_heads = 32, num_key_value_heads = 32, rms_norm_eps = Fin (4722366482869645 / 4722366482869645213696),
     rope_theta = Fin 10000\<rparr>"

definition config_7b_v2 :: Config where
  "config_7b_v2 = \<lparr>hidden_size = 4096, intermediate_size = 11008, vocab_size = 32000, num_hidden_layers = 32,
     num_attention_heads = 32, num_key_value_heads = 32, rms_norm_eps = Fin (5902958103587057 / 590295810358705651712),
     rope_theta = Fin 10000\<rparr>"

record ConfigLike =
  get_num_kv_heads :: nat
  get_hidden_size :: nat
  get_num_hidden_layers :: nat
  get_num_attention_heads :: nat
  get_vocab_size :: nat
  get_sliding_window :: "nat option"

definition dyn_Config :: "Config \<Rightarrow> ConfigLike" where
  "dyn_Config c = \<lparr>get_num_kv_heads = num_key_value_heads c, get_hidden_size = hidden_size c,
     get_num_hidden_layers = num_hidden_layers c, get_num_attention_heads = num_attention_heads c,
     get_vocab_size = vocab_size c, get_sliding_window = None\<rparr>"

definition dyn_LlamaConfig :: "LlamaConfig \<Rightarrow> ConfigLike" where
  "dyn_LlamaConfig c = \<lparr>get_num_kv_heads = unwrap_or (lc_num_key_value_heads c) (lc_num_attention_heads c),
     get_hidden_size = lc_hidden_size c, get_num_hidden_layers = lc_num_hidden_layers c,
     get_num_attention_heads = lc_num_attention_heads c, get_vocab_size = lc_vocab_size c, get_sliding_window = None\<rparr>"

definition get_head_size :: "ConfigLike \<Rightarrow> nat res" where
  "get_head_size c = usize_div (get_hidden_size c) (get_num_attention_heads c)"

text \<open>The configuration that is loaded answers as the file it was read from.\<close>

lemma into_config_answers: "dyn_Config (into_config c) = dyn_LlamaConfig c"
  by (simp add: dyn_Config_def dyn_LlamaConfig_def into_config_def)

end
