(* ===== verification/Cache_Engine.thy ===== *)
theory Cache_Engine
  imports Cache_Config Candle Model_Config
begin

section \<open>The cache engine\<close>

text \<open>
  \<open>CacheEngine\<close> of \<open>src/scheduler/cache_engine.rs\<close>, with \<open>swap_blocks\<close> and \<open>copy_blocks\<close> of
  \<open>src/backend/cache.rs\<close>.  \<open>get_kv_cache\<close> spins on a lock; its guards are dropped at the end of the statement or of the
  round of the loop that takes them, so that the lock is free at every call and the loops of the swaps work on the list itself.
\<close>

subsection \<open>The shape of the cache\<close>

definition calculate_key_block_shape :: "'t candle \<Rightarrow> ConfigLike \<Rightarrow> DType \<Rightarrow> nat \<Rightarrow> nat list res" where
  "calculate_key_block_shape cd model_config dt bsize =
     bindE (usize_div 16 (size_in_bytes cd dt)) (\<lambda>x.
     bindE (get_head_size model_config) (\<lambda>head_size.
     bindE (usize_div head_size x) (\<lambda>h.
     Inr [get_num_kv_heads model_config, h, bsize, x])))"

definition calculate_value_block_shape :: "ConfigLike \<Rightarrow> nat \<Rightarrow> nat list res" where
  "calculate_value_block_shape model_config bsize =
     bindE (get_head_size model_config) (\<lambda>head_size.
     Inr [get_num_kv_heads model_config, head_size, bsize])"

text \<open>One layer of a cache, and the loop over the layers.\<close>

definition allocate_layer :: "'t candle \<Rightarrow> nat option \<Rightarrow> DType \<Rightarrow> nat list \<Rightarrow> nat list \<Rightarrow> ('t \<times> 't) res" where
  "allocate_layer cd num_blocks dt key_shape value_shape =
     bindE (new_cuda cd 0) (\<lambda>cuda_device.
     bindE (unwrap num_blocks) (\<lambda>nb.
     bindE (zeros cd (nb # key_shape) dt cuda_device) (\<lambda>key_blocks.
     bindE (zeros cd (nb # value_shape) dt cuda_device) (\<lambda>value_blocks.
     Inr (key_blocks, value_blocks)))))"

definition allocate_gpu_cache :: "'t candle \<Rightarrow> ConfigLike \<Rightarrow> CacheConfig \<Rightarrow> DType \<Rightarrow> ('t \<times> 't) list res" where
  "allocate_gpu_cache cd model_config cache_config dt =
     bindE (assertE (fully_init cache_config)) (\<lambda>_.
     bindE (calculate_key_block_shape cd model_config dt (block_size cache_config)) (\<lambda>key_shape.
     bindE (calculate_value_block_shape model_config (block_size cache_config)) (\<lambda>value_shape.
     mapE (\<lambda>_. allocate_layer cd (cc_num_gpu_blocks cache_config) dt key_shape value_shape)
       [0..<get_num_hidden_layers model_config])))"

definition allocate_cpu_cache :: "'t candle \<Rightarrow> ConfigLike \<Rightarrow> CacheConfig \<Rightarrow> DType \<Rightarrow> ('t \<times> 't) list res" where
  "allocate_cpu_cache cd model_config cache_config dt =
     bindE (assertE (fully_init cache_config)) (\<lambda>_.
     bindE (calculate_key_block_shape cd model_config dt (block_size cache_config)) (\<lambda>key_shape.
     bindE (calculate_value_block_shape model_config (block_size cache_config)) (\<lambda>value_shape.
     mapE (\<lambda>_. allocate_layer cd (cc_num_cpu_blocks cache_config) dt key_shape value_shape)
       [0..<get_num_hidden_layers model_config])))"

record 't CacheEngine =
  gpu_cache :: "('t \<times> 't) list"
  cpu_cache :: "('t \<times> 't) list"
  num_layers :: nat

definition get_kv_cache :: "bool \<Rightarrow> 't CacheEngine \<Rightarrow> ('t \<times> 't) list res" where
  "get_kv_cache locked ce = bindE (spin_lock locked) (\<lambda>_. Inr (gpu_cache ce))"

lemma get_kv_cache_simps [simp]: "get_kv_cache False ce = Inr (gpu_cache ce)" "get_kv_cache True ce = Inl Deadlock"
  by (simp_all add: get_kv_cache_def spin_lock_def)

definition CacheEngine_new :: "'t candle \<Rightarrow> ConfigLike \<Rightarrow> CacheConfig \<Rightarrow> DType \<Rightarrow> 't CacheEngine res" where
  "CacheEngine_new cd model_config cache_config dt =
     bindE (allocate_gpu_cache cd model_config cache_config dt) (\<lambda>gpu.
     bindE (allocate_cpu_cache cd model_config cache_config dt) (\<lambda>cpu.
     Inr \<lparr>gpu_cache = gpu, cpu_cache = cpu, num_layers = get_num_hidden_layers model_config\<rparr>))"

subsection \<open>Moving blocks\<close>

text \<open>
  \<open>swap_blocks\<close>: the byte ranges it copies for a mapping.  The size of a block is computed from the first
  dimension of the tensor.
\<close>

definition swap_block_size :: "'t candle \<Rightarrow> 't \<Rightarrow> nat res" where
  "swap_block_size cd src = bindE (dims_at cd src 0) (\<lambda>d. Inr (size_in_bytes cd (dtype cd src) * d))"

definition swap_blocks :: "'t candle \<Rightarrow> 't \<Rightarrow> 't \<Rightarrow> (nat, nat) hash_map \<Rightarrow> 't res" where
  "swap_blocks cd src dst block_mapping =
     bindE (swap_block_size cd src) (\<lambda>block_size_in_bytes.
     case (device cd src, device cd dst) of
       (Cuda src_ord, Cuda dst_ord) \<Rightarrow>
         if src_ord \<noteq> dst_ord
         then Inl (Err [Txt ''Tensors must be on the same device to copy, got ordinals '', Num (int src_ord),
                        Txt '' (src) and '', Num (int dst_ord), Txt '' (dst).''])
         else bindE (cuda_bytes_ptr cd src) (\<lambda>sp.
              bindE (cuda_bytes_ptr cd dst) (\<lambda>dp.
              foldE (\<lambda>dst (src_block, dst_block).
                  dtod_copy cd (sp + start_offset cd src + src_block * block_size_in_bytes) dst
                    (dp + start_offset cd dst + dst_block * block_size_in_bytes) block_size_in_bytes)
                dst block_mapping))
     | (Cpu, Cuda dst_ord) \<Rightarrow>
         bindE (cuda_bytes_ptr cd dst) (\<lambda>dp.
         bindE (cpu_bytes_len cd src) (\<lambda>len.
         foldE (\<lambda>dst' (src_block, dst_block).
             if len < src_block * block_size_in_bytes + block_size_in_bytes then Inl (Panic IndexOutOfBounds)
             else htod_copy cd src (src_block * block_size_in_bytes) dst'
                    (dp + start_offset cd dst + dst_block * block_size_in_bytes) block_size_in_bytes)
           dst block_mapping))
     | (Cuda src_ord, Cpu) \<Rightarrow> Inl (Panic NotImplemented)
     | (s, d) \<Rightarrow> Inl (Err [Txt ''Tensors must be on either the GPU or CPU to swap,, got '', Txt (debug_device cd s),
                            Txt '' (src) and '', Txt (debug_device cd d), Txt '' (dst).'']))"

text \<open>The flat list of source and destination numbers that \<open>copy_blocks\<close> hands to its kernel.\<close>

definition block_mapping_vec :: "(nat, nat list) hash_map \<Rightarrow> int list res" where
  "block_mapping_vec m =
     foldE (\<lambda>v (src, dsts).
       foldE (\<lambda>v dst. bindE (try_into_i64 src) (\<lambda>a. bindE (try_into_i64 dst) (\<lambda>b. Inr (v @ [a, b])))) v dsts) [] m"

text \<open>\<open>Vec::first\<close>.\<close>

definition first_of :: "'a list \<Rightarrow> 'a option" where
  "first_of xs = (case xs of [] \<Rightarrow> None | x # _ \<Rightarrow> Some x)"

definition copy_blocks ::
    "'t candle \<Rightarrow> 't list \<Rightarrow> 't list \<Rightarrow> (nat, nat list) hash_map \<Rightarrow> ('t list \<times> 't list) res" where
  "copy_blocks cd key_caches value_caches block_mapping =
     bindE (unwrap (first_of key_caches)) (\<lambda>k.
     case device cd k of
       Cuda ord \<Rightarrow>
         bindE (unwrap (first_of value_caches)) (\<lambda>v.
         if device cd v \<noteq> Cuda ord
         then Inl (Err [Txt ''`key` and `value` caches have different devices, got '', Txt (debug_device cd (Cuda ord)),
                        Txt '' and '', Txt (debug_device cd (device cd v)), Txt '' respectively.''])
         else if dtype cd k \<noteq> dtype cd v
         then Inl (Err [Txt ''Key and value caches have different types, got '', Txt (debug_dtype cd (dtype cd k)),
                        Txt '' and '', Txt (debug_dtype cd (dtype cd v)), Txt ''.''])
         else
           bindE (try_into_u32 (length key_caches)) (\<lambda>layers.
           if layers = 0 then Inr (key_caches, value_caches)
           else
           bindE (mapE (\<lambda>(kc, vc).
               bindE (to_device cd kc (Cuda ord)) (\<lambda>_.
               bindE (to_device cd vc (Cuda ord)) (\<lambda>_.
               bindE (cuda_bytes_ptr cd kc) (\<lambda>kp.
               bindE (cuda_bytes_ptr cd vc) (\<lambda>vp.
               Inr (kp + start_offset cd kc, vp + start_offset cd vc))))))
             (zip key_caches value_caches)) (\<lambda>ptrs.
           bindE (block_mapping_vec block_mapping) (\<lambda>vec.
           bindE (try_into_u32 (length vec div 2)) (\<lambda>num_pairs.
           bindE (index1 cd k 0) (\<lambda>k0.
           bindE (try_into_u32 (prod_list (dims cd k0))) (\<lambda>numel_per_block.
           bindE (fork_default_stream cd ord) (\<lambda>_.
           bindE (try_api (get_or_load_func cd COPY_BLOCKS_PTX COPY_BLOCKS_KERNEL (dtype cd k) None))
             (\<lambda>kernel.
           launch_copy cd kernel (map fst ptrs) (map snd ptrs) vec num_pairs (min numel_per_block 1024)
             key_caches value_caches)))))))))
     | _ \<Rightarrow> Inl (Panic (ExplicitPanic ''Expected the key caches to be on a CUDA device.'')))"

text \<open>One layer of a swap: the keys, then the values; \<open>get(i).unwrap()\<close> panics when a layer is missing.\<close>

definition swap_layer ::
    "'t candle \<Rightarrow> ('t \<times> 't) list \<Rightarrow> (nat, nat) hash_map \<Rightarrow> ('t \<times> 't) list \<Rightarrow> nat \<Rightarrow> ('t \<times> 't) list res" where
  "swap_layer cd srcs src_to_dst dsts i =
     (if i < length srcs \<and> i < length dsts
      then bindE (try_api (swap_blocks cd (fst (srcs ! i)) (fst (dsts ! i)) src_to_dst)) (\<lambda>k.
           bindE (try_api (swap_blocks cd (snd (srcs ! i)) (snd (dsts ! i)) src_to_dst)) (\<lambda>v.
           Inr (dsts[i := (k, v)])))
      else Inl (Panic UnwrapNone))"

definition CacheEngine_swap_in :: "'t candle \<Rightarrow> (nat, nat) hash_map \<Rightarrow> 't CacheEngine \<Rightarrow> 't CacheEngine res" where
  "CacheEngine_swap_in cd src_to_dst ce =
     bindE (foldE (swap_layer cd (cpu_cache ce) src_to_dst) (gpu_cache ce) [0..<num_layers ce]) (\<lambda>gpu.
     Inr (ce\<lparr>gpu_cache := gpu\<rparr>))"

definition CacheEngine_swap_out :: "'t candle \<Rightarrow> (nat, nat) hash_map \<Rightarrow> 't CacheEngine \<Rightarrow> 't CacheEngine res" where
  "CacheEngine_swap_out cd src_to_dst ce =
     bindE (foldE (swap_layer cd (gpu_cache ce) src_to_dst) (cpu_cache ce) [0..<num_layers ce]) (\<lambda>cpu.
     Inr (ce\<lparr>cpu_cache := cpu\<rparr>))"

definition CacheEngine_copy :: "'t candle \<Rightarrow> (nat, nat list) hash_map \<Rightarrow> 't CacheEngine \<Rightarrow> 't CacheEngine res" where
  "CacheEngine_copy cd src_to_dst ce =
     bindE (get_kv_cache False ce) (\<lambda>caches.
     bindE (try_api (copy_blocks cd (map fst caches) (map snd caches) src_to_dst)) (\<lambda>(ks, vs).
     Inr (ce\<lparr>gpu_cache := zip ks vs\<rparr>)))"

subsection \<open>Properties\<close>

text \<open>
  The shape of the cache.  With an element size that divides 16 and a head size that \<open>16 / element_size\<close>
  divides, \<open>calculate_key_block_shape\<close> and \<open>calculate_value_block_shape\<close> return, and a key block has
  exactly as many elements as a value block: heads times head size times block size.
\<close>

lemma key_value_blocks_same_size:
  assumes "e = size_in_bytes cd dt" "0 < e" "e \<le> 16" "0 < get_num_attention_heads c"
    "16 div e dvd get_hidden_size c div get_num_attention_heads c"
  shows "\<exists>ks vs. calculate_key_block_shape cd c dt bs = Inr ks \<and> calculate_value_block_shape c bs = Inr vs
     \<and> length ks = 4 \<and> length vs = 3 \<and> prod_list ks = prod_list vs
     \<and> prod_list vs = get_num_kv_heads c * (get_hidden_size c div get_num_attention_heads c) * bs"
proof -
  let ?x = "16 div e" and ?h = "get_hidden_size c div get_num_attention_heads c"
  have x: "0 < ?x" using assms(2,3) by (simp add: div_greater_zero_iff)
  have "?h div ?x * ?x = ?h" using assms(5) by simp
  then have "?h div ?x * (bs * ?x) = ?h * bs" by (metis mult.assoc mult.commute)
  then show ?thesis
    using assms(1,2,4) x by (simp add: calculate_key_block_shape_def calculate_value_block_shape_def get_head_size_def)
qed

text \<open>A tensor library for concrete instances: a tensor is its device, data type and dimensions; copies change nothing.\<close>

definition shape_candle :: "(Device \<times> DType \<times> nat list) candle" where
  "shape_candle = \<lparr>new_cuda = (\<lambda>i. Inr (Cuda i)), zeros = (\<lambda>ds dt dev. Inr (dev, dt, ds)),
     from_vec = (\<lambda>xs ds dev. Inr (dev, I64, ds)),
     cat = (\<lambda>ts d. case ts of [] \<Rightarrow> Inl (Err [Txt ''cat requires at least one tensor'']) | t # _ \<Rightarrow>
              Inr (fst t, fst (snd t), (snd (snd t))[d := sum_list (map (\<lambda>t. hd (drop d (snd (snd t)))) ts)])),
     dims = (\<lambda>t. snd (snd t)),
     dim = (\<lambda>t i. if i < length (snd (snd t)) then Inr (snd (snd t) ! i) else Inl (Err [Txt ''dim out of range''])),
     index1 = (\<lambda>t i. Inr (fst t, fst (snd t), tl (snd (snd t)))),
     index2 = (\<lambda>t i j. Inr (fst t, fst (snd t), tl (tl (snd (snd t))))),
     device = fst, dtype = (\<lambda>t. fst (snd t)),
     size_in_bytes = (\<lambda>dt. case dt of U8 \<Rightarrow> 1 | U32 \<Rightarrow> 4 | I64 \<Rightarrow> 8 | BF16 \<Rightarrow> 2 | F16 \<Rightarrow> 2 | F32 \<Rightarrow> 4 | F64 \<Rightarrow> 8),
     debug_device = (\<lambda>_. ''device''), debug_dtype = (\<lambda>_. ''dtype''), start_offset = (\<lambda>_. 0),
     cuda_bytes_ptr = (\<lambda>_. Inr 0), cpu_bytes_len = (\<lambda>_. Inr 0),
     dtod_copy = (\<lambda>_ dst _ _. Inr dst), htod_copy = (\<lambda>_ _ dst _ _. Inr dst), to_device = (\<lambda>t _. Inr t),
     fork_default_stream = (\<lambda>_. Inr ()), load_func = (\<lambda>kernel _. Inr kernel), launch_copy = (\<lambda>_ _ _ _ _ _ ks vs. Inr (ks, vs))\<rparr>"

text \<open>The pairs of a mapping, and the pairs a flat list encodes.\<close>

definition mapping_pairs :: "(nat, nat list) hash_map \<Rightarrow> (nat \<times> nat) list" where
  "mapping_pairs m = concat (map (\<lambda>(src, dsts). map (Pair src) dsts) m)"

fun decode_pairs :: "int list \<Rightarrow> (nat \<times> nat) list" where
  "decode_pairs (a # b # v) = (nat a, nat b) # decode_pairs v"
| "decode_pairs _ = []"

lemma decode_pairs_append: "even (length v) \<Longrightarrow> decode_pairs (v @ w) = decode_pairs v @ decode_pairs w"
  by (induction v rule: decode_pairs.induct) auto

lemma inner_pairs:
  "src < 2 ^ 63 \<Longrightarrow> (\<forall>d \<in> set dsts. d < 2 ^ 63) \<Longrightarrow>
   foldE (\<lambda>v dst. bindE (try_into_i64 src) (\<lambda>a. bindE (try_into_i64 dst) (\<lambda>b. Inr (v @ [a, b])))) v dsts =
   Inr (v @ concat (map (\<lambda>d. [int src, int d]) dsts))"
  by (induction dsts arbitrary: v) (auto simp: try_into_i64_def)

lemma block_mapping_vec_ok:
  "\<forall>(src, dsts) \<in> set m. src < 2 ^ 63 \<and> (\<forall>d \<in> set dsts. d < 2 ^ 63) \<Longrightarrow>
   foldE (\<lambda>v (src, dsts).
       foldE (\<lambda>v dst. bindE (try_into_i64 src) (\<lambda>a. bindE (try_into_i64 dst) (\<lambda>b. Inr (v @ [a, b])))) v dsts) v m =
   Inr (v @ concat (map (\<lambda>(s, d). [int s, int d]) (mapping_pairs m)))"
proof (induction m arbitrary: v)
  case (Cons p m)
  obtain src dsts where p: "p = (src, dsts)" by (cases p)
  have "concat (map (\<lambda>(s, d). [int s, int d]) (map (Pair src) dsts)) = concat (map (\<lambda>d. [int src, int d]) dsts)"
    by (simp add: comp_def)
  then show ?case using Cons p inner_pairs [of src dsts v] by (simp add: mapping_pairs_def)
qed (simp add: mapping_pairs_def)

lemma decode_encode: "decode_pairs (concat (map (\<lambda>(s, d). [int s, int d]) ps)) = ps"
  by (induction ps) auto

lemma length_encode: "length (concat (map (\<lambda>(s, d). [int s, int d]) ps)) = 2 * length ps"
  by (induction ps) auto

text \<open>
  The copy list is complete.  For a mapping whose block numbers fit an \<open>i64\<close>, the flat vector handed to the
  copy kernel decodes to exactly the pairs (source, destination) of the mapping, in order, and its length divided by
  two, the second dimension of the launch grid, is their number.
\<close>

lemma block_mapping_vec_roundtrip:
  assumes "\<forall>(src, dsts) \<in> set m. src < 2 ^ 63 \<and> (\<forall>d \<in> set dsts. d < 2 ^ 63)"
  shows "\<exists>v. block_mapping_vec m = Inr v \<and> decode_pairs v = mapping_pairs m \<and> even (length v) \<and> (\<forall>x \<in> set v. 0 \<le> x)
     \<and> length v div 2 = length (mapping_pairs m) \<and> length v div 2 = sum_list (map (length \<circ> snd) m)"
proof -
  have "length (mapping_pairs m) = sum_list (map (length \<circ> snd) m)"
    by (induction m) (auto simp: mapping_pairs_def)
  moreover have "\<forall>x \<in> set (concat (map (\<lambda>(s, d). [int s, int d]) (mapping_pairs m))). 0 \<le> x" by auto
  ultimately show ?thesis
    using block_mapping_vec_ok [OF assms, of "[]"] by (simp add: block_mapping_vec_def decode_encode length_encode)
qed

text \<open>
  \<open>swap_blocks\<close> copies ranges of the wrong size.  For a cache tensor of \<open>num_blocks\<close> blocks it takes the size of
  a block to be the element size times the number of blocks; the bytes of one block are the element size times the
  product of the remaining dimensions.  The two agree only when the number of blocks happens to be that product.
\<close>

lemma swap_block_size_wrong:
  assumes "dims cd t = num_blocks # block_shape" "0 < size_in_bytes cd (dtype cd t)"
  shows "swap_block_size cd t = Inr (size_in_bytes cd (dtype cd t) * num_blocks)
     \<and> (swap_block_size cd t = Inr (size_in_bytes cd (dtype cd t) * prod_list block_shape) \<longleftrightarrow> num_blocks = prod_list block_shape)"
  using assms by (simp add: swap_block_size_def dims_at_def)

end
