(* ===== verification/Llama_Model.thy ===== *)
theory Llama_Model
  imports Paged_Attention Cache_Engine
begin

section \<open>The llama network\<close>

text \<open>
  \<open>src/openai/models/llama.rs\<close>: loading the layers and the forward pass.  \<open>VarBuilder\<close>, \<open>Linear\<close> and \<open>RmsNorm\<close> belong to
  \<open>candle_nn\<close>; they are the type parameters \<open>'v\<close>, \<open>'l\<close> and \<open>'n\<close> and the fields of \<open>nn_ops\<close>.  An \<open>Embedding\<close> is its
  tensor of weights with the hidden size.  Tracing spans are left out.
\<close>

record ('t, 'v, 'l, 'n) nn_ops =
  pp :: "'v \<Rightarrow> string \<Rightarrow> 'v"
  vb_device :: "'v \<Rightarrow> Device"
  vb_get :: "'v \<Rightarrow> nat list \<Rightarrow> string \<Rightarrow> 't res"
  linear_no_bias :: "nat \<Rightarrow> nat \<Rightarrow> 'v \<Rightarrow> 'l res"
  linear_forward :: "'l \<Rightarrow> 't \<Rightarrow> 't res"
  rms_norm :: "nat \<Rightarrow> f64 \<Rightarrow> 'v \<Rightarrow> 'n res"
  rms_forward :: "'n \<Rightarrow> 't \<Rightarrow> 't res"
  embedding_forward :: "'t \<Rightarrow> nat \<Rightarrow> 't \<Rightarrow> 't res"
  silu :: "'t \<Rightarrow> 't res"
  new_f32 :: "f32 list \<Rightarrow> Device \<Rightarrow> 't res"
  arange_u32 :: "nat \<Rightarrow> Device \<Rightarrow> 't res"
  cat_last :: "'t list \<Rightarrow> 't res"
  cos_of :: "'t \<Rightarrow> 't res"
  sin_of :: "'t \<Rightarrow> 't res"
  transpose :: "'t \<Rightarrow> nat \<Rightarrow> nat \<Rightarrow> 't res"
  index_middle :: "'t \<Rightarrow> nat \<Rightarrow> 't res"
  powf :: "f32 \<Rightarrow> f32 \<Rightarrow> f32"
  sqrtf :: "f32 \<Rightarrow> f32"

definition MAX_SEQ_LEN :: nat where
  "MAX_SEQ_LEN = 4096"

definition Llama_embedding :: "('t, 'v, 'l, 'n) nn_ops \<Rightarrow> Config \<Rightarrow> 'v \<Rightarrow> ('t \<times> nat) res" where
  "Llama_embedding nn cfg vb =
     bindE (vb_get nn vb [vocab_size cfg, hidden_size cfg] ''weight'') (\<lambda>embeddings. Inr (embeddings, hidden_size cfg))"

definition RmsNorm_load :: "('t, 'v, 'l, 'n) nn_ops \<Rightarrow> nat \<Rightarrow> f64 \<Rightarrow> 'v \<Rightarrow> 'n res" where
  [simp]: "RmsNorm_load nn dim_size eps vb = rms_norm nn dim_size eps vb"

definition RmsNorm_forward :: "('t, 'v, 'l, 'n) nn_ops \<Rightarrow> 'n \<Rightarrow> 't \<Rightarrow> 't res" where
  [simp]: "RmsNorm_forward nn inner x = rms_forward nn inner x"

subsection \<open>Attention\<close>

record ('t, 'l) CausalSelfAttention =
  q_proj :: 'l
  k_proj :: 'l
  v_proj :: 'l
  o_proj :: 'l
  sa_num_attention_heads :: nat
  sa_num_key_value_heads :: nat
  sa_head_dim :: nat
  sa_attn :: "'t PagedAttention"
  cos_sin_cache :: 't

text \<open>\<open>(0..n_elem).step_by(2).map(|i| 1f32 / rope_theta.powf(i as f32 / n_elem as f32))\<close>.\<close>

definition inv_freqs :: "('t, 'v, 'l, 'n) nn_ops \<Rightarrow> f32 \<Rightarrow> nat \<Rightarrow> f32 list" where
  "inv_freqs nn theta n_elem =
     map (\<lambda>i. f32_div (Fin 1) (powf nn theta (f32_div (f32_of_nat i) (f32_of_nat n_elem)))) (filter even [0..<n_elem])"

definition compute_cos_sin_cache ::
    "'t candle \<Rightarrow> 't tensor_ops \<Rightarrow> ('t, 'v, 'l, 'n) nn_ops \<Rightarrow> bool \<Rightarrow> Config \<Rightarrow> Device \<Rightarrow> DType \<Rightarrow> 't res" where
  "compute_cos_sin_cache cd ops nn chk cfg dev dt =
     bindE (usize_div (hidden_size cfg) (num_attention_heads cfg)) (\<lambda>n_elem.
     bindE (new_f32 nn (inv_freqs nn (rope_theta cfg) n_elem) dev) (\<lambda>theta.
     bindE (arange_u32 nn MAX_SEQ_LEN dev) (\<lambda>ar.
     bindE (to_dtype ops ar F32) (\<lambda>ar'.
     bindE (reshape ops ar' [MAX_SEQ_LEN, 1]) (\<lambda>col.
     bindE (reshape ops theta [1, prod_list (dims cd theta)]) (\<lambda>row.
     bindE (matmul ops col row) (\<lambda>idx_theta.
     bindE (cat_last nn [idx_theta, idx_theta]) (\<lambda>idx_theta2.
     bindE (bindE (cos_of nn idx_theta2) (\<lambda>t. to_dtype ops t dt)) (\<lambda>cos.
     bindE (bindE (sin_of nn idx_theta2) (\<lambda>t. to_dtype ops t dt)) (\<lambda>sin.
     bindE (usize_sub chk (length (dims cd cos)) 1) (\<lambda>lst.
     cat cd [cos, sin] lst)))))))))))"

definition apply_rotary_emb ::
    "'t candle \<Rightarrow> 't tensor_ops \<Rightarrow> bool \<Rightarrow> ('t, 'l) CausalSelfAttention \<Rightarrow> 't \<Rightarrow> 't \<Rightarrow> 't \<Rightarrow> ('t \<times> 't) res" where
  "apply_rotary_emb cd ops chk sa q k positions =
     rotary_embedding cd ops chk positions q k (sa_head_dim sa) (cos_sin_cache sa) False"

text \<open>One of the three projections: \<open>reshape((b_sz, seq_len, heads, head_dim))\<close> and \<open>transpose(1, 2)\<close>.\<close>

definition split_heads ::
    "'t tensor_ops \<Rightarrow> ('t, 'v, 'l, 'n) nn_ops \<Rightarrow> nat \<Rightarrow> nat \<Rightarrow> nat \<Rightarrow> nat \<Rightarrow> 't \<Rightarrow> 't res" where
  "split_heads ops nn b_sz seq_len heads head_dim t =
     bindE (reshape ops t [b_sz, seq_len, heads, head_dim]) (\<lambda>t'. transpose nn t' 1 2)"

definition CausalSelfAttention_forward ::
    "'t candle \<Rightarrow> 't tensor_ops \<Rightarrow> ('t, 'v, 'l, 'n) nn_ops \<Rightarrow> bool \<Rightarrow> bool \<Rightarrow> ('t, 'l) CausalSelfAttention \<Rightarrow> 't \<Rightarrow> 't
     \<Rightarrow> 't InputMetadata \<Rightarrow> ('t \<times> 't) option \<Rightarrow> ('t \<times> 't InputMetadata) res" where
  "CausalSelfAttention_forward cd ops nn cuda chk sa x positions md cache =
     bindE (dims3 ops x) (\<lambda>(b_sz, seq_len, _).
     bindE (linear_forward nn (q_proj sa) x) (\<lambda>q0.
     bindE (linear_forward nn (k_proj sa) x) (\<lambda>k0.
     bindE (linear_forward nn (v_proj sa) x) (\<lambda>v0.
     bindE (split_heads ops nn b_sz seq_len (sa_num_attention_heads sa) (sa_head_dim sa) q0) (\<lambda>q1.
     bindE (split_heads ops nn b_sz seq_len (sa_num_key_value_heads sa) (sa_head_dim sa) k0) (\<lambda>k1.
     bindE (split_heads ops nn b_sz seq_len (sa_num_key_value_heads sa) (sa_head_dim sa) v0) (\<lambda>v1.
     bindE (apply_rotary_emb cd ops chk sa q1 k1 positions) (\<lambda>(q2, k2).
     bindE (PagedAttention_forward cd ops cuda chk (sa_attn sa) q2 k2 v1 (map_option fst cache) (map_option snd cache) md
              (dtype cd q2) (device cd q2)) (\<lambda>(attn_output, md').
     bindE (linear_forward nn (o_proj sa) attn_output) (\<lambda>out. Inr (out, md')))))))))))"

definition CausalSelfAttention_load ::
    "'t candle \<Rightarrow> 't tensor_ops \<Rightarrow> ('t, 'v, 'l, 'n) nn_ops \<Rightarrow> bool \<Rightarrow> 'v \<Rightarrow> Config \<Rightarrow> DType \<Rightarrow> Device
     \<Rightarrow> ('t, 'l) CausalSelfAttention res" where
  "CausalSelfAttention_load cd ops nn chk vb cfg dt dev =
     bindE (usize_div (hidden_size cfg) (num_attention_heads cfg)) (\<lambda>head_dim.
     let size_in = hidden_size cfg; size_q = head_dim * num_attention_heads cfg; size_kv = head_dim * num_key_value_heads cfg in
     bindE (linear_no_bias nn size_in size_q (pp nn vb ''q_proj'')) (\<lambda>q.
     bindE (linear_no_bias nn size_in size_kv (pp nn vb ''k_proj'')) (\<lambda>k.
     bindE (linear_no_bias nn size_in size_kv (pp nn vb ''v_proj'')) (\<lambda>v.
     bindE (linear_no_bias nn size_q size_in (pp nn vb ''o_proj'')) (\<lambda>o'.
     bindE (try_api (PagedAttention_new ops (num_attention_heads cfg) head_dim (f32_div (Fin 1) (sqrtf nn (f32_of_nat head_dim)))
              (Some (num_key_value_heads cfg)) None (vb_device nn vb) None)) (\<lambda>pa.
     bindE (compute_cos_sin_cache cd ops nn chk cfg dev dt) (\<lambda>cs.
     Inr \<lparr>q_proj = q, k_proj = k, v_proj = v, o_proj = o', sa_num_attention_heads = num_attention_heads cfg,
          sa_num_key_value_heads = num_key_value_heads cfg, sa_head_dim = head_dim, sa_attn = pa, cos_sin_cache = cs\<rparr>)))))))"

subsection \<open>The feed-forward layer\<close>

record 'l Mlp =
  c_fc1 :: 'l
  c_fc2 :: 'l
  c_proj :: 'l

definition Mlp_forward :: "'t tensor_ops \<Rightarrow> ('t, 'v, 'l, 'n) nn_ops \<Rightarrow> 'l Mlp \<Rightarrow> 't \<Rightarrow> 't res" where
  "Mlp_forward ops nn m x =
     bindE (linear_forward nn (c_fc1 m) x) (\<lambda>a.
     bindE (silu nn a) (\<lambda>gate.
     bindE (linear_forward nn (c_fc2 m) x) (\<lambda>up.
     bindE (mul ops gate up) (\<lambda>h.
     linear_forward nn (c_proj m) h))))"

definition Mlp_load :: "('t, 'v, 'l, 'n) nn_ops \<Rightarrow> 'v \<Rightarrow> Config \<Rightarrow> 'l Mlp res" where
  "Mlp_load nn vb cfg =
     (let h_size = hidden_size cfg; i_size = intermediate_size cfg in
      bindE (linear_no_bias nn h_size i_size (pp nn vb ''gate_proj'')) (\<lambda>a.
      bindE (linear_no_bias nn h_size i_size (pp nn vb ''up_proj'')) (\<lambda>b.
      bindE (linear_no_bias nn i_size h_size (pp nn vb ''down_proj'')) (\<lambda>c.
      Inr \<lparr>c_fc1 = a, c_fc2 = b, c_proj = c\<rparr>))))"

subsection \<open>Blocks\<close>

record ('t, 'l, 'n) Block =
  rms_1 :: 'n
  bl_attn :: "('t, 'l) CausalSelfAttention"
  rms_2 :: 'n
  mlp :: "'l Mlp"

definition Block_forward ::
    "'t candle \<Rightarrow> 't tensor_ops \<Rightarrow> ('t, 'v, 'l, 'n) nn_ops \<Rightarrow> bool \<Rightarrow> bool \<Rightarrow> ('t, 'l, 'n) Block \<Rightarrow> 't \<Rightarrow> 't
     \<Rightarrow> ('t \<times> 't) option \<Rightarrow> 't InputMetadata \<Rightarrow> ('t \<times> 't InputMetadata) res" where
  "Block_forward cd ops nn cuda chk bl residual positions cache md =
     bindE (RmsNorm_forward nn (rms_1 bl) residual) (\<lambda>x1.
     bindE (try_api (CausalSelfAttention_forward cd ops nn cuda chk (bl_attn bl) x1 positions md cache)) (\<lambda>(a, md').
     bindE (add ops a residual) (\<lambda>x2.
     bindE (RmsNorm_forward nn (rms_2 bl) x2) (\<lambda>x3.
     bindE (Mlp_forward ops nn (mlp bl) x3) (\<lambda>x4.
     bindE (add ops x4 x2) (\<lambda>x5. Inr (x5, md')))))))"

definition Block_load ::
    "'t candle \<Rightarrow> 't tensor_ops \<Rightarrow> ('t, 'v, 'l, 'n) nn_ops \<Rightarrow> bool \<Rightarrow> 'v \<Rightarrow> Config \<Rightarrow> DType \<Rightarrow> Device
     \<Rightarrow> ('t, 'l, 'n) Block res" where
  "Block_load cd ops nn chk vb cfg dt dev =
     bindE (try_api (CausalSelfAttention_load cd ops nn chk (pp nn vb ''self_attn'') cfg dt dev)) (\<lambda>sa.
     bindE (Mlp_load nn (pp nn vb ''mlp'') cfg) (\<lambda>m.
     bindE (RmsNorm_load nn (hidden_size cfg) (rms_norm_eps cfg) (pp nn vb ''input_layernorm'')) (\<lambda>r1.
     bindE (RmsNorm_load nn (hidden_size cfg) (rms_norm_eps cfg) (pp nn vb ''post_attention_layernorm'')) (\<lambda>r2.
     Inr \<lparr>rms_1 = r1, bl_attn = sa, rms_2 = r2, mlp = m\<rparr>))))"

subsection \<open>The network\<close>

record ('t, 'l, 'n) Llama =
  wte :: "'t \<times> nat"
  llama_blocks :: "('t, 'l, 'n) Block list"
  ln_f :: 'n
  lm_head :: 'l
  llama_cfg :: Config

definition get_config :: "('t, 'l, 'n) Llama \<Rightarrow> Config" where
  [simp]: "get_config m = llama_cfg m"

text \<open>The loop over the blocks, each with the cache of its layer if there are caches.\<close>

definition blocks_forward ::
    "'t candle \<Rightarrow> 't tensor_ops \<Rightarrow> ('t, 'v, 'l, 'n) nn_ops \<Rightarrow> bool \<Rightarrow> bool \<Rightarrow> 't \<Rightarrow> 't \<times> 't InputMetadata
     \<Rightarrow> (('t \<times> 't) option \<times> ('t, 'l, 'n) Block) list \<Rightarrow> ('t \<times> 't InputMetadata) res" where
  "blocks_forward cd ops nn cuda chk positions =
     foldE (\<lambda>(x, md) (cache, bl). Block_forward cd ops nn cuda chk bl x positions cache md)"

definition Llama_forward ::
    "'t candle \<Rightarrow> 't tensor_ops \<Rightarrow> ('t, 'v, 'l, 'n) nn_ops \<Rightarrow> bool \<Rightarrow> bool \<Rightarrow> ('t, 'l, 'n) Llama \<Rightarrow> 't \<Rightarrow> 't
     \<Rightarrow> ('t \<times> 't) list option \<Rightarrow> 't InputMetadata \<Rightarrow> 't res" where
  "Llama_forward cd ops nn cuda chk m x positions kv_caches md =
     bindE (dims2 ops x) (\<lambda>(_, seq_len).
     bindE (embedding_forward nn (fst (wte m)) (snd (wte m)) x) (\<lambda>x0.
     bindE (blocks_forward cd ops nn cuda chk positions (x0, md)
              (case kv_caches of
                 Some caches \<Rightarrow> zip (map Some caches) (llama_blocks m)
               | None \<Rightarrow> map (Pair None) (llama_blocks m))) (\<lambda>(x1, _).
     bindE (RmsNorm_forward nn (ln_f m) x1) (\<lambda>x2.
     bindE (usize_sub chk seq_len 1) (\<lambda>lst.
     bindE (index_middle nn x2 lst) (\<lambda>x3.
     bindE (linear_forward nn (lm_head m) x3) (\<lambda>logits.
     to_dtype ops logits F32)))))))"

definition Llama_load ::
    "'t candle \<Rightarrow> 't tensor_ops \<Rightarrow> ('t, 'v, 'l, 'n) nn_ops \<Rightarrow> bool \<Rightarrow> 'v \<Rightarrow> Config \<Rightarrow> DType \<Rightarrow> Device
     \<Rightarrow> ('t, 'l, 'n) Llama res" where
  "Llama_load cd ops nn chk vb cfg dt dev =
     bindE (Llama_embedding nn cfg (pp nn vb ''model.embed_tokens'')) (\<lambda>emb.
     bindE (linear_no_bias nn (hidden_size cfg) (vocab_size cfg) (pp nn vb ''lm_head'')) (\<lambda>head.
     bindE (RmsNorm_load nn (hidden_size cfg) (rms_norm_eps cfg) (pp nn vb ''model.norm'')) (\<lambda>ln.
     bindE (mapE (\<lambda>i. unwrap_err (Block_load cd ops nn chk (pp nn vb (''model.layers.'' @ show_nat i)) cfg dt dev))
              [0..<num_hidden_layers cfg]) (\<lambda>bls.
     Inr \<lparr>wte = emb, llama_blocks = bls, ln_f = ln, lm_head = head, llama_cfg = cfg\<rparr>))))"

end
