(* ===== verification/Logical_Block.thy ===== *)
theory Logical_Block
  imports Prelude
begin

section \<open>Logical token blocks\<close>

text \<open>
  \<open>LogicalTokenBlock\<close> of \<open>src/scheduler/block_engine.rs\<close>: a fixed-size buffer of token ids with a
  fill count.  The buffer is an abstract list of at most \<open>block_size\<close> tokens; \<open>contents\<close> is that
  abstraction, \<open>ltb_wf\<close> the representation invariant.
\<close>

record LogicalTokenBlock =
  ltb_tokens :: "nat list"
  ltb_block_size :: nat
  ltb_num_tokens :: nat

definition LogicalTokenBlock_new :: "nat \<Rightarrow> LogicalTokenBlock" where
  "LogicalTokenBlock_new block_size =
     \<lparr>ltb_tokens = replicate block_size 0, ltb_block_size = block_size, ltb_num_tokens = 0\<rparr>"

definition is_full :: "LogicalTokenBlock \<Rightarrow> bool" where
  "is_full b = (ltb_num_tokens b = ltb_block_size b)"

definition LogicalTokenBlock_append_token_id :: "LogicalTokenBlock \<Rightarrow> nat \<Rightarrow> LogicalTokenBlock res" where
  "LogicalTokenBlock_append_token_id b token =
     bindE (assertE (\<not> is_full b)) (\<lambda>_.
     if ltb_num_tokens b < length (ltb_tokens b)
     then Inr (b\<lparr>ltb_tokens := (ltb_tokens b)[ltb_num_tokens b := token],
                 ltb_num_tokens := ltb_num_tokens b + 1\<rparr>)
     else Inl (Panic IndexOutOfBounds))"

definition append_tokens :: "LogicalTokenBlock \<Rightarrow> nat list \<Rightarrow> LogicalTokenBlock res" where
  "append_tokens b tokens = foldE LogicalTokenBlock_append_token_id b tokens"

subsection \<open>The buffer as a bounded list\<close>

definition ltb_wf :: "nat \<Rightarrow> LogicalTokenBlock \<Rightarrow> bool" where
  "ltb_wf n b \<longleftrightarrow> ltb_block_size b = n \<and> length (ltb_tokens b) = n \<and> ltb_num_tokens b \<le> n"

definition contents :: "LogicalTokenBlock \<Rightarrow> nat list" where
  "contents b = take (ltb_num_tokens b) (ltb_tokens b)"

lemma ltb_wf_new [simp]: "ltb_wf n (LogicalTokenBlock_new n)"
  and contents_new [simp]: "contents (LogicalTokenBlock_new n) = []"
  and is_full_new [simp]: "is_full (LogicalTokenBlock_new n) \<longleftrightarrow> n = 0"
  by (auto simp: ltb_wf_def contents_def LogicalTokenBlock_new_def is_full_def)

lemma length_contents: "ltb_wf n b \<Longrightarrow> length (contents b) = ltb_num_tokens b"
  by (simp add: ltb_wf_def contents_def)

lemma is_full_iff: "ltb_wf n b \<Longrightarrow> is_full b \<longleftrightarrow> length (contents b) = n"
  by (auto simp: is_full_def ltb_wf_def contents_def)

lemma append_token_id_ok:
  assumes "ltb_wf n b" "\<not> is_full b"
  shows "\<exists>b'. LogicalTokenBlock_append_token_id b t = Inr b' \<and> ltb_wf n b' \<and> contents b' = contents b @ [t]"
  using assms
  by (auto simp: LogicalTokenBlock_append_token_id_def ltb_wf_def is_full_def contents_def
      assertE_def take_Suc_conv_app_nth)

lemma append_token_id_full: "is_full b \<Longrightarrow> LogicalTokenBlock_append_token_id b t = Inl (Panic AssertFailed)"
  by (simp add: LogicalTokenBlock_append_token_id_def assertE_def)

text \<open>
  The contract a bounded buffer offers its clients, whatever its representation: pushing keeps the
  well-formedness and extends the abstract list, and it fails exactly on a full buffer.
\<close>

locale bounded_buffer =
  fixes push :: "'b \<Rightarrow> nat \<Rightarrow> 'b res"
    and wf :: "'b \<Rightarrow> bool"
    and items :: "'b \<Rightarrow> nat list"
    and capacity :: nat
  assumes push_room: "wf b \<Longrightarrow> length (items b) < capacity \<Longrightarrow>
      \<exists>b'. push b t = Inr b' \<and> wf b' \<and> items b' = items b @ [t]"
    and push_full: "wf b \<Longrightarrow> length (items b) = capacity \<Longrightarrow> push b t = Inl (Panic AssertFailed)"
    and items_bound: "wf b \<Longrightarrow> length (items b) \<le> capacity"
begin

lemma push_all_room:
  "wf b \<Longrightarrow> length (items b) + length ts \<le> capacity \<Longrightarrow>
   \<exists>b'. foldE push b ts = Inr b' \<and> wf b' \<and> items b' = items b @ ts"
proof (induction ts arbitrary: b)
  case Nil
  then show ?case by simp
next
  case (Cons t ts)
  then obtain b1 where b1: "push b t = Inr b1" "wf b1" "items b1 = items b @ [t]"
    using push_room [of b t] by auto
  with Cons.IH [of b1] Cons.prems show ?case by auto
qed

lemma push_all_overflow:
  "wf b \<Longrightarrow> capacity < length (items b) + length ts \<Longrightarrow> foldE push b ts = Inl (Panic AssertFailed)"
proof (induction ts arbitrary: b)
  case Nil
  then show ?case using items_bound [of b] by simp
next
  case (Cons t ts)
  show ?case
  proof (cases "length (items b) < capacity")
    case True
    then obtain b1 where b1: "push b t = Inr b1" "wf b1" "items b1 = items b @ [t]"
      using push_room [of b t] Cons.prems by auto
    with Cons.IH [of b1] Cons.prems show ?thesis by simp
  next
    case False
    then have "length (items b) = capacity"
      using items_bound [of b] Cons.prems by simp
    with push_full Cons.prems show ?thesis by simp
  qed
qed

end

interpretation token_buffer: bounded_buffer LogicalTokenBlock_append_token_id "ltb_wf n" contents n for n
proof (unfold_locales, goal_cases)
  case (1 b t)
  then show ?case using append_token_id_ok [of n b t] is_full_iff [of n b] by simp
next
  case (2 b t)
  then show ?case using append_token_id_full is_full_iff by blast
next
  case (3 b)
  then show ?case by (auto simp: contents_def ltb_wf_def)
qed

text \<open>
  On a well-formed block of size \<open>n\<close>, \<open>append_tokens\<close> returns exactly when the tokens fit; the
  block then stays well-formed and holds the old tokens followed by the new ones, and otherwise the
  assertion of \<open>append_token_id\<close> fails.
\<close>

lemma append_tokens_correct:
  assumes "ltb_wf n b"
  shows "(length (contents b) + length ts \<le> n \<longrightarrow>
           (\<exists>b'. append_tokens b ts = Inr b' \<and> ltb_wf n b' \<and> contents b' = contents b @ ts))
       \<and> (n < length (contents b) + length ts \<longrightarrow> append_tokens b ts = Inl (Panic AssertFailed))"
  using token_buffer.push_all_room [OF assms, of ts] token_buffer.push_all_overflow [OF assms, of ts]
  by (simp add: append_tokens_def)

end
