(* ===== verification/Sequences.thy ===== *)
theory Sequences
  imports Logical_Block
begin

section \<open>Sequences and sequence groups\<close>

text \<open>
  \<open>src/scheduler/sequence.rs\<close>.  \<open>SequenceInner\<close> is the source's \<open>_Sequence\<close>, the value inside the
  mutex of a \<open>Sequence\<close>.  An \<open>Arc<Sequence>\<close> is an address of the sequence store, so that the group
  and every queue that hold the same \<open>Arc\<close> see the same sequence.  Of a \<open>Logprobs\<close> (a type of the
  sampling crate) the program reads the token and its log probability.
\<close>

datatype SequenceStatus =
    FinishedIgnored
  | Waiting
  | Running
  | Swapped
  | FinishedAborted
  | Finished string

record Logprobs =
  lp_token :: nat
  lp_logprob :: f32

record SequenceData =
  prompt_token_ids :: "nat list"
  output_token_ids :: "Logprobs list"
  cumulative_logprob :: f32
  status :: SequenceStatus

definition SequenceData_new :: "nat list \<Rightarrow> SequenceData" where
  "SequenceData_new ids =
     \<lparr>prompt_token_ids = ids, output_token_ids = [], cumulative_logprob = Fin 0, status = Waiting\<rparr>"

definition SequenceData_append_token_id :: "SequenceData \<Rightarrow> Logprobs \<Rightarrow> SequenceData" where
  "SequenceData_append_token_id d lp =
     d\<lparr>cumulative_logprob := f32_add (cumulative_logprob d) (lp_logprob lp),
       output_token_ids := output_token_ids d @ [lp]\<rparr>"

definition SequenceData_set_status :: "SequenceData \<Rightarrow> SequenceStatus \<Rightarrow> SequenceData" where
  "SequenceData_set_status d st = d\<lparr>status := st\<rparr>"

record SequenceInner =
  seq_data :: SequenceData
  seq_id :: nat
  logical_token_blocks :: "LogicalTokenBlock list"
  seq_block_size :: nat

definition append_token_to_blocks :: "SequenceInner \<Rightarrow> nat \<Rightarrow> SequenceInner res" where
  "append_token_to_blocks s token =
     (let blocks = logical_token_blocks s;
          lst = (if blocks = [] then None else Some (last blocks))
      in if \<not> (case lst of None \<Rightarrow> False | Some b \<Rightarrow> is_full b)
         then bindE (unwrap lst) (\<lambda>b.
              bindE (LogicalTokenBlock_append_token_id b token) (\<lambda>b'.
              Inr (s\<lparr>logical_token_blocks := butlast blocks @ [b']\<rparr>)))
         else bindE (LogicalTokenBlock_append_token_id (LogicalTokenBlock_new (seq_block_size s)) token) (\<lambda>b'.
              Inr (s\<lparr>logical_token_blocks := blocks @ [b']\<rparr>)))"

definition append_tokens_to_blocks :: "SequenceInner \<Rightarrow> nat list \<Rightarrow> SequenceInner res" where
  "append_tokens_to_blocks s tokens = foldE append_token_to_blocks s tokens"

definition Sequence_new :: "nat list \<Rightarrow> nat \<Rightarrow> nat \<Rightarrow> SequenceInner res" where
  "Sequence_new ids sid block_size =
     append_tokens_to_blocks
       \<lparr>seq_data = SequenceData_new ids, seq_id = sid, logical_token_blocks = [], seq_block_size = block_size\<rparr>
       ids"

definition add_token :: "SequenceInner \<Rightarrow> Logprobs \<Rightarrow> SequenceInner res" where
  "add_token s lp =
     bindE (append_token_to_blocks s (lp_token lp)) (\<lambda>s'.
     Inr (s'\<lparr>seq_data := SequenceData_append_token_id (seq_data s') lp\<rparr>))"

definition blocks_to_add_new_tok :: "SequenceInner \<Rightarrow> nat" where
  "blocks_to_add_new_tok s =
     (let blocks = logical_token_blocks s
      in if \<not> (blocks \<noteq> [] \<and> is_full (last blocks)) then 0 else 1)"

definition get_logical_token_blocks :: "SequenceInner \<Rightarrow> nat" where
  "get_logical_token_blocks s = length (logical_token_blocks s)"

definition is_prompt :: "SequenceInner \<Rightarrow> bool" where
  "is_prompt s = (output_token_ids (seq_data s) = [])"

definition Sequence_get_prompt_len :: "SequenceInner \<Rightarrow> nat" where
  "Sequence_get_prompt_len s = length (prompt_token_ids (seq_data s))"

text \<open>
  \<open>get_len\<close> adds two lengths, each read through its own guard of the mutex around the data.  Both
  guards are temporaries of one expression: the first lives until the end of the statement, so the
  second \<open>deref\<close> spins on a mutex that the same thread holds.
\<close>

definition get_len :: "SequenceInner \<Rightarrow> nat res" where
  "get_len s =
     bindE (spin_lock False) (\<lambda>held.
     let prompt_len = length (prompt_token_ids (seq_data s)) in
     bindE (spin_lock held) (\<lambda>held'.
     Inr (prompt_len + length (output_token_ids (seq_data s)))))"

definition get_token_ids :: "SequenceInner \<Rightarrow> nat list" where
  "get_token_ids s = prompt_token_ids (seq_data s) @ map lp_token (output_token_ids (seq_data s))"

definition get_last_token_id :: "SequenceInner \<Rightarrow> nat res" where
  "get_last_token_id s =
     (if output_token_ids (seq_data s) = []
      then (if prompt_token_ids (seq_data s) = [] then Inl (Panic UnwrapNone)
            else Inr (last (prompt_token_ids (seq_data s))))
      else Inr (lp_token (last (output_token_ids (seq_data s)))))"

definition SequenceData_get_cumulative_logprob :: "SequenceData \<Rightarrow> f32" where
  [simp]: "SequenceData_get_cumulative_logprob d = cumulative_logprob d"

definition get_cumulative_logprob :: "SequenceInner \<Rightarrow> f32" where
  [simp]: "get_cumulative_logprob s = SequenceData_get_cumulative_logprob (seq_data s)"

definition get_output_tokens :: "SequenceInner \<Rightarrow> Logprobs list" where
  [simp]: "get_output_tokens s = output_token_ids (seq_data s)"

definition Sequence_is_finished :: "SequenceInner \<Rightarrow> bool" where
  "Sequence_is_finished s =
     (case status (seq_data s) of
        FinishedAborted \<Rightarrow> True | FinishedIgnored \<Rightarrow> True | Finished _ \<Rightarrow> True | _ \<Rightarrow> False)"

definition set_finish_reason :: "SequenceInner \<Rightarrow> string \<Rightarrow> SequenceInner" where
  "set_finish_reason s finish_reason =
     s\<lparr>seq_data := SequenceData_set_status (seq_data s) (Finished finish_reason)\<rparr>"

definition get_finish_reason :: "SequenceInner \<Rightarrow> string res" where
  "get_finish_reason s =
     (case status (seq_data s) of
        Finished st \<Rightarrow> Inr st
      | FinishedAborted \<Rightarrow> Inr ''abort''
      | FinishedIgnored \<Rightarrow> Inr ''length''
      | _ \<Rightarrow> Inl (Panic Unreachable))"

subsection \<open>Groups\<close>

type_synonym seq_addr = nat
type_synonym seq_store = "seq_addr \<Rightarrow> SequenceInner"

record SequenceGroup =
  seqs :: "(nat, seq_addr) hash_map"
  sg_arrival_time :: nat
  group_id :: nat
  request_id :: string
  created :: nat

text \<open>The getters of a group.\<close>

definition get_seqs :: "SequenceGroup \<Rightarrow> (nat, seq_addr) hash_map" where
  [simp]: "get_seqs g = seqs g"

definition arrival_time :: "SequenceGroup \<Rightarrow> nat" where
  [simp]: "arrival_time g = sg_arrival_time g"

definition SequenceGroup_get_id :: "SequenceGroup \<Rightarrow> nat" where
  [simp]: "SequenceGroup_get_id g = group_id g"

definition get_request_id :: "SequenceGroup \<Rightarrow> string" where
  [simp]: "get_request_id g = request_id g"

definition get_created_time :: "SequenceGroup \<Rightarrow> nat" where
  [simp]: "get_created_time g = created g"

definition SequenceGroup_new ::
    "seq_store \<Rightarrow> seq_addr list \<Rightarrow> nat \<Rightarrow> nat \<Rightarrow> string \<Rightarrow> nat \<Rightarrow> SequenceGroup" where
  "SequenceGroup_new st arcs arrival gid rid crt =
     \<lparr>seqs = fold (\<lambda>a m. AList.update (seq_id (st a)) a m) arcs [],
      sg_arrival_time = arrival, group_id = gid, request_id = rid, created = crt\<rparr>"

definition SequenceGroup_set_status :: "seq_store \<Rightarrow> SequenceGroup \<Rightarrow> SequenceStatus \<Rightarrow> seq_store" where
  "SequenceGroup_set_status st g sts =
     fold (\<lambda>a m. m(a := (m a)\<lparr>seq_data := SequenceData_set_status (seq_data (m a)) sts\<rparr>)) (vals (seqs g)) st"

definition total_blocks_to_add_new_tok :: "seq_store \<Rightarrow> SequenceGroup \<Rightarrow> nat" where
  "total_blocks_to_add_new_tok st g = sum_list (map (\<lambda>a. blocks_to_add_new_tok (st a)) (vals (seqs g)))"

definition SequenceGroup_get_prompt_len :: "SequenceGroup \<Rightarrow> nat" where
  "SequenceGroup_get_prompt_len g = length (seqs g)"

definition get_total_logical_token_blocks :: "seq_store \<Rightarrow> SequenceGroup \<Rightarrow> nat" where
  "get_total_logical_token_blocks st g = sum_list (map (\<lambda>a. get_logical_token_blocks (st a)) (vals (seqs g)))"

definition SequenceGroup_is_finished :: "seq_store \<Rightarrow> SequenceGroup \<Rightarrow> bool" where
  "SequenceGroup_is_finished st g = list_all (\<lambda>a. Sequence_is_finished (st a)) (vals (seqs g))"

subsection \<open>Logical blocks refine the token list\<close>

text \<open>The specification: a token list cut into pieces of the block size, the last one possibly short.\<close>

function chunk :: "nat \<Rightarrow> 'a list \<Rightarrow> 'a list list" where
  "chunk n ts = (if n = 0 \<or> ts = [] then [] else take n ts # chunk n (drop n ts))"
  by pat_completeness auto
termination
  by (relation "measure (\<lambda>(n, ts). length ts)") auto

declare chunk.simps [simp del]

lemma chunk_Nil [simp]: "chunk n [] = []"
  by (simp add: chunk.simps)

lemma chunk_Cons_iff: "0 < n \<Longrightarrow> ts \<noteq> [] \<Longrightarrow> chunk n ts = take n ts # chunk n (drop n ts)"
  by (simp add: chunk.simps [of n ts])

lemma chunk_empty_iff [simp]: "0 < n \<Longrightarrow> chunk n ts = [] \<longleftrightarrow> ts = []"
  by (simp add: chunk.simps [of n ts])

lemma concat_chunk: "0 < n \<Longrightarrow> concat (chunk n ts) = ts"
proof (induction n ts rule: chunk.induct)
  case (1 n ts)
  then show ?case by (cases "ts = []") (simp_all add: chunk_Cons_iff)
qed

lemma length_chunk: "0 < n \<Longrightarrow> length (chunk n ts) = (length ts + n - 1) div n"
proof (induction n ts rule: chunk.induct)
  case (1 n ts)
  show ?case
  proof (cases "ts = []")
    case False
    have "length (chunk n ts) = Suc ((length (drop n ts) + n - 1) div n)"
      using False 1 by (simp add: chunk_Cons_iff)
    also have "\<dots> = (length ts + n - 1) div n"
    proof (cases "length ts \<le> n")
      case True
      moreover from True False 1(2) have "(length ts + n - 1) div n = 1"
        by (intro div_nat_eqI) (cases ts; auto)+
      ultimately show ?thesis using 1(2) by simp
    next
      case False
      then have "length ts + n - 1 = (length (drop n ts) + n - 1) + n" by simp
      then have "(length ts + n - 1) div n = ((length (drop n ts) + n - 1) + n) div n" by (rule arg_cong)
      then show ?thesis using 1(2) by (simp only: div_add_self2)
    qed
    finally show ?thesis .
  qed (use 1 in simp)
qed

text \<open>Adding one token either opens a new piece or extends the last one.\<close>

lemma chunk_snoc:
  assumes "0 < n"
  shows "chunk n (ts @ [t]) =
    (if ts = [] \<or> length (last (chunk n ts)) = n then chunk n ts @ [[t]]
     else butlast (chunk n ts) @ [last (chunk n ts) @ [t]])"
  using assms
proof (induction n ts rule: chunk.induct)
  case (1 n ts)
  show ?case
  proof (cases "length ts < n")
    case True
    then have "drop n (ts @ [t]) = []" "take n (ts @ [t]) = ts @ [t]" by auto
    then have new: "chunk n (ts @ [t]) = [ts @ [t]]"
      using 1(2) by (simp add: chunk_Cons_iff)
    have "chunk n ts = [ts]" if "ts \<noteq> []"
      using True that 1(2) by (simp add: chunk_Cons_iff)
    with new True show ?thesis by (cases "ts = []") simp_all
  next
    case False
    with 1(2) have ne: "ts \<noteq> []" by auto
    have IH: "chunk n (drop n ts @ [t]) =
        (if drop n ts = [] \<or> length (last (chunk n (drop n ts))) = n then chunk n (drop n ts) @ [[t]]
         else butlast (chunk n (drop n ts)) @ [last (chunk n (drop n ts)) @ [t]])"
      using 1 ne by simp
    have step: "chunk n (ts @ [t]) = take n ts # chunk n (drop n ts @ [t])"
      using False 1(2) by (simp add: chunk_Cons_iff)
    show ?thesis
    proof (cases "drop n ts = []")
      case True
      then have "length ts = n" using False by simp
      then show ?thesis
        using step IH True ne 1(2) by (simp add: chunk_Cons_iff)
    next
      case dne: False
      then have "chunk n (drop n ts) \<noteq> []" using 1(2) by simp
      then show ?thesis
        using step IH dne ne 1(2) by (simp add: chunk_Cons_iff)
    qed
  qed
qed

definition seq_wf :: "SequenceInner \<Rightarrow> bool" where
  "seq_wf s \<longleftrightarrow>
     0 < seq_block_size s
   \<and> list_all (ltb_wf (seq_block_size s)) (logical_token_blocks s)
   \<and> map contents (logical_token_blocks s) = chunk (seq_block_size s) (get_token_ids s)"

lemma seq_wf_blocks_empty_iff: "seq_wf s \<Longrightarrow> logical_token_blocks s = [] \<longleftrightarrow> get_token_ids s = []"
  by (metis chunk_empty_iff map_is_Nil_conv seq_wf_def)

lemma seq_wf_last:
  assumes "seq_wf s" "logical_token_blocks s \<noteq> []"
  shows "ltb_wf (seq_block_size s) (last (logical_token_blocks s))"
    and "contents (last (logical_token_blocks s)) = last (chunk (seq_block_size s) (get_token_ids s))"
proof -
  show "ltb_wf (seq_block_size s) (last (logical_token_blocks s))"
    using assms by (simp add: seq_wf_def list_all_iff)
  show "contents (last (logical_token_blocks s)) = last (chunk (seq_block_size s) (get_token_ids s))"
    using assms by (metis last_map seq_wf_def)
qed

lemma is_full_last_iff:
  assumes "seq_wf s" "logical_token_blocks s \<noteq> []"
  shows "is_full (last (logical_token_blocks s)) \<longleftrightarrow>
         length (last (chunk (seq_block_size s) (get_token_ids s))) = seq_block_size s"
  using seq_wf_last [OF assms] is_full_iff by metis

lemma append_token_to_blocks_ok:
  assumes wf: "seq_wf s" and ne: "logical_token_blocks s \<noteq> []"
  shows "\<exists>bs. append_token_to_blocks s t = Inr (s\<lparr>logical_token_blocks := bs\<rparr>)
     \<and> list_all (ltb_wf (seq_block_size s)) bs
     \<and> map contents bs = chunk (seq_block_size s) (get_token_ids s @ [t])
     \<and> length bs = length (logical_token_blocks s) + blocks_to_add_new_tok s"
proof -
  let ?n = "seq_block_size s" and ?bl = "logical_token_blocks s"
  have n: "0 < ?n" and tok: "get_token_ids s \<noteq> []"
    and blwf: "list_all (ltb_wf ?n) ?bl" and blc: "map contents ?bl = chunk ?n (get_token_ids s)"
    using wf ne seq_wf_blocks_empty_iff by (auto simp: seq_wf_def)
  note lst = seq_wf_last [OF wf ne]
  show ?thesis
  proof (cases "is_full (last ?bl)")
    case True
    obtain b' where b': "LogicalTokenBlock_append_token_id (LogicalTokenBlock_new ?n) t = Inr b'"
        "ltb_wf ?n b'" "contents b' = [t]"
      using append_token_id_ok [of ?n "LogicalTokenBlock_new ?n" t] n by auto
    have "append_token_to_blocks s t = Inr (s\<lparr>logical_token_blocks := ?bl @ [b']\<rparr>)"
      using True ne b' by (simp add: append_token_to_blocks_def)
    moreover have "map contents (?bl @ [b']) = chunk ?n (get_token_ids s @ [t])"
      using chunk_snoc [OF n, of "get_token_ids s" t] True is_full_last_iff [OF wf ne] b' blc by simp
    ultimately show ?thesis
      using blwf b' True ne by (auto simp: blocks_to_add_new_tok_def)
  next
    case False
    then obtain b' where b': "LogicalTokenBlock_append_token_id (last ?bl) t = Inr b'"
        "ltb_wf ?n b'" "contents b' = contents (last ?bl) @ [t]"
      using append_token_id_ok [OF lst(1), of t] by auto
    have "append_token_to_blocks s t = Inr (s\<lparr>logical_token_blocks := butlast ?bl @ [b']\<rparr>)"
      using False ne b' by (simp add: append_token_to_blocks_def)
    moreover have "map contents (butlast ?bl @ [b']) = chunk ?n (get_token_ids s @ [t])"
      using chunk_snoc [OF n, of "get_token_ids s" t] False is_full_last_iff [OF wf ne] b' blc tok lst(2)
      by (simp add: map_butlast)
    moreover have "list_all (ltb_wf ?n) (butlast ?bl @ [b'])"
      using blwf b'(2) by (auto simp: list_all_iff dest: in_set_butlastD)
    moreover have "length (butlast ?bl @ [b']) = length ?bl"
      using ne by simp
    ultimately show ?thesis
      using False by (auto simp: blocks_to_add_new_tok_def)
  qed
qed

lemma get_token_ids_append:
  "get_token_ids (s\<lparr>logical_token_blocks := bs,
      seq_data := SequenceData_append_token_id (seq_data s) lp\<rparr>) = get_token_ids s @ [lp_token lp]"
  by (simp add: get_token_ids_def SequenceData_append_token_id_def)

lemma get_token_ids_blocks [simp]:
  "get_token_ids (s\<lparr>logical_token_blocks := bs\<rparr>) = get_token_ids s"
  by (simp add: get_token_ids_def)

lemma append_token_to_blocks_Nil:
  "logical_token_blocks s = [] \<Longrightarrow> append_token_to_blocks s t = Inl (Panic UnwrapNone)"
  by (simp add: append_token_to_blocks_def)

lemma add_token_ok:
  assumes "seq_wf s" "logical_token_blocks s \<noteq> []"
  shows "\<exists>s'. add_token s lp = Inr s' \<and> seq_wf s' \<and> seq_block_size s' = seq_block_size s \<and> logical_token_blocks s' \<noteq> []
     \<and> get_token_ids s' = get_token_ids s @ [lp_token lp]
     \<and> map contents (logical_token_blocks s') = chunk (seq_block_size s) (get_token_ids s @ [lp_token lp])
     \<and> get_logical_token_blocks s' = get_logical_token_blocks s + blocks_to_add_new_tok s"
proof -
  obtain bs where bs: "append_token_to_blocks s (lp_token lp) = Inr (s\<lparr>logical_token_blocks := bs\<rparr>)"
      "list_all (ltb_wf (seq_block_size s)) bs"
      "map contents bs = chunk (seq_block_size s) (get_token_ids s @ [lp_token lp])"
      "length bs = length (logical_token_blocks s) + blocks_to_add_new_tok s"
    using append_token_to_blocks_ok [OF assms] by blast
  have "0 < seq_block_size s" using assms(1) by (simp add: seq_wf_def)
  with bs show ?thesis
    using assms(2) by (auto simp: add_token_def seq_wf_def get_token_ids_append get_logical_token_blocks_def)
qed

lemma seq_wf_ceiling:
  assumes "seq_wf s"
  shows "get_logical_token_blocks s = (length (get_token_ids s) + seq_block_size s - 1) div seq_block_size s"
proof -
  have "length (map contents (logical_token_blocks s)) = length (chunk (seq_block_size s) (get_token_ids s))"
    using assms by (simp add: seq_wf_def)
  then show ?thesis
    using assms length_chunk [of "seq_block_size s" "get_token_ids s"]
    by (simp add: seq_wf_def get_logical_token_blocks_def)
qed

lemma ceiling_Suc:
  assumes "0 < (b :: nat)"
  shows "(Suc k + b - 1) div b = (k + b - 1) div b + (if b dvd k then 1 else 0)"
proof -
  obtain m r where k: "k = m * b + r" "r < b" using assms by (metis div_mult_mod_eq mod_less_divisor)
  have "(k + b - 1) div b = (if r = 0 then m else m + 1)"
  proof (cases r)
    case 0
    have "k + b - 1 = (b - 1) + m * b" using k(1) 0 assms by simp
    then have "(k + b - 1) div b = (b - 1) div b + m" using assms by (simp only: div_mult_self1)
    then show ?thesis using 0 assms by simp
  next
    case (Suc r')
    have "k + b - 1 = r' + (m + 1) * b" using k(1) Suc by simp
    then have "(k + b - 1) div b = r' div b + (m + 1)" using assms by (simp only: div_mult_self1)
    then show ?thesis using Suc k(2) by simp
  qed
  moreover have "(Suc k + b - 1) div b = m + 1" using k assms by simp
  moreover have "b dvd k \<longleftrightarrow> r = 0" using k by (auto dest: nat_dvd_not_less)
  ultimately show ?thesis by simp
qed

lemma blocks_to_add_dvd:
  assumes "seq_wf s" "logical_token_blocks s \<noteq> []"
  shows "blocks_to_add_new_tok s = (if seq_block_size s dvd length (get_token_ids s) then 1 else 0)"
proof -
  obtain s' where s': "seq_wf s'" "seq_block_size s' = seq_block_size s" "length (get_token_ids s') = Suc (length (get_token_ids s))"
      "get_logical_token_blocks s' = get_logical_token_blocks s + blocks_to_add_new_tok s"
    using add_token_ok [OF assms, of undefined] by auto
  have "0 < seq_block_size s" using assms(1) by (simp add: seq_wf_def)
  then show ?thesis
    using s'(2-4) seq_wf_ceiling [OF s'(1)] seq_wf_ceiling [OF assms(1)] ceiling_Suc [of "seq_block_size s" "length (get_token_ids s)"]
    by simp
qed

text \<open>
  C10: a generated token goes where it should.  For a well-formed sequence that has a logical block,
  \<open>add_token\<close> returns; the new sequence is well-formed, its logical blocks are the token list cut
  into blocks with the token appended, and it has exactly \<open>blocks_to_add_new_tok\<close> more of them.
\<close>

theorem add_token_refines_chunk:
  assumes "seq_wf s" "logical_token_blocks s \<noteq> []"
  shows "\<exists>s'. add_token s lp = Inr s' \<and> seq_wf s'
     \<and> get_token_ids s' = get_token_ids s @ [lp_token lp]
     \<and> map contents (logical_token_blocks s') = chunk (seq_block_size s) (get_token_ids s @ [lp_token lp])
     \<and> get_logical_token_blocks s' = get_logical_token_blocks s + blocks_to_add_new_tok s"
  using add_token_ok [OF assms, of lp] by blast

theorem add_token_refines_chunk_witness:
  "\<exists>s'. add_token \<lparr>seq_data = SequenceData_new [5, 6], seq_id = 0,
          logical_token_blocks = [\<lparr>ltb_tokens = [5, 6], ltb_block_size = 2, ltb_num_tokens = 2\<rparr>],
          seq_block_size = 2\<rparr> \<lparr>lp_token = 9, lp_logprob = Fin 0\<rparr> = Inr s'
     \<and> map contents (logical_token_blocks s') = [[5, 6], [9]]"
  using add_token_refines_chunk [of "\<lparr>seq_data = SequenceData_new [5, 6], seq_id = 0,
          logical_token_blocks = [\<lparr>ltb_tokens = [5, 6], ltb_block_size = 2, ltb_num_tokens = 2\<rparr>],
          seq_block_size = 2\<rparr>" "\<lparr>lp_token = 9, lp_logprob = Fin 0\<rparr>"]
  by (auto simp: seq_wf_def ltb_wf_def get_token_ids_def SequenceData_new_def contents_def chunk.simps)

text \<open>
  C22: the blocks of a growing sequence.  From a well-formed sequence that has a logical block, any list of generated tokens can be added
  one after the other; the sequence then has the tokens in order, as many logical blocks as their number divided by the block size, rounded up, and
  \<open>blocks_to_add_new_tok\<close> asks for another block exactly when the block size divides the number of tokens.
\<close>

theorem logical_blocks_ceiling:
  assumes "seq_wf s" "logical_token_blocks s \<noteq> []"
  shows "\<exists>s'. foldE add_token s lps = Inr s' \<and> seq_block_size s' = seq_block_size s
     \<and> get_token_ids s' = get_token_ids s @ map lp_token lps
     \<and> get_logical_token_blocks s'
         = (length (get_token_ids s) + length lps + seq_block_size s - 1) div seq_block_size s
     \<and> blocks_to_add_new_tok s' = (if seq_block_size s dvd length (get_token_ids s) + length lps then 1 else 0)"
  using assms
proof (induction lps arbitrary: s)
  case Nil
  then show ?case using seq_wf_ceiling [OF Nil.prems(1)] blocks_to_add_dvd [OF Nil.prems] by simp
next
  case (Cons lp lps)
  obtain s1 where s1: "add_token s lp = Inr s1" "seq_wf s1" "seq_block_size s1 = seq_block_size s" "logical_token_blocks s1 \<noteq> []"
      "get_token_ids s1 = get_token_ids s @ [lp_token lp]"
    using add_token_ok [OF Cons.prems, of lp] by blast
  then show ?case using Cons.IH [OF s1(2,4)] by simp
qed

theorem logical_blocks_ceiling_witness:
  "\<exists>s'. foldE add_token \<lparr>seq_data = SequenceData_new [5, 6, 7], seq_id = 0,
      logical_token_blocks = [\<lparr>ltb_tokens = [5, 6], ltb_block_size = 2, ltb_num_tokens = 2\<rparr>,
                              \<lparr>ltb_tokens = [7, 0], ltb_block_size = 2, ltb_num_tokens = 1\<rparr>],
      seq_block_size = 2\<rparr> [\<lparr>lp_token = 8, lp_logprob = Fin 0\<rparr>, \<lparr>lp_token = 9, lp_logprob = Fin 0\<rparr>] = Inr s'
    \<and> get_token_ids s' = [5, 6, 7, 8, 9] \<and> get_logical_token_blocks s' = 3 \<and> blocks_to_add_new_tok s' = 0"
  using logical_blocks_ceiling [of "\<lparr>seq_data = SequenceData_new [5, 6, 7], seq_id = 0,
      logical_token_blocks = [\<lparr>ltb_tokens = [5, 6], ltb_block_size = 2, ltb_num_tokens = 2\<rparr>,
                              \<lparr>ltb_tokens = [7, 0], ltb_block_size = 2, ltb_num_tokens = 1\<rparr>],
      seq_block_size = 2\<rparr>" "[\<lparr>lp_token = 8, lp_logprob = Fin 0\<rparr>, \<lparr>lp_token = 9, lp_logprob = Fin 0\<rparr>]"]
  by (auto simp: seq_wf_def ltb_wf_def get_token_ids_def SequenceData_new_def contents_def chunk.simps)

text \<open>
  \<open>_Sequence::new\<close> panics on every prompt that has a token: the first \<open>append_token_to_blocks\<close>
  unwraps the last of no blocks.  Only the empty prompt gives a sequence, one without blocks, and
  \<open>add_token\<close> panics on it in turn.
\<close>

lemma Sequence_new_panics:
  "(ids \<noteq> [] \<longrightarrow> Sequence_new ids sid bs = Inl (Panic UnwrapNone))
   \<and> (\<exists>s. Sequence_new [] sid bs = Inr s \<and> logical_token_blocks s = []
        \<and> (\<forall>lp. add_token s lp = Inl (Panic UnwrapNone)))"
proof
  show "ids \<noteq> [] \<longrightarrow> Sequence_new ids sid bs = Inl (Panic UnwrapNone)"
    by (cases ids) (simp_all add: Sequence_new_def append_tokens_to_blocks_def append_token_to_blocks_Nil)
  show "\<exists>s. Sequence_new [] sid bs = Inr s \<and> logical_token_blocks s = []
        \<and> (\<forall>lp. add_token s lp = Inl (Panic UnwrapNone))"
    by (simp add: Sequence_new_def append_tokens_to_blocks_def add_token_def append_token_to_blocks_Nil)
qed

text \<open>
  \<open>get_len\<close> never returns, whatever the sequence: its second guard waits for its first one, and
  a \<open>deref\<close> loop whose lock is never free does not terminate (\<open>spin_never\<close>).
\<close>

lemma get_len_deadlocks: "get_len s = Inl Deadlock"
  by (simp add: get_len_def spin_lock_def)

lemma blocks_to_add_cases: "blocks_to_add_new_tok s = 0 \<or> blocks_to_add_new_tok s = 1"
  by (simp add: blocks_to_add_new_tok_def Let_def)

subsection \<open>Groups\<close>

lemma SequenceGroup_set_status_other [simp]:
  "seq_id (SequenceGroup_set_status st g sts a) = seq_id (st a)"
  "logical_token_blocks (SequenceGroup_set_status st g sts a) = logical_token_blocks (st a)"
  "seq_block_size (SequenceGroup_set_status st g sts a) = seq_block_size (st a)"
  "prompt_token_ids (seq_data (SequenceGroup_set_status st g sts a)) = prompt_token_ids (seq_data (st a))"
  "output_token_ids (seq_data (SequenceGroup_set_status st g sts a)) = output_token_ids (seq_data (st a))"
proof -
  have "seq_id (fold f as st a) = seq_id (st a)
      \<and> logical_token_blocks (fold f as st a) = logical_token_blocks (st a)
      \<and> seq_block_size (fold f as st a) = seq_block_size (st a)
      \<and> prompt_token_ids (seq_data (fold f as st a)) = prompt_token_ids (seq_data (st a))
      \<and> output_token_ids (seq_data (fold f as st a)) = output_token_ids (seq_data (st a))"
    if "f = (\<lambda>a m. m(a := (m a)\<lparr>seq_data := SequenceData_set_status (seq_data (m a)) sts\<rparr>))" for f as
    unfolding that by (induction as arbitrary: st) (auto simp: SequenceData_set_status_def)
  then show
    "seq_id (SequenceGroup_set_status st g sts a) = seq_id (st a)"
    "logical_token_blocks (SequenceGroup_set_status st g sts a) = logical_token_blocks (st a)"
    "seq_block_size (SequenceGroup_set_status st g sts a) = seq_block_size (st a)"
    "prompt_token_ids (seq_data (SequenceGroup_set_status st g sts a)) = prompt_token_ids (seq_data (st a))"
    "output_token_ids (seq_data (SequenceGroup_set_status st g sts a)) = output_token_ids (seq_data (st a))"
    by (simp_all add: SequenceGroup_set_status_def)
qed

lemma SequenceGroup_set_status_status:
  "status (seq_data (SequenceGroup_set_status st g sts a)) =
     (if a \<in> set (vals (seqs g)) then sts else status (seq_data (st a)))"
proof -
  have "status (seq_data (fold f as st a)) = (if a \<in> set as then sts else status (seq_data (st a)))"
    if "f = (\<lambda>a m. m(a := (m a)\<lparr>seq_data := SequenceData_set_status (seq_data (m a)) sts\<rparr>))" for f as
    unfolding that by (induction as arbitrary: st) (auto simp: SequenceData_set_status_def)
  then show ?thesis
    by (simp add: SequenceGroup_set_status_def)
qed

lemma set_status_measures [simp]:
  "blocks_to_add_new_tok (SequenceGroup_set_status st g sts a) = blocks_to_add_new_tok (st a)"
  "get_logical_token_blocks (SequenceGroup_set_status st g sts a) = get_logical_token_blocks (st a)"
  "seq_wf (SequenceGroup_set_status st g sts a) = seq_wf (st a)"
  by (simp_all add: blocks_to_add_new_tok_def get_logical_token_blocks_def seq_wf_def get_token_ids_def)

subsection \<open>Sample data\<close>

text \<open>
  Sequences for concrete instances: \<open>full_seq sid n\<close> has \<open>n\<close> full blocks of one token each,
  \<open>open_seq sid n\<close> has \<open>n\<close> full blocks of two tokens and a half-filled one.
\<close>

definition full_seq :: "nat \<Rightarrow> nat \<Rightarrow> SequenceInner" where
  "full_seq sid n = \<lparr>seq_data = SequenceData_new (replicate n 7), seq_id = sid,
     logical_token_blocks = replicate n \<lparr>ltb_tokens = [7], ltb_block_size = 1, ltb_num_tokens = 1\<rparr>,
     seq_block_size = 1\<rparr>"

definition open_seq :: "nat \<Rightarrow> nat \<Rightarrow> SequenceInner" where
  "open_seq sid n = \<lparr>seq_data = SequenceData_new (replicate (2 * n + 1) 7), seq_id = sid,
     logical_token_blocks = replicate n \<lparr>ltb_tokens = [7, 7], ltb_block_size = 2, ltb_num_tokens = 2\<rparr>
       @ [\<lparr>ltb_tokens = [7, 0], ltb_block_size = 2, ltb_num_tokens = 1\<rparr>],
     seq_block_size = 2\<rparr>"

definition sample_group :: "nat list \<Rightarrow> nat \<Rightarrow> SequenceGroup" where
  "sample_group sids gid = \<lparr>seqs = map (\<lambda>i. (i, i)) sids, sg_arrival_time = gid, group_id = gid,
     request_id = ''req'', created = 0\<rparr>"

lemma sample_simps [simp]:
  "seq_id (full_seq sid n) = sid" "get_logical_token_blocks (full_seq sid n) = n"
  "blocks_to_add_new_tok (full_seq sid n) = (if n = 0 then 0 else 1)"
  "seq_id (open_seq sid n) = sid" "get_logical_token_blocks (open_seq sid n) = n + 1"
  "blocks_to_add_new_tok (open_seq sid n) = 0"
  "seqs (sample_group sids gid) = map (\<lambda>i. (i, i)) sids"
  "group_id (sample_group sids gid) = gid" "sg_arrival_time (sample_group sids gid) = gid"
  by (simp_all add: full_seq_def open_seq_def sample_group_def get_logical_token_blocks_def
      blocks_to_add_new_tok_def is_full_def)

end
