(* ===== verification/Block_Allocator.thy ===== *)
theory Block_Allocator
  imports Prelude
begin

section \<open>Physical token blocks and their allocators\<close>

text \<open>
  \<open>PhysicalTokenBlock\<close>, \<open>Allocator\<close> and the two \<open>new\<close> functions of
  \<open>src/scheduler/block_engine.rs\<close>.  An \<open>Arc<PhysicalTokenBlock>\<close> is an address of a store whose
  cells are the blocks; addresses come from \<open>Arc::new\<close> only, so every address that occurs names a
  cell.  \<open>held\<close> lists the addresses whose mutex the thread holds: reading or writing such a block
  spins for ever.
\<close>

record PhysicalTokenBlock =
  block_id :: nat
  ptb_block_size :: nat
  refcount :: nat
  is_gpu :: bool

type_synonym addr = nat
type_synonym block_table = "addr list"

record block_store =
  cell :: "addr \<Rightarrow> PhysicalTokenBlock"
  next_addr :: addr
  held :: "addr list"

text \<open>\<open>deref_mut\<close> used for one access, its guard dropped at the end of the statement.\<close>

definition deref_block :: "block_store \<Rightarrow> addr \<Rightarrow> PhysicalTokenBlock res" where
  "deref_block h a = (if a \<in> set (held h) then Inl Deadlock else Inr (cell h a))"

definition set_refcount :: "block_store \<Rightarrow> addr \<Rightarrow> nat \<Rightarrow> block_store res" where
  "set_refcount h a n =
     (if a \<in> set (held h) then Inl Deadlock
      else Inr (h\<lparr>cell := (cell h)(a := (cell h a)\<lparr>refcount := n\<rparr>)\<rparr>))"

text \<open>A guard kept alive across several statements, and its drop.\<close>

definition lock_block :: "block_store \<Rightarrow> addr \<Rightarrow> block_store res" where
  "lock_block h a = (if a \<in> set (held h) then Inl Deadlock else Inr (h\<lparr>held := a # held h\<rparr>))"

definition unlock_block :: "block_store \<Rightarrow> addr \<Rightarrow> block_store" where
  "unlock_block h a = h\<lparr>held := remove1 a (held h)\<rparr>"

text \<open>\<open>PhysicalTokenBlock::eq\<close> takes both guards before it compares the fields.\<close>

definition PhysicalTokenBlock_eq :: "block_store \<Rightarrow> addr \<Rightarrow> addr \<Rightarrow> bool res" where
  "PhysicalTokenBlock_eq h a b =
     bindE (lock_block h a) (\<lambda>h1.
     bindE (lock_block h1 b) (\<lambda>h2.
     Inr (cell h2 a = cell h2 b)))"

definition arc_new :: "block_store \<Rightarrow> PhysicalTokenBlock \<Rightarrow> addr \<times> block_store" where
  "arc_new h b = (next_addr h, h\<lparr>cell := (cell h)(next_addr h := b), next_addr := next_addr h + 1\<rparr>)"

record Allocator =
  free_blocks :: block_table

type_synonym pool = "Allocator \<times> block_store"

definition Allocator_allocate :: "pool \<Rightarrow> (addr \<times> pool) res" where
  "Allocator_allocate = (\<lambda>(al, h).
     bindE (unwrap (vec_pop (free_blocks al))) (\<lambda>(block, rest).
     bindE (set_refcount h block 1) (\<lambda>h'.
     Inr (block, al\<lparr>free_blocks := rest\<rparr>, h'))))"

definition Allocator_free_block :: "pool \<Rightarrow> addr \<Rightarrow> pool res" where
  "Allocator_free_block = (\<lambda>(al, h) block.
     bindE (deref_block h block) (\<lambda>b.
     if refcount b = 0 then Inl (Panic (DoubleFree (block_id b)))
     else bindE (set_refcount h block (refcount b - 1)) (\<lambda>h'.
          bindE (deref_block h' block) (\<lambda>b'.
          if refcount b' = 0 then Inr (al\<lparr>free_blocks := free_blocks al @ [block]\<rparr>, h')
          else Inr (al, h')))))"

text \<open>
  \<open>Allocator::<GPUAllocator>::new\<close> and \<open>Allocator::<CPUAllocator>::new\<close>.  The second one marks its
  blocks \<open>is_gpu: true\<close> as well.
\<close>

definition GPUAllocator_new :: "nat \<Rightarrow> nat \<Rightarrow> block_store \<Rightarrow> pool" where
  "GPUAllocator_new block_size num_blocks h =
     (let (fb, h') = fold (\<lambda>n (fb, h).
            let (a, h') = arc_new h
              \<lparr>block_id = n, ptb_block_size = block_size, refcount = 0, is_gpu = True\<rparr>
            in (fb @ [a], h')) [0..<num_blocks] ([], h)
      in (\<lparr>free_blocks = fb\<rparr>, h'))"

definition CPUAllocator_new :: "nat \<Rightarrow> nat \<Rightarrow> block_store \<Rightarrow> pool" where
  "CPUAllocator_new block_size num_blocks h =
     (let (fb, h') = fold (\<lambda>n (fb, h).
            let (a, h') = arc_new h
              \<lparr>block_id = n, ptb_block_size = block_size, refcount = 0, is_gpu = True\<rparr>
            in (fb @ [a], h')) [0..<num_blocks] ([], h)
      in (\<lparr>free_blocks = fb\<rparr>, h'))"

definition get_num_free_blocks :: "Allocator \<Rightarrow> nat" where
  "get_num_free_blocks al = length (free_blocks al)"

lemmas [eval_defs] = deref_block_def set_refcount_def lock_block_def unlock_block_def Allocator_allocate_def
  Allocator_free_block_def vec_pop_def

subsection \<open>The pool invariant\<close>

text \<open>
  No mutex is held between operations, and the free list of an allocator has every block of its
  address range \<open>P\<close> whose reference count is zero, once.
\<close>

definition pool_ok :: "addr set \<Rightarrow> pool \<Rightarrow> bool" where
  "pool_ok P = (\<lambda>(al, h). held h = [] \<and> distinct (free_blocks al)
      \<and> set (free_blocks al) = {a \<in> P. refcount (cell h a) = 0})"

definition rc :: "pool \<Rightarrow> addr \<Rightarrow> nat" where
  "rc p a = refcount (cell (snd p) a)"

definition avail :: "pool \<Rightarrow> addr set" where
  "avail p = set (free_blocks (fst p))"

text \<open>What an operation of an allocator may change: reference counts and its own free list.\<close>

definition same_blocks :: "block_store \<Rightarrow> block_store \<Rightarrow> bool" where
  "same_blocks h h' \<longleftrightarrow> next_addr h' = next_addr h \<and> held h' = held h
     \<and> (\<forall>a. block_id (cell h' a) = block_id (cell h a) \<and> is_gpu (cell h' a) = is_gpu (cell h a)
          \<and> ptb_block_size (cell h' a) = ptb_block_size (cell h a))"

lemma same_blocks_refl [simp]: "same_blocks h h"
  by (simp add: same_blocks_def)

lemma same_blocks_trans: "same_blocks h h1 \<Longrightarrow> same_blocks h1 h2 \<Longrightarrow> same_blocks h h2"
  by (simp add: same_blocks_def)

lemma set_refcount_same: "set_refcount h a n = Inr h' \<Longrightarrow> same_blocks h h'"
  by (auto simp: set_refcount_def same_blocks_def split: if_splits)

lemma allocate_same: "Allocator_allocate (al, h) = Inr (b, al', h') \<Longrightarrow> same_blocks h h'"
  by (auto simp: Allocator_allocate_def bindE_Inr_iff dest: set_refcount_same)

lemma free_block_same: "Allocator_free_block (al, h) b = Inr (al', h') \<Longrightarrow> same_blocks h h'"
  by (auto simp: Allocator_free_block_def bindE_Inr_iff dest: set_refcount_same split: if_splits)

subsection \<open>The contract of a reference-counting pool\<close>

text \<open>
  What the block engine relies on.  \<open>counts p\<close> are the reference counts, \<open>spare p\<close> the blocks that
  can be handed out, \<open>range\<close> the addresses of the pool.
\<close>

locale refcount_pool =
  fixes alloc :: "'p \<Rightarrow> (addr \<times> 'p) res"
    and release :: "'p \<Rightarrow> addr \<Rightarrow> 'p res"
    and counts :: "'p \<Rightarrow> addr \<Rightarrow> nat"
    and spare :: "'p \<Rightarrow> addr set"
    and invar :: "'p \<Rightarrow> bool"
    and range :: "addr set"
  assumes spare_finite: "invar p \<Longrightarrow> finite (spare p)"
    and spare_iff: "invar p \<Longrightarrow> a \<in> spare p \<longleftrightarrow> a \<in> range \<and> counts p a = 0"
    and alloc_spare: "invar p \<Longrightarrow> spare p \<noteq> {} \<Longrightarrow>
        \<exists>b p'. alloc p = Inr (b, p') \<and> b \<in> spare p \<and> invar p' \<and> counts p' = (counts p)(b := 1)"
    and alloc_exhausted: "invar p \<Longrightarrow> spare p = {} \<Longrightarrow> alloc p = Inl (Panic UnwrapNone)"
    and release_counted: "invar p \<Longrightarrow> a \<in> range \<Longrightarrow> 0 < counts p a \<Longrightarrow>
        \<exists>p'. release p a = Inr p' \<and> invar p' \<and> counts p' = (counts p)(a := counts p a - 1)"
    and release_double: "invar p \<Longrightarrow> counts p a = 0 \<Longrightarrow> \<exists>i. release p a = Inl (Panic (DoubleFree i))"
begin

lemma alloc_spare_shrinks:
  assumes "invar p" "alloc p = Inr (b, p')"
  shows "b \<in> spare p" "invar p'" "counts p' = (counts p)(b := 1)" "spare p' = spare p - {b}"
proof -
  have ne: "spare p \<noteq> {}"
    using assms alloc_exhausted by force
  then show b: "b \<in> spare p" and inv: "invar p'" and c: "counts p' = (counts p)(b := 1)"
    using alloc_spare [OF assms(1)] assms(2) by auto
  show "spare p' = spare p - {b}"
    using spare_iff [OF assms(1)] spare_iff [OF inv] b c by (auto split: if_splits)
qed

text \<open>A loop that collects \<open>n\<close> blocks gets \<open>n\<close> different ones, or runs dry.\<close>

lemma alloc_many:
  "invar p \<Longrightarrow> n \<le> card (spare p) \<Longrightarrow>
   \<exists>bs p'. collectE n alloc p = Inr (bs, p') \<and> length bs = n \<and> distinct bs \<and> set bs \<subseteq> spare p
     \<and> invar p' \<and> counts p' = (\<lambda>a. if a \<in> set bs then 1 else counts p a)"
proof (induction n arbitrary: p)
  case 0
  then show ?case by auto
next
  case (Suc n)
  then have "spare p \<noteq> {}" by auto
  then obtain b p1 where b: "alloc p = Inr (b, p1)"
    using alloc_spare [OF Suc.prems(1)] by blast
  note p1 = alloc_spare_shrinks [OF Suc.prems(1) b]
  have "n \<le> card (spare p1)"
    using Suc.prems(2) p1(1,4) spare_finite [OF Suc.prems(1)] by simp
  then obtain bs p2 where IH: "collectE n alloc p1 = Inr (bs, p2)" "length bs = n" "distinct bs"
      "set bs \<subseteq> spare p1" "invar p2" "counts p2 = (\<lambda>a. if a \<in> set bs then 1 else counts p1 a)"
    using Suc.IH [OF p1(2)] by blast
  have "counts p2 = (\<lambda>a. if a \<in> set (b # bs) then 1 else counts p a)"
    using IH(6) p1(3) by auto
  then show ?case
    using b IH p1 by (intro exI [of _ "b # bs"] exI [of _ p2]) auto
qed

lemma alloc_many_exhausted:
  "invar p \<Longrightarrow> card (spare p) < n \<Longrightarrow> collectE n alloc p = Inl (Panic UnwrapNone)"
proof (induction n arbitrary: p)
  case 0
  then show ?case by simp
next
  case (Suc n)
  show ?case
  proof (cases "spare p = {}")
    case True
    then show ?thesis using alloc_exhausted Suc.prems by simp
  next
    case False
    then obtain b p1 where b: "alloc p = Inr (b, p1)"
      using alloc_spare [OF Suc.prems(1)] by blast
    note p1 = alloc_spare_shrinks [OF Suc.prems(1) b]
    have "card (spare p1) < n"
      using Suc.prems(2) p1(1,4) spare_finite [OF Suc.prems(1)] False
      by (metis Suc_less_eq card_Suc_Diff1)
    then show ?thesis using Suc.IH [OF p1(2)] b by simp
  qed
qed

text \<open>Releasing a list of references returns when every block has at least that many.\<close>

lemma release_many:
  "invar p \<Longrightarrow> set bs \<subseteq> range \<Longrightarrow> (\<forall>a. count_list bs a \<le> counts p a) \<Longrightarrow>
   \<exists>p'. foldE release p bs = Inr p' \<and> invar p' \<and> counts p' = (\<lambda>a. counts p a - count_list bs a)"
proof (induction bs arbitrary: p)
  case Nil
  then show ?case by auto
next
  case (Cons b bs)
  have pos: "0 < counts p b"
    using Cons.prems(3) [rule_format, of b] by simp
  then obtain p1 where p1: "release p b = Inr p1" "invar p1" "counts p1 = (counts p)(b := counts p b - 1)"
    using release_counted [OF Cons.prems(1), of b] Cons.prems(2) by auto
  have "count_list bs a \<le> counts p1 a" for a
    using Cons.prems(3) [rule_format, of a] p1(3) by (auto split: if_splits)
  then obtain p2 where "foldE release p1 bs = Inr p2" "invar p2"
      "counts p2 = (\<lambda>a. counts p1 a - count_list bs a)"
    using Cons.IH [OF p1(2)] Cons.prems(2) by auto
  then show ?case
    using p1 by (intro exI [of _ p2]) (auto simp: fun_eq_iff)
qed

text \<open>A reference too many is a double free, wherever it stands in the list.\<close>

lemma release_too_many:
  "invar p \<Longrightarrow> set bs \<subseteq> range \<Longrightarrow> counts p a < count_list bs a \<Longrightarrow>
   \<exists>i. foldE release p bs = Inl (Panic (DoubleFree i))"
proof (induction bs arbitrary: p)
  case Nil
  then show ?case by simp
next
  case (Cons b bs)
  show ?case
  proof (cases "counts p b = 0")
    case True
    then show ?thesis using release_double [OF Cons.prems(1), of b] by auto
  next
    case False
    then obtain p1 where p1: "release p b = Inr p1" "invar p1" "counts p1 = (counts p)(b := counts p b - 1)"
      using release_counted [OF Cons.prems(1), of b] Cons.prems(2) by auto
    have "counts p1 a < count_list bs a"
      using Cons.prems(3) p1(3) False by (auto split: if_splits)
    then show ?thesis using Cons.IH [OF p1(2)] p1(1) Cons.prems(2) by auto
  qed
qed

end

text \<open>The program's allocators meet the contract, on whatever address range they own.\<close>

lemma allocate_pool_ok:
  assumes "pool_ok P p" "avail p \<noteq> {}"
  shows "\<exists>b p'. Allocator_allocate p = Inr (b, p') \<and> b \<in> avail p \<and> pool_ok P p' \<and> rc p' = (rc p)(b := 1)"
proof -
  obtain al h where p: "p = (al, h)" by (cases p)
  obtain rest b where fb: "free_blocks al = rest @ [b]"
    using assms(2) p by (cases "free_blocks al" rule: rev_cases) (auto simp: avail_def)
  show ?thesis
    using assms(1) fb
    by (auto simp: p Allocator_allocate_def set_refcount_def pool_ok_def avail_def rc_def)
qed

lemma free_block_pool_ok:
  assumes "pool_ok P p" "a \<in> P" "0 < rc p a"
  shows "\<exists>p'. Allocator_free_block p a = Inr p' \<and> pool_ok P p' \<and> rc p' = (rc p)(a := rc p a - 1)"
proof -
  obtain al h where p: "p = (al, h)" by (cases p)
  show ?thesis
    using assms
    by (auto simp: p Allocator_free_block_def deref_block_def set_refcount_def pool_ok_def rc_def)
qed

interpretation block_pool: refcount_pool Allocator_allocate Allocator_free_block rc avail "pool_ok P" P for P
proof (unfold_locales, goal_cases)
  case (1 p)
  then show ?case by (simp add: avail_def)
next
  case (2 p a)
  then show ?case by (auto simp: avail_def pool_ok_def rc_def split: prod.splits)
next
  case (3 p)
  then show ?case by (rule allocate_pool_ok)
next
  case (4 p)
  then show ?case by (cases p) (simp add: avail_def Allocator_allocate_def)
next
  case (5 p a)
  then show ?case by (rule free_block_pool_ok)
next
  case (6 p a)
  then show ?case by (cases p) (auto simp: Allocator_free_block_def deref_block_def pool_ok_def rc_def)
qed

lemma card_avail: "pool_ok P p \<Longrightarrow> card (avail p) = length (free_blocks (fst p))"
  unfolding avail_def by (rule distinct_card) (auto simp: pool_ok_def split: prod.splits)

lemma pool_ok_frame:
  "pool_ok P (al, h) \<Longrightarrow> held h' = [] \<Longrightarrow> (\<And>a. a \<in> P \<Longrightarrow> refcount (cell h' a) = refcount (cell h a)) \<Longrightarrow>
   pool_ok P (al, h')"
  by (auto simp: pool_ok_def)

lemma collect_allocate_same:
  "collectE n Allocator_allocate (al, h) = Inr (bs, al', h') \<Longrightarrow> same_blocks h h'"
proof (induction n arbitrary: al h bs)
  case 0
  then show ?case by simp
next
  case (Suc n)
  then show ?case
    by (auto simp: bindE_Inr_iff dest!: allocate_same intro: same_blocks_trans)
qed

lemma fold_free_same:
  "foldE Allocator_free_block (al, h) bs = Inr (al', h') \<Longrightarrow> same_blocks h h'"
proof (induction bs arbitrary: al h)
  case Nil
  then show ?case by simp
next
  case (Cons b bs)
  then show ?case
    by (auto simp: bindE_Inr_iff dest!: free_block_same intro: same_blocks_trans)
qed

subsection \<open>Fresh allocators\<close>

lemma arc_new_loop:
  "fold (\<lambda>n (fb, h). let (a, h') = arc_new h (mk n) in (fb @ [a], h')) [i..<i + n] (fb0, h) =
     (fb0 @ [next_addr h..<next_addr h + n],
      h\<lparr>cell := (\<lambda>a. if next_addr h \<le> a \<and> a < next_addr h + n then mk (i + (a - next_addr h)) else cell h a),
        next_addr := next_addr h + n\<rparr>)"
proof (induction n arbitrary: i fb0 h)
  case 0
  have "(\<lambda>a. if next_addr h \<le> a \<and> a < next_addr h then mk (i + (a - next_addr h)) else cell h a) = cell h"
    by (auto simp: fun_eq_iff)
  then show ?case by simp
next
  case (Suc n)
  have upt: "[i..<i + Suc n] = i # [Suc i..<Suc i + n]"
    by (simp add: upt_conv_Cons)
  let ?h1 = "h\<lparr>cell := (cell h)(next_addr h := mk i), next_addr := next_addr h + 1\<rparr>"
  have fn: "(\<lambda>a. if next_addr ?h1 \<le> a \<and> a < next_addr ?h1 + n
        then mk (Suc i + (a - next_addr ?h1)) else cell ?h1 a) =
      (\<lambda>a. if next_addr h \<le> a \<and> a < next_addr h + Suc n then mk (i + (a - next_addr h)) else cell h a)"
  proof
    fix a
    show "(if next_addr ?h1 \<le> a \<and> a < next_addr ?h1 + n
        then mk (Suc i + (a - next_addr ?h1)) else cell ?h1 a) =
      (if next_addr h \<le> a \<and> a < next_addr h + Suc n then mk (i + (a - next_addr h)) else cell h a)"
      by (cases "a = next_addr h") (auto simp: Suc_diff_Suc not_less_eq_eq)
  qed
  have "fold (\<lambda>n (fb, h). let (a, h') = arc_new h (mk n) in (fb @ [a], h')) [i..<i + Suc n] (fb0, h) =
      fold (\<lambda>n (fb, h). let (a, h') = arc_new h (mk n) in (fb @ [a], h')) [Suc i..<Suc i + n]
        (fb0 @ [next_addr h], ?h1)"
    unfolding upt by (simp add: arc_new_def)
  also have "\<dots> = (fb0 @ [next_addr h] @ [next_addr ?h1..<next_addr ?h1 + n],
      ?h1\<lparr>cell := (\<lambda>a. if next_addr ?h1 \<le> a \<and> a < next_addr ?h1 + n
        then mk (Suc i + (a - next_addr ?h1)) else cell ?h1 a), next_addr := next_addr ?h1 + n\<rparr>)"
    by (simp only: Suc.IH append_assoc)
  finally show ?case
    unfolding fn by (simp add: upt_conv_Cons)
qed

lemma GPUAllocator_new_eq:
  "GPUAllocator_new bs n h =
    (\<lparr>free_blocks = [next_addr h..<next_addr h + n]\<rparr>,
     h\<lparr>cell := (\<lambda>a. if next_addr h \<le> a \<and> a < next_addr h + n
          then \<lparr>block_id = a - next_addr h, ptb_block_size = bs, refcount = 0, is_gpu = True\<rparr> else cell h a),
       next_addr := next_addr h + n\<rparr>)"
  using arc_new_loop [of "\<lambda>i. \<lparr>block_id = i, ptb_block_size = bs, refcount = 0, is_gpu = True\<rparr>" 0 n "[]" h]
  by (simp add: GPUAllocator_new_def cong: if_cong)

lemma CPUAllocator_new_eq: "CPUAllocator_new bs n h = GPUAllocator_new bs n h"
  by (simp add: CPUAllocator_new_def GPUAllocator_new_def)

text \<open>
  Comparing a block with itself needs the same mutex twice; two different blocks compare by their
  fields.
\<close>

lemma PhysicalTokenBlock_eq_self: "PhysicalTokenBlock_eq h a a = Inl Deadlock"
  by (simp add: PhysicalTokenBlock_eq_def lock_block_def)

lemma PhysicalTokenBlock_eq_other:
  "held h = [] \<Longrightarrow> a \<noteq> b \<Longrightarrow> PhysicalTokenBlock_eq h a b = Inr (cell h a = cell h b)"
  by (simp add: PhysicalTokenBlock_eq_def lock_block_def)

end
