(* ===== verification/Block_Engine.thy ===== *)
theory Block_Engine
  imports Sequences Block_Allocator
begin

section \<open>The block engine\<close>

text \<open>
  \<open>BlockEngine\<close> of \<open>src/scheduler/block_engine.rs\<close>: the block tables of the sequences over the two
  allocators.  The record carries the store of the blocks its \<open>Arc\<close>s point to.  Operations that
  read sequences take the sequence store as their first argument.
\<close>

datatype AllocStatus = AllocOk | Later | Impossible

record BlockEngine =
  num_gpu_blocks :: nat
  gpu_allocator :: Allocator
  cpu_allocator :: Allocator
  block_tables :: "(nat, block_table) hash_map"
  blocks :: block_store

definition empty_store :: block_store where
  "empty_store = \<lparr>cell = (\<lambda>_. \<lparr>block_id = 0, ptb_block_size = 0, refcount = 0, is_gpu = False\<rparr>),
     next_addr = 0, held = []\<rparr>"

definition BlockEngine_new :: "nat \<Rightarrow> nat \<Rightarrow> nat \<Rightarrow> BlockEngine" where
  "BlockEngine_new block_size num_gpu num_cpu =
     (let (gpu, h) = GPUAllocator_new block_size num_gpu empty_store;
          (cpu, h') = CPUAllocator_new block_size num_cpu h
      in \<lparr>num_gpu_blocks = num_gpu, gpu_allocator = gpu, cpu_allocator = cpu, block_tables = [], blocks = h'\<rparr>)"

definition can_allocate :: "seq_store \<Rightarrow> SequenceGroup \<Rightarrow> BlockEngine \<Rightarrow> AllocStatus" where
  "can_allocate st g be =
     (let num_required_blocks = get_total_logical_token_blocks st g;
          num_free_gpu_blocks = get_num_free_blocks (gpu_allocator be)
      in if num_gpu_blocks be > num_free_gpu_blocks + num_required_blocks then Later
         else if num_gpu_blocks be < num_required_blocks then Impossible
         else AllocOk)"

definition BlockEngine_allocate :: "seq_store \<Rightarrow> SequenceGroup \<Rightarrow> BlockEngine \<Rightarrow> BlockEngine res" where
  "BlockEngine_allocate st g be =
     bindE (collectE (get_total_logical_token_blocks st g) Allocator_allocate (gpu_allocator be, blocks be))
       (\<lambda>(block_table, gpu, h).
     Inr (be\<lparr>gpu_allocator := gpu, blocks := h,
             block_tables := fold (\<lambda>k m. AList.update k block_table m) (keys (seqs g)) (block_tables be)\<rparr>))"

definition can_append_token_to_seq :: "seq_store \<Rightarrow> SequenceGroup \<Rightarrow> BlockEngine \<Rightarrow> bool" where
  "can_append_token_to_seq st g be =
     (total_blocks_to_add_new_tok st g \<le> get_num_free_blocks (gpu_allocator be))"

text \<open>One round of the loop of \<open>free_sequence\<close>.\<close>

definition free_table_block :: "BlockEngine \<Rightarrow> addr \<Rightarrow> BlockEngine res" where
  "free_table_block be block =
     bindE (deref_block (blocks be) block) (\<lambda>b.
     if is_gpu b
     then bindE (Allocator_free_block (gpu_allocator be, blocks be) block) (\<lambda>(gpu, h).
          Inr (be\<lparr>gpu_allocator := gpu, blocks := h\<rparr>))
     else bindE (Allocator_free_block (cpu_allocator be, blocks be) block) (\<lambda>(cpu, h).
          Inr (be\<lparr>cpu_allocator := cpu, blocks := h\<rparr>)))"

definition free_sequence :: "SequenceInner \<Rightarrow> BlockEngine \<Rightarrow> BlockEngine res" where
  "free_sequence s be =
     bindE (unwrap (map_of (block_tables be) (seq_id s))) (\<lambda>block_table.
     bindE (foldE free_table_block be block_table) (\<lambda>be'.
     Inr (be'\<lparr>block_tables := AList.delete (seq_id s) (block_tables be')\<rparr>)))"

definition can_swap_out_seq_group :: "SequenceGroup \<Rightarrow> BlockEngine \<Rightarrow> bool" where
  "can_swap_out_seq_group g be =
     (sum_list (map (\<lambda>(_, table). length table) (filter (\<lambda>(k, _). k \<in> set (keys (seqs g))) (block_tables be)))
        \<le> length (free_blocks (cpu_allocator be)))"

text \<open>
  One round of the inner loop of \<open>swap_out\<close>.  The guard that reads the id for \<open>entry\<close> is a
  temporary of the \<open>if let\<close>, so it is held through both branches.
\<close>

definition swap_out_block ::
    "BlockEngine \<times> (nat, addr) hash_map \<times> block_table \<Rightarrow> addr
     \<Rightarrow> (BlockEngine \<times> (nat, addr) hash_map \<times> block_table) res" where
  "swap_out_block = (\<lambda>(be, new_mapping, new_block_table) gpu_block.
     bindE (lock_block (blocks be) gpu_block) (\<lambda>h.
     bindE (case map_of new_mapping (block_id (cell h gpu_block)) of
         None \<Rightarrow>
           bindE (Allocator_allocate (cpu_allocator be, h)) (\<lambda>(cpu_block, cpu, h').
           Inr (cpu_block, AList.update (block_id (cell h gpu_block)) cpu_block new_mapping,
                be\<lparr>cpu_allocator := cpu, blocks := h'\<rparr>))
       | Some _ \<Rightarrow>
           bindE (deref_block h gpu_block) (\<lambda>b.
           bindE (unwrap (map_of new_mapping (block_id b))) (\<lambda>cpu_block.
           bindE (deref_block h cpu_block) (\<lambda>c.
           bindE (set_refcount h cpu_block (refcount c + 1)) (\<lambda>h'.
           Inr (cpu_block, new_mapping, be\<lparr>blocks := h'\<rparr>))))))
       (\<lambda>(cpu_block, new_mapping', be1).
     bindE (Allocator_free_block (gpu_allocator be1, unlock_block (blocks be1) gpu_block) gpu_block) (\<lambda>(gpu, h2).
     Inr (be1\<lparr>gpu_allocator := gpu, blocks := h2\<rparr>, new_mapping', new_block_table @ [cpu_block])))))"

definition swap_out_seq ::
    "BlockEngine \<times> (nat, addr) hash_map \<Rightarrow> nat \<Rightarrow> (BlockEngine \<times> (nat, addr) hash_map) res" where
  "swap_out_seq = (\<lambda>(be, new_mapping) sid.
     bindE (unwrap (map_of (block_tables be) sid)) (\<lambda>block_table.
     bindE (foldE swap_out_block (be, new_mapping, []) block_table) (\<lambda>(be', new_mapping', new_block_table).
     Inr (be'\<lparr>block_tables := AList.update sid new_block_table (block_tables be')\<rparr>, new_mapping'))))"

definition swap_out :: "SequenceGroup \<Rightarrow> BlockEngine \<Rightarrow> ((nat, nat) hash_map \<times> BlockEngine) res" where
  "swap_out g be =
     bindE (foldE swap_out_seq (be, []) (keys (seqs g))) (\<lambda>(be', new_mapping).
     bindE (mapE (\<lambda>(k, v). bindE (deref_block (blocks be') v) (\<lambda>b. Inr (k, block_id b))) new_mapping) (\<lambda>m.
     Inr (m, be')))"

definition append_token_slot_to_seq ::
    "SequenceInner \<Rightarrow> BlockEngine \<Rightarrow> ((nat \<times> nat) option \<times> BlockEngine) res" where
  "append_token_slot_to_seq s be =
     bindE (unwrap (map_of (block_tables be) (seq_id s))) (\<lambda>table.
     if blocks_to_add_new_tok s = 1
     then bindE (Allocator_allocate (gpu_allocator be, blocks be)) (\<lambda>(new_block, gpu, h).
          Inr (None, be\<lparr>gpu_allocator := gpu, blocks := h,
                         block_tables := AList.update (seq_id s) (table @ [new_block]) (block_tables be)\<rparr>))
     else if blocks_to_add_new_tok s = 0
     then bindE (unwrap (if table = [] then None else Some (last table))) (\<lambda>last_block.
          bindE (deref_block (blocks be) last_block) (\<lambda>b.
          bindE (assertE (is_gpu b)) (\<lambda>_.
          bindE (deref_block (blocks be) last_block) (\<lambda>b.
          if refcount b = 1 then Inr (None, be)
          else bindE (Allocator_allocate (gpu_allocator be, blocks be)) (\<lambda>(new_block, gpu, h).
               bindE (Allocator_free_block (gpu, h) last_block) (\<lambda>(gpu', h').
               bindE (deref_block h' last_block) (\<lambda>old.
               bindE (deref_block h' new_block) (\<lambda>new.
               Inr (Some (block_id old, block_id new),
                    be\<lparr>gpu_allocator := gpu', blocks := h',
                       block_tables := AList.update (seq_id s) (butlast table @ [new_block]) (block_tables be)\<rparr>)))))))))
     else Inl (Panic Unreachable))"

definition can_swap_in_seq_group :: "SequenceGroup \<Rightarrow> BlockEngine \<Rightarrow> bool" where
  "can_swap_in_seq_group g be =
     (sum_list (map (\<lambda>(_, table). length table) (filter (\<lambda>(k, _). k \<in> set (keys (seqs g))) (block_tables be)))
        \<le> length (free_blocks (gpu_allocator be)))"

text \<open>\<open>swap_in\<close>: its new blocks come from the CPU allocator and the old ones go to the GPU allocator.\<close>

definition swap_in_block ::
    "BlockEngine \<times> (nat, addr) hash_map \<times> block_table \<Rightarrow> addr
     \<Rightarrow> (BlockEngine \<times> (nat, addr) hash_map \<times> block_table) res" where
  "swap_in_block = (\<lambda>(be, new_mapping, new_block_table) cpu_block.
     bindE (lock_block (blocks be) cpu_block) (\<lambda>h.
     bindE (case map_of new_mapping (block_id (cell h cpu_block)) of
         None \<Rightarrow>
           bindE (Allocator_allocate (cpu_allocator be, h)) (\<lambda>(gpu_block, cpu, h').
           Inr (gpu_block, AList.update (block_id (cell h cpu_block)) gpu_block new_mapping,
                be\<lparr>cpu_allocator := cpu, blocks := h'\<rparr>))
       | Some _ \<Rightarrow>
           bindE (deref_block h cpu_block) (\<lambda>b.
           bindE (unwrap (map_of new_mapping (block_id b))) (\<lambda>gpu_block.
           bindE (deref_block h gpu_block) (\<lambda>c.
           bindE (set_refcount h gpu_block (refcount c + 1)) (\<lambda>h'.
           Inr (gpu_block, new_mapping, be\<lparr>blocks := h'\<rparr>))))))
       (\<lambda>(gpu_block, new_mapping', be1).
     bindE (Allocator_free_block (gpu_allocator be1, unlock_block (blocks be1) cpu_block) cpu_block) (\<lambda>(gpu, h2).
     Inr (be1\<lparr>gpu_allocator := gpu, blocks := h2\<rparr>, new_mapping', new_block_table @ [gpu_block])))))"

definition swap_in_seq ::
    "BlockEngine \<times> (nat, addr) hash_map \<Rightarrow> nat \<Rightarrow> (BlockEngine \<times> (nat, addr) hash_map) res" where
  "swap_in_seq = (\<lambda>(be, new_mapping) sid.
     bindE (unwrap (map_of (block_tables be) sid)) (\<lambda>block_table.
     bindE (foldE swap_in_block (be, new_mapping, []) block_table) (\<lambda>(be', new_mapping', new_block_table).
     Inr (be'\<lparr>block_tables := AList.update sid new_block_table (block_tables be')\<rparr>, new_mapping'))))"

definition swap_in :: "SequenceGroup \<Rightarrow> BlockEngine \<Rightarrow> ((nat, nat) hash_map \<times> BlockEngine) res" where
  "swap_in g be =
     bindE (foldE swap_in_seq (be, []) (keys (seqs g))) (\<lambda>(be', new_mapping).
     bindE (mapE (\<lambda>(k, v). bindE (deref_block (blocks be') v) (\<lambda>b. Inr (k, block_id b))) new_mapping) (\<lambda>m.
     Inr (m, be')))"

end
