(* ===== verification/Block_Tables.thy ===== *)
theory Block_Tables
  imports Block_Engine
begin

section \<open>The block tables\<close>

text \<open>
  The invariant of the block engine, and what allocating, freeing and extending a table do to it.
\<close>

subsection \<open>The invariant: reference counts are table references\<close>

definition all_refs :: "BlockEngine \<Rightarrow> addr list" where
  "all_refs be = concat (vals (block_tables be))"

abbreviation gpu_range :: "BlockEngine \<Rightarrow> addr set" where
  "gpu_range be \<equiv> {..<num_gpu_blocks be}"

abbreviation cpu_range :: "BlockEngine \<Rightarrow> addr set" where
  "cpu_range be \<equiv> {num_gpu_blocks be..<next_addr (blocks be)}"

definition ids_ok :: "nat \<Rightarrow> block_store \<Rightarrow> bool" where
  "ids_ok ng h \<longleftrightarrow> ng \<le> next_addr h
     \<and> (\<forall>a < ng. block_id (cell h a) = a)
     \<and> (\<forall>a. ng \<le> a \<longrightarrow> a < next_addr h \<longrightarrow> block_id (cell h a) = a - ng)
     \<and> (\<forall>a < next_addr h. is_gpu (cell h a))"

definition be_inv :: "BlockEngine \<Rightarrow> bool" where
  "be_inv be \<longleftrightarrow>
     distinct (keys (block_tables be))
   \<and> ids_ok (num_gpu_blocks be) (blocks be)
   \<and> set (all_refs be) \<subseteq> {..<next_addr (blocks be)}
   \<and> (\<forall>a < next_addr (blocks be). refcount (cell (blocks be) a) = count_list (all_refs be) a)
   \<and> pool_ok (gpu_range be) (gpu_allocator be, blocks be)
   \<and> pool_ok (cpu_range be) (cpu_allocator be, blocks be)"

lemma be_invI:
  assumes "distinct (keys (block_tables be))" "ids_ok (num_gpu_blocks be) (blocks be)"
    "set (all_refs be) \<subseteq> {..<next_addr (blocks be)}"
    "\<And>a. a < next_addr (blocks be) \<Longrightarrow> refcount (cell (blocks be) a) = count_list (all_refs be) a"
    "pool_ok (gpu_range be) (gpu_allocator be, blocks be)"
    "pool_ok (cpu_range be) (cpu_allocator be, blocks be)"
  shows "be_inv be"
  using assms by (simp add: be_inv_def)

lemma be_invD:
  assumes "be_inv be"
  shows "distinct (keys (block_tables be))" "ids_ok (num_gpu_blocks be) (blocks be)"
    "set (all_refs be) \<subseteq> {..<next_addr (blocks be)}"
    "\<And>a. a < next_addr (blocks be) \<Longrightarrow> refcount (cell (blocks be) a) = count_list (all_refs be) a"
    "pool_ok (gpu_range be) (gpu_allocator be, blocks be)"
    "pool_ok (cpu_range be) (cpu_allocator be, blocks be)"
    "held (blocks be) = []" "num_gpu_blocks be \<le> next_addr (blocks be)"
  using assms by (auto simp: be_inv_def pool_ok_def ids_ok_def)

lemma ids_ok_same: "ids_ok ng h \<Longrightarrow> same_blocks h h' \<Longrightarrow> ids_ok ng h'"
  by (simp add: ids_ok_def same_blocks_def)

lemma be_inv_new: "be_inv (BlockEngine_new bs ng nc)"
  by (rule be_invI)
    (auto simp: BlockEngine_new_def GPUAllocator_new_eq CPUAllocator_new_eq all_refs_def
      empty_store_def ids_ok_def pool_ok_def Let_def)

lemma BlockEngine_new_simps [simp]:
  "block_tables (BlockEngine_new bs ng nc) = []" "num_gpu_blocks (BlockEngine_new bs ng nc) = ng"
  "get_num_free_blocks (gpu_allocator (BlockEngine_new bs ng nc)) = ng"
  "get_num_free_blocks (cpu_allocator (BlockEngine_new bs ng nc)) = nc"
  "all_refs (BlockEngine_new bs ng nc) = []"
  by (simp_all add: BlockEngine_new_def Let_def GPUAllocator_new_eq CPUAllocator_new_eq
      get_num_free_blocks_def all_refs_def empty_store_def)

lemma free_gpu_set:
  assumes "be_inv be"
  shows "set (free_blocks (gpu_allocator be)) = gpu_range be - set (all_refs be)"
  using be_invD [OF assms] by (auto simp: pool_ok_def count_list_0_iff)

lemma free_cpu_set:
  assumes "be_inv be"
  shows "set (free_blocks (cpu_allocator be)) = cpu_range be - set (all_refs be)"
  using be_invD [OF assms] by (auto simp: pool_ok_def count_list_0_iff)

lemma length_free_gpu:
  assumes "be_inv be"
  shows "length (free_blocks (gpu_allocator be)) = card (gpu_range be - set (all_refs be))"
  using card_avail [OF be_invD(5) [OF assms]] free_gpu_set [OF assms] by (simp add: avail_def)

lemma length_free_cpu:
  assumes "be_inv be"
  shows "length (free_blocks (cpu_allocator be)) = card (cpu_range be - set (all_refs be))"
  using card_avail [OF be_invD(6) [OF assms]] free_cpu_set [OF assms] by (simp add: avail_def)

text \<open>An operation that changes the GPU side only keeps the invariant of the CPU side.\<close>

lemma be_inv_gpu_step:
  assumes inv: "be_inv be" and same: "same_blocks (blocks be) h'"
    and pool: "pool_ok (gpu_range be) (al', h')"
    and cpu: "\<And>a. a \<in> cpu_range be \<Longrightarrow> refcount (cell h' a) = refcount (cell (blocks be) a)"
    and dist: "distinct (keys t')" and sub: "set (concat (vals t')) \<subseteq> {..<next_addr (blocks be)}"
    and cnt: "\<And>a. a < next_addr (blocks be) \<Longrightarrow> refcount (cell h' a) = count_list (concat (vals t')) a"
  shows "be_inv (be\<lparr>gpu_allocator := al', blocks := h', block_tables := t'\<rparr>)"
proof (rule be_invI)
  let ?be' = "be\<lparr>gpu_allocator := al', blocks := h', block_tables := t'\<rparr>"
  have nx: "next_addr h' = next_addr (blocks be)" and hd: "held h' = []"
    using same be_invD(7) [OF inv] by (auto simp: same_blocks_def)
  show "distinct (keys (block_tables ?be'))" using dist by simp
  show "ids_ok (num_gpu_blocks ?be') (blocks ?be')"
    using ids_ok_same [OF be_invD(2) [OF inv] same] by simp
  show "set (all_refs ?be') \<subseteq> {..<next_addr (blocks ?be')}"
    using sub nx by (simp add: all_refs_def)
  show "refcount (cell (blocks ?be') a) = count_list (all_refs ?be') a" if "a < next_addr (blocks ?be')" for a
    using cnt that nx by (simp add: all_refs_def)
  show "pool_ok (gpu_range ?be') (gpu_allocator ?be', blocks ?be')" using pool by simp
  have "pool_ok (cpu_range be) (cpu_allocator be, h')"
    by (rule pool_ok_frame [OF be_invD(6) [OF inv] hd]) (rule cpu)
  then show "pool_ok (cpu_range ?be') (cpu_allocator ?be', blocks ?be')" using nx by simp
qed

lemma not_in_refs_count: "a \<notin> set (all_refs be) \<Longrightarrow> count_list (all_refs be) a = 0"
  by (simp add: count_list_0_iff)

subsection \<open>Allocating a table\<close>

lemma collect_gpu_blocks:
  assumes inv: "be_inv be" and n: "n \<le> length (free_blocks (gpu_allocator be))"
  shows "\<exists>table al h. collectE n Allocator_allocate (gpu_allocator be, blocks be) = Inr (table, al, h)
     \<and> length table = n \<and> distinct table \<and> set table \<subseteq> gpu_range be - set (all_refs be)
     \<and> same_blocks (blocks be) h \<and> pool_ok (gpu_range be) (al, h)
     \<and> (\<forall>a. refcount (cell h a) = (if a \<in> set table then 1 else refcount (cell (blocks be) a)))"
proof -
  let ?p = "(gpu_allocator be, blocks be)"
  note pool = be_invD(5) [OF inv]
  have "n \<le> card (avail ?p)"
    using n card_avail [OF pool] by simp
  then obtain table p' where t: "collectE n Allocator_allocate ?p = Inr (table, p')" "length table = n"
      "distinct table" "set table \<subseteq> avail ?p" "pool_ok (gpu_range be) p'"
      "rc p' = (\<lambda>a. if a \<in> set table then 1 else rc ?p a)"
    using block_pool.alloc_many [OF pool] by blast
  obtain al h where p': "p' = (al, h)" by (cases p')
  have "same_blocks (blocks be) h"
    using collect_allocate_same t(1) p' by blast
  moreover have "set table \<subseteq> gpu_range be - set (all_refs be)"
    using t(4) free_gpu_set [OF inv] by (simp add: avail_def)
  moreover have "refcount (cell h a) = (if a \<in> set table then 1 else refcount (cell (blocks be) a))" for a
    using fun_cong [OF t(6), of a] p' by (simp add: rc_def)
  ultimately show ?thesis using t p' by blast
qed

lemma allocate_single:
  assumes inv: "be_inv be" and g: "seqs g = [(k, a)]" and fresh: "k \<notin> set (keys (block_tables be))"
    and n: "get_logical_token_blocks (st a) \<le> get_num_free_blocks (gpu_allocator be)"
  shows "\<exists>table al h. BlockEngine_allocate st g be =
        Inr (be\<lparr>gpu_allocator := al, blocks := h, block_tables := block_tables be @ [(k, table)]\<rparr>)
     \<and> be_inv (be\<lparr>gpu_allocator := al, blocks := h, block_tables := block_tables be @ [(k, table)]\<rparr>)
     \<and> length table = get_logical_token_blocks (st a) \<and> distinct table
     \<and> set table \<subseteq> gpu_range be - set (all_refs be) \<and> next_addr h = next_addr (blocks be)"
proof -
  obtain table al h where t:
      "collectE (get_logical_token_blocks (st a)) Allocator_allocate (gpu_allocator be, blocks be) = Inr (table, al, h)"
      "length table = get_logical_token_blocks (st a)" "distinct table"
      "set table \<subseteq> gpu_range be - set (all_refs be)" "same_blocks (blocks be) h" "pool_ok (gpu_range be) (al, h)"
      "\<And>a. refcount (cell h a) = (if a \<in> set table then 1 else refcount (cell (blocks be) a))"
    using collect_gpu_blocks [OF inv] n unfolding get_num_free_blocks_def by metis
  let ?t = "block_tables be @ [(k, table)]"
  have eq: "BlockEngine_allocate st g be = Inr (be\<lparr>gpu_allocator := al, blocks := h, block_tables := ?t\<rparr>)"
    using t(1) fresh
    by (simp add: BlockEngine_allocate_def get_total_logical_token_blocks_def g keys_update_absent)
  have refs: "concat (vals ?t) = all_refs be @ table"
    by (simp add: all_refs_def)
  have "be_inv (be\<lparr>gpu_allocator := al, blocks := h, block_tables := ?t\<rparr>)"
  proof (rule be_inv_gpu_step [OF inv t(5,6)])
    show "refcount (cell h a) = refcount (cell (blocks be) a)" if "a \<in> cpu_range be" for a
      using t(4,7) that by auto
    show "distinct (keys ?t)" using be_invD(1) [OF inv] fresh by simp
    show "set (concat (vals ?t)) \<subseteq> {..<next_addr (blocks be)}"
      using be_invD(3,8) [OF inv] t(4) unfolding refs by auto
    show "refcount (cell h a) = count_list (concat (vals ?t)) a" if "a < next_addr (blocks be)" for a
      using be_invD(4) [OF inv that] t(3,4,7) not_in_refs_count [of a be] unfolding refs
      by (auto simp: count_list_distinct)
  qed
  then show ?thesis
    using eq t(2,3,4,5) by (auto simp: same_blocks_def)
qed

lemma allocate_exhausted:
  assumes "be_inv be" "get_num_free_blocks (gpu_allocator be) < get_total_logical_token_blocks st g"
  shows "BlockEngine_allocate st g be = Inl (Panic UnwrapNone)"
  using block_pool.alloc_many_exhausted [OF be_invD(5) [OF assms(1)]] card_avail [OF be_invD(5) [OF assms(1)]]
    assms(2) by (simp add: BlockEngine_allocate_def get_num_free_blocks_def)

subsection \<open>Freeing a table\<close>

text \<open>Every block is marked as a GPU block, so the loop of \<open>free_sequence\<close> uses the GPU allocator only.\<close>

lemma free_table_blocks_gpu:
  assumes "ids_ok ng (blocks be)" "held (blocks be) = []" "set bs \<subseteq> {..<next_addr (blocks be)}"
  shows "foldE free_table_block be bs =
    bindE (foldE Allocator_free_block (gpu_allocator be, blocks be) bs) (\<lambda>(al, h).
      Inr (be\<lparr>gpu_allocator := al, blocks := h\<rparr>))"
  using assms
proof (induction bs arbitrary: be)
  case Nil
  then show ?case by simp
next
  case (Cons b bs)
  have gpu: "deref_block (blocks be) b = Inr (cell (blocks be) b)" "is_gpu (cell (blocks be) b)"
    using Cons.prems by (auto simp: deref_block_def ids_ok_def)
  show ?case
  proof (cases "Allocator_free_block (gpu_allocator be, blocks be) b")
    case (Inl e)
    then show ?thesis using gpu by (simp add: free_table_block_def)
  next
    case (Inr p)
    obtain al h where p: "p = (al, h)" by (cases p)
    have same: "same_blocks (blocks be) h" using free_block_same Inr p by blast
    let ?be1 = "be\<lparr>gpu_allocator := al, blocks := h\<rparr>"
    have "foldE free_table_block ?be1 bs =
        bindE (foldE Allocator_free_block (gpu_allocator ?be1, blocks ?be1) bs) (\<lambda>(al, h).
          Inr (?be1\<lparr>gpu_allocator := al, blocks := h\<rparr>))"
      using Cons.prems same by (intro Cons.IH) (auto simp: same_blocks_def intro: ids_ok_same)
    then show ?thesis
      using gpu Inr p by (simp add: free_table_block_def [of be b])
  qed
qed

lemma count_list_split:
  "block_tables be = xs @ (k, table) # ys \<Longrightarrow>
   count_list (all_refs be) a = count_list (concat (vals (xs @ ys))) a + count_list table a"
  by (simp add: all_refs_def)

text \<open>The blocks of a table go back to the GPU pool: each count drops by the uses in that table.\<close>

lemma release_table:
  assumes inv: "be_inv be" and bt: "block_tables be = xs @ (k, table) # ys" and gpu: "set table \<subseteq> gpu_range be"
  shows "\<exists>al h. foldE Allocator_free_block (gpu_allocator be, blocks be) table = Inr (al, h)
     \<and> pool_ok (gpu_range be) (al, h) \<and> same_blocks (blocks be) h
     \<and> (\<forall>a. refcount (cell h a) = refcount (cell (blocks be) a) - count_list table a)"
proof -
  let ?p = "(gpu_allocator be, blocks be)"
  have sub: "set table \<subseteq> {..<next_addr (blocks be)}"
    using gpu be_invD(8) [OF inv] by auto
  have le: "\<forall>a. count_list table a \<le> rc ?p a"
  proof
    fix a
    show "count_list table a \<le> rc ?p a"
      using be_invD(4) [OF inv, of a] count_list_split [OF bt, of a] sub
      by (cases "a \<in> set table") (auto simp: rc_def count_list_0_iff)
  qed
  obtain p' where p': "foldE Allocator_free_block ?p table = Inr p'" "pool_ok (gpu_range be) p'"
      "rc p' = (\<lambda>a. rc ?p a - count_list table a)"
    using block_pool.release_many [OF be_invD(5) [OF inv] gpu le] by blast
  obtain al h where ah: "p' = (al, h)" by (cases p')
  have "refcount (cell h a) = refcount (cell (blocks be) a) - count_list table a" for a
    using fun_cong [OF p'(3), of a] ah by (simp add: rc_def)
  then show ?thesis using p'(1,2) ah fold_free_same by blast
qed

lemma free_sequence_ok:
  assumes inv: "be_inv be" and tab: "map_of (block_tables be) (seq_id s) = Some table"
    and gpu: "set table \<subseteq> gpu_range be"
  shows "\<exists>al h. free_sequence s be =
       Inr (be\<lparr>gpu_allocator := al, blocks := h, block_tables := AList.delete (seq_id s) (block_tables be)\<rparr>)
     \<and> be_inv (be\<lparr>gpu_allocator := al, blocks := h, block_tables := AList.delete (seq_id s) (block_tables be)\<rparr>)
     \<and> next_addr h = next_addr (blocks be)"
proof -
  obtain xs ys where bt: "block_tables be = xs @ (seq_id s, table) # ys"
    using map_of_split [OF tab] by blast
  note dist = be_invD(1) [OF inv]
  have del: "AList.delete (seq_id s) (block_tables be) = xs @ ys"
    using delete_split dist bt by metis
  obtain al h where h: "foldE Allocator_free_block (gpu_allocator be, blocks be) table = Inr (al, h)"
      "pool_ok (gpu_range be) (al, h)" "same_blocks (blocks be) h"
      "\<And>a. refcount (cell h a) = refcount (cell (blocks be) a) - count_list table a"
    using release_table [OF inv bt gpu] by blast
  have sub: "set table \<subseteq> {..<next_addr (blocks be)}"
    using gpu be_invD(8) [OF inv] by auto
  have eq: "free_sequence s be = Inr (be\<lparr>gpu_allocator := al, blocks := h, block_tables := xs @ ys\<rparr>)"
    using tab h(1) del free_table_blocks_gpu [OF be_invD(2,7) [OF inv] sub] by (simp add: free_sequence_def)
  have "be_inv (be\<lparr>gpu_allocator := al, blocks := h, block_tables := xs @ ys\<rparr>)"
  proof (rule be_inv_gpu_step [OF inv h(3,2)])
    show "refcount (cell h a) = refcount (cell (blocks be) a)" if "a \<in> cpu_range be" for a
      using that gpu h(4) [of a] count_notin [of a table] by fastforce
    show "distinct (keys (xs @ ys))" using dist bt by auto
    show "set (concat (vals (xs @ ys))) \<subseteq> {..<next_addr (blocks be)}"
      using be_invD(3) [OF inv] bt by (auto simp: all_refs_def)
    show "refcount (cell h a) = count_list (concat (vals (xs @ ys))) a" if "a < next_addr (blocks be)" for a
      using be_invD(4) [OF inv that] count_list_split [OF bt, of a] by (simp add: h(4))
  qed
  then show ?thesis
    using eq del h(3) by (auto simp: same_blocks_def)
qed

subsection \<open>Reserving a slot for the next token\<close>

lemma gpu_allocate_one:
  assumes inv: "be_inv be" and fr: "free_blocks (gpu_allocator be) \<noteq> []"
  shows "\<exists>b al h. Allocator_allocate (gpu_allocator be, blocks be) = Inr (b, al, h)
     \<and> b \<in> gpu_range be - set (all_refs be) \<and> same_blocks (blocks be) h \<and> pool_ok (gpu_range be) (al, h)
     \<and> (\<forall>a. refcount (cell h a) = (if a = b then 1 else refcount (cell (blocks be) a)))"
proof -
  let ?p = "(gpu_allocator be, blocks be)"
  have "avail ?p \<noteq> {}" using fr by (simp add: avail_def)
  then obtain b p' where b: "Allocator_allocate ?p = Inr (b, p')" "b \<in> avail ?p"
      "pool_ok (gpu_range be) p'" "rc p' = (rc ?p)(b := 1)"
    using block_pool.alloc_spare [OF be_invD(5) [OF inv]] by blast
  obtain al h where p': "p' = (al, h)" by (cases p')
  have "refcount (cell h a) = (if a = b then 1 else refcount (cell (blocks be) a))" for a
    using fun_cong [OF b(4), of a] p' by (simp add: rc_def)
  then show ?thesis
    using b p' free_gpu_set [OF inv] allocate_same by (auto simp: avail_def)
qed

lemma update_table:
  assumes "distinct (keys m)" "map_of m k = Some t"
  obtains xs ys where "m = xs @ (k, t) # ys" "\<And>t'. AList.update k t' m = xs @ (k, t') # ys"
    "k \<notin> set (keys (xs @ ys))"
proof -
  obtain xs ys where m: "m = xs @ (k, t) # ys"
    using map_of_split [OF assms(2)] by blast
  have "AList.update k t' m = xs @ (k, t') # ys" for t'
    using update_split assms(1) unfolding m by metis
  then show ?thesis
    by (rule that [OF m]) (use assms(1) m in auto)
qed

text \<open>The last logical block is full (or there is none): a fresh block is pushed.\<close>

lemma append_slot_new:
  assumes inv: "be_inv be" and tab: "map_of (block_tables be) (seq_id s) = Some table"
    and one: "blocks_to_add_new_tok s = 1" and fr: "free_blocks (gpu_allocator be) \<noteq> []"
  shows "\<exists>b al h. append_token_slot_to_seq s be = Inr (None, be\<lparr>gpu_allocator := al, blocks := h,
        block_tables := AList.update (seq_id s) (table @ [b]) (block_tables be)\<rparr>)
     \<and> be_inv (be\<lparr>gpu_allocator := al, blocks := h,
        block_tables := AList.update (seq_id s) (table @ [b]) (block_tables be)\<rparr>)
     \<and> b \<in> gpu_range be - set (all_refs be) \<and> next_addr h = next_addr (blocks be)"
proof -
  obtain b al h where b: "Allocator_allocate (gpu_allocator be, blocks be) = Inr (b, al, h)"
      "b \<in> gpu_range be - set (all_refs be)" "same_blocks (blocks be) h" "pool_ok (gpu_range be) (al, h)"
      "\<And>a. refcount (cell h a) = (if a = b then 1 else refcount (cell (blocks be) a))"
    using gpu_allocate_one [OF inv fr] by blast
  obtain xs ys where m: "block_tables be = xs @ (seq_id s, table) # ys"
      "\<And>t'. AList.update (seq_id s) t' (block_tables be) = xs @ (seq_id s, t') # ys"
    using update_table [OF be_invD(1) [OF inv] tab] by metis
  have "be_inv (be\<lparr>gpu_allocator := al, blocks := h, block_tables := xs @ (seq_id s, table @ [b]) # ys\<rparr>)"
  proof (rule be_inv_gpu_step [OF inv b(3,4)])
    show "refcount (cell h a) = refcount (cell (blocks be) a)" if "a \<in> cpu_range be" for a
      using b(2,5) that by auto
    show "distinct (keys (xs @ (seq_id s, table @ [b]) # ys))"
      using be_invD(1) [OF inv] m(1) by simp
    show "set (concat (vals (xs @ (seq_id s, table @ [b]) # ys))) \<subseteq> {..<next_addr (blocks be)}"
      using be_invD(3,8) [OF inv] m(1) b(2) by (auto simp: all_refs_def)
    show "refcount (cell h a) = count_list (concat (vals (xs @ (seq_id s, table @ [b]) # ys))) a"
      if "a < next_addr (blocks be)" for a
      using be_invD(4) [OF inv that] b(2,5) not_in_refs_count [of a be] m(1)
      by (auto simp: all_refs_def)
  qed
  then show ?thesis
    using b tab one m(2) by (auto simp: append_token_slot_to_seq_def same_blocks_def)
qed

text \<open>The last block has room and belongs to this sequence alone: nothing changes.\<close>

lemma append_slot_owned:
  assumes inv: "be_inv be" and tab: "map_of (block_tables be) (seq_id s) = Some table"
    and zero: "blocks_to_add_new_tok s = 0" and ne: "table \<noteq> []"
    and own: "count_list (all_refs be) (last table) = 1"
  shows "append_token_slot_to_seq s be = Inr (None, be)"
proof -
  have "last table \<in> set (all_refs be)"
    using tab ne by (force simp: all_refs_def dest: map_of_SomeD)
  then have lt: "last table < next_addr (blocks be)"
    using be_invD(3) [OF inv] by auto
  then have "is_gpu (cell (blocks be) (last table))" "refcount (cell (blocks be) (last table)) = 1"
    using be_invD(2,4) [OF inv] own by (auto simp: ids_ok_def)
  then show ?thesis
    using tab zero ne be_invD(7) [OF inv]
    by (simp add: append_token_slot_to_seq_def deref_block_def assertE_def)
qed

text \<open>The last block has room but is shared: it is replaced by a fresh block (copy on write).\<close>

lemma cow_blocks:
  assumes inv: "be_inv be" and gl: "l \<in> gpu_range be" and shared: "1 < count_list (all_refs be) l"
    and fr: "free_blocks (gpu_allocator be) \<noteq> []"
  shows "\<exists>b al h al' h'. Allocator_allocate (gpu_allocator be, blocks be) = Inr (b, al, h)
     \<and> Allocator_free_block (al, h) l = Inr (al', h') \<and> b \<in> gpu_range be - set (all_refs be) \<and> b \<noteq> l
     \<and> same_blocks (blocks be) h' \<and> pool_ok (gpu_range be) (al', h')
     \<and> (\<forall>a. refcount (cell h' a) = (if a = b then 1 else if a = l then refcount (cell (blocks be) l) - 1
                                    else refcount (cell (blocks be) a)))"
proof -
  obtain b al h where b: "Allocator_allocate (gpu_allocator be, blocks be) = Inr (b, al, h)"
      "b \<in> gpu_range be - set (all_refs be)" "same_blocks (blocks be) h" "pool_ok (gpu_range be) (al, h)"
      "\<And>a. refcount (cell h a) = (if a = b then 1 else refcount (cell (blocks be) a))"
    using gpu_allocate_one [OF inv fr] by blast
  have lref: "l \<in> set (all_refs be)"
    using shared by (metis count_notin less_nat_zero_code)
  then have lb: "b \<noteq> l" and lt: "l < next_addr (blocks be)"
    using b(2) be_invD(3) [OF inv] by auto
  have "0 < rc (al, h) l"
    using shared lb be_invD(4) [OF inv lt] lref b(5) [of l] by (simp add: rc_def)
  then obtain p' where p': "Allocator_free_block (al, h) l = Inr p'" "pool_ok (gpu_range be) p'"
      "rc p' = (rc (al, h))(l := rc (al, h) l - 1)"
    using block_pool.release_counted [OF b(4) gl] by blast
  obtain al' h' where ah: "p' = (al', h')" by (cases p')
  have "refcount (cell h' a) = (if a = b then 1 else if a = l then refcount (cell (blocks be) l) - 1
      else refcount (cell (blocks be) a))" for a
    using fun_cong [OF p'(3), of a] ah b(5) lb by (auto simp: rc_def)
  moreover have "same_blocks (blocks be) h'"
    using free_block_same p'(1) ah b(3) same_blocks_trans by blast
  ultimately show ?thesis using b(1,2) lb p'(1,2) ah by blast
qed

lemma replace_last_count:
  assumes m: "block_tables be = xs @ (k, table) # ys" and ne: "table \<noteq> []" and b: "b \<notin> set (all_refs be)"
  shows "count_list (concat (vals (xs @ (k, butlast table @ [b]) # ys))) a =
    (if a = b then 1 else if a = last table then count_list (all_refs be) a - 1 else count_list (all_refs be) a)"
proof -
  obtain t0 where t0: "table = t0 @ [last table]" using ne by (metis append_butlast_last_id)
  have refs: "all_refs be = concat (vals xs) @ (t0 @ [last table]) @ concat (vals ys)"
    unfolding all_refs_def m by (subst t0) simp
  have "butlast table = t0" using t0 by (metis butlast_snoc)
  moreover have "count_list (concat (vals xs)) b = 0" "count_list t0 b = 0" "count_list (concat (vals ys)) b = 0" "last table \<noteq> b"
    using b unfolding refs by (simp_all add: count_list_0_iff)
  ultimately show ?thesis unfolding refs by auto
qed

lemma append_slot_cow:
  assumes inv: "be_inv be" and tab: "map_of (block_tables be) (seq_id s) = Some table"
    and zero: "blocks_to_add_new_tok s = 0" and ne: "table \<noteq> []" and gl: "last table \<in> gpu_range be"
    and shared: "1 < count_list (all_refs be) (last table)" and fr: "free_blocks (gpu_allocator be) \<noteq> []"
  shows "\<exists>b al h. append_token_slot_to_seq s be = Inr (Some (last table, b), be\<lparr>gpu_allocator := al, blocks := h,
        block_tables := AList.update (seq_id s) (butlast table @ [b]) (block_tables be)\<rparr>)
     \<and> be_inv (be\<lparr>gpu_allocator := al, blocks := h,
        block_tables := AList.update (seq_id s) (butlast table @ [b]) (block_tables be)\<rparr>)
     \<and> b \<in> gpu_range be - set (all_refs be) \<and> next_addr h = next_addr (blocks be)"
proof -
  let ?l = "last table"
  obtain b al h al' h' where b: "Allocator_allocate (gpu_allocator be, blocks be) = Inr (b, al, h)"
      "Allocator_free_block (al, h) ?l = Inr (al', h')" "b \<in> gpu_range be - set (all_refs be)" "b \<noteq> ?l"
      "same_blocks (blocks be) h'" "pool_ok (gpu_range be) (al', h')"
      "\<And>a. refcount (cell h' a) = (if a = b then 1 else if a = ?l then refcount (cell (blocks be) ?l) - 1
                                    else refcount (cell (blocks be) a))"
    using cow_blocks [OF inv gl shared fr] by blast
  obtain xs ys where m: "block_tables be = xs @ (seq_id s, table) # ys"
      "\<And>t'. AList.update (seq_id s) t' (block_tables be) = xs @ (seq_id s, t') # ys"
    using update_table [OF be_invD(1) [OF inv] tab] by metis
  have lt: "?l < next_addr (blocks be)" using gl be_invD(8) [OF inv] by simp
  have inv': "be_inv (be\<lparr>gpu_allocator := al', blocks := h', block_tables := xs @ (seq_id s, butlast table @ [b]) # ys\<rparr>)"
  proof (rule be_inv_gpu_step [OF inv b(5,6)])
    show "refcount (cell h' a) = refcount (cell (blocks be) a)" if "a \<in> cpu_range be" for a
      using b(3) gl that by (auto simp: b(7))
    show "distinct (keys (xs @ (seq_id s, butlast table @ [b]) # ys))"
      using be_invD(1) [OF inv] m(1) by simp
    show "set (concat (vals (xs @ (seq_id s, butlast table @ [b]) # ys))) \<subseteq> {..<next_addr (blocks be)}"
      using be_invD(3,8) [OF inv] m(1) b(3) by (auto simp: all_refs_def dest: in_set_butlastD)
    show "refcount (cell h' a) = count_list (concat (vals (xs @ (seq_id s, butlast table @ [b]) # ys))) a"
      if "a < next_addr (blocks be)" for a
      using be_invD(4) [OF inv that] replace_last_count [OF m(1) ne, of b a] b(3) by (auto simp: b(7))
  qed
  have "held h' = []" "block_id (cell h' ?l) = ?l" "block_id (cell h' b) = b"
    using be_invD(2,7) [OF inv] b(3,5) gl by (auto simp: ids_ok_def same_blocks_def)
  then have "append_token_slot_to_seq s be = Inr (Some (?l, b), be\<lparr>gpu_allocator := al', blocks := h',
      block_tables := xs @ (seq_id s, butlast table @ [b]) # ys\<rparr>)"
    using tab zero ne be_invD(2,7) [OF inv] b(1,2) m(2) shared be_invD(4) [OF inv lt] lt
    by (simp add: append_token_slot_to_seq_def deref_block_def assertE_def ids_ok_def)
  then show ?thesis
    using inv' b(3,5) m(2) by (auto simp: same_blocks_def)
qed

end
