(* ===== verification/Block_Swap.thy ===== *)
theory Block_Swap
  imports Block_Tables
begin

section \<open>Swapping tables out\<close>

text \<open>
  \<open>swap_out\<close> for sequences that own their blocks: block by block, table by table, and for the sequences of a group.
\<close>

text \<open>A guard on another block does not disturb an allocation.\<close>

lemma allocate_held:
  assumes "Allocator_allocate (al, h) = Inr (b, al', h')" "held h = []" "a \<noteq> b"
  shows "Allocator_allocate (al, h\<lparr>held := [a]\<rparr>) = Inr (b, al', h'\<lparr>held := [a]\<rparr>)"
  using assms by (auto simp: Allocator_allocate_def bindE_Inr_iff set_refcount_def)

lemma cpu_allocate_one:
  assumes pool: "pool_ok P (al, h)" and fr: "free_blocks al \<noteq> []"
  shows "\<exists>b al' h'. Allocator_allocate (al, h) = Inr (b, al', h') \<and> b \<in> set (free_blocks al)
     \<and> free_blocks al = free_blocks al' @ [b] \<and> same_blocks h h' \<and> pool_ok P (al', h')
     \<and> (\<forall>a. refcount (cell h' a) = (if a = b then 1 else refcount (cell h a)))"
proof -
  obtain b p' where b: "Allocator_allocate (al, h) = Inr (b, p')" "pool_ok P p'" "rc p' = (rc (al, h))(b := 1)"
    using block_pool.alloc_spare [OF pool] fr by (auto simp: avail_def)
  obtain al' h' where p': "p' = (al', h')" by (cases p')
  have "free_blocks al = free_blocks al' @ [b]"
    using b(1) p' by (auto simp: Allocator_allocate_def bindE_Inr_iff vec_pop_Some_iff)
  moreover have "refcount (cell h' a) = (if a = b then 1 else refcount (cell h a))" for a
    using fun_cong [OF b(3), of a] p' by (simp add: rc_def)
  ultimately show ?thesis
    using b p' allocate_same by auto
qed

text \<open>What the swap loop needs of a state, and what it leaves.\<close>

definition swap_ready :: "BlockEngine \<Rightarrow> (nat, addr) hash_map \<Rightarrow> block_table \<Rightarrow> bool" where
  "swap_ready be m t \<longleftrightarrow> ids_ok (num_gpu_blocks be) (blocks be)
     \<and> pool_ok (gpu_range be) (gpu_allocator be, blocks be) \<and> pool_ok (cpu_range be) (cpu_allocator be, blocks be)
     \<and> distinct t \<and> set t \<subseteq> gpu_range be \<and> (\<forall>a \<in> set t. 0 < refcount (cell (blocks be) a))
     \<and> set t \<inter> set (keys m) = {} \<and> length t \<le> length (free_blocks (cpu_allocator be))"

text \<open>One block moves: a block of the CPU pool is taken, and the reference to the GPU block given up.\<close>

lemma move_block:
  assumes ready: "swap_ready be m (a # t)"
  shows "\<exists>c cpu h1 gpu h. Allocator_allocate (cpu_allocator be, blocks be) = Inr (c, cpu, h1)
     \<and> Allocator_free_block (gpu_allocator be, h1) a = Inr (gpu, h) \<and> a \<noteq> c \<and> held h1 = []
     \<and> free_blocks (cpu_allocator be) = free_blocks cpu @ [c] \<and> same_blocks (blocks be) h
     \<and> pool_ok (gpu_range be) (gpu, h) \<and> pool_ok (cpu_range be) (cpu, h)
     \<and> (\<forall>x. refcount (cell h x) = (if x = c then 1 else if x = a then refcount (cell (blocks be) a) - 1
                                   else refcount (cell (blocks be) x)))"
proof -
  let ?h = "blocks be"
  note r = ready [unfolded swap_ready_def]
  have held: "held ?h = []" using r by (simp add: pool_ok_def)
  have fr: "free_blocks (cpu_allocator be) \<noteq> []" using r by auto
  obtain c cpu h1 where c: "Allocator_allocate (cpu_allocator be, ?h) = Inr (c, cpu, h1)"
      "c \<in> set (free_blocks (cpu_allocator be))" "free_blocks (cpu_allocator be) = free_blocks cpu @ [c]"
      "same_blocks ?h h1" "pool_ok (cpu_range be) (cpu, h1)"
      "\<And>x. refcount (cell h1 x) = (if x = c then 1 else refcount (cell ?h x))"
    using cpu_allocate_one [of "cpu_range be" "cpu_allocator be" ?h] fr r by blast
  have cr: "c \<in> cpu_range be" using c(2) r by (auto simp: pool_ok_def)
  have ar: "a \<in> gpu_range be" using r by simp
  then have ac: "a \<noteq> c" using cr by auto
  have held1: "held h1 = []" using c(4) held by (simp add: same_blocks_def)
  have pool1: "pool_ok (gpu_range be) (gpu_allocator be, h1)"
    by (rule pool_ok_frame [of _ _ ?h]) (use r held1 c(6) cr in auto)
  have "0 < rc (gpu_allocator be, h1) a" using r c(6) ac by (simp add: rc_def)
  then obtain p' where p': "Allocator_free_block (gpu_allocator be, h1) a = Inr p'" "pool_ok (gpu_range be) p'"
      "rc p' = (rc (gpu_allocator be, h1))(a := rc (gpu_allocator be, h1) a - 1)"
    using block_pool.release_counted [OF pool1 ar] by blast
  obtain gpu h where gh: "p' = (gpu, h)" by (cases p')
  have same: "same_blocks ?h h" using free_block_same p'(1) gh c(4) same_blocks_trans by blast
  have rch: "refcount (cell h x) = (if x = c then 1 else if x = a then refcount (cell ?h a) - 1
      else refcount (cell ?h x))" for x
    using fun_cong [OF p'(3), of x] gh c(6) ac by (auto simp: rc_def)
  have "pool_ok (cpu_range be) (cpu, h)"
    by (rule pool_ok_frame [OF c(5)]) (use same held ar rch c(6) in \<open>auto simp: same_blocks_def\<close>)
  then show ?thesis using c(1,3) p'(1,2) gh ac held1 same rch by blast
qed

lemma swap_out_block_ok:
  assumes ready: "swap_ready be m (a # t)"
  shows "\<exists>c gpu cpu h. swap_out_block (be, m, nt) a =
       Inr (be\<lparr>gpu_allocator := gpu, cpu_allocator := cpu, blocks := h\<rparr>, m @ [(a, c)], nt @ [c])
     \<and> swap_ready (be\<lparr>gpu_allocator := gpu, cpu_allocator := cpu, blocks := h\<rparr>) (m @ [(a, c)]) t
     \<and> free_blocks (cpu_allocator be) = free_blocks cpu @ [c] \<and> same_blocks (blocks be) h
     \<and> (\<forall>x. refcount (cell h x) = (if x = c then 1 else if x = a then refcount (cell (blocks be) a) - 1
                                   else refcount (cell (blocks be) x)))"
proof -
  note r = ready [unfolded swap_ready_def]
  obtain c cpu h1 gpu h where mv: "Allocator_allocate (cpu_allocator be, blocks be) = Inr (c, cpu, h1)"
      "Allocator_free_block (gpu_allocator be, h1) a = Inr (gpu, h)" "a \<noteq> c" "held h1 = []"
      "free_blocks (cpu_allocator be) = free_blocks cpu @ [c]" "same_blocks (blocks be) h"
      "pool_ok (gpu_range be) (gpu, h)" "pool_ok (cpu_range be) (cpu, h)"
      "\<And>x. refcount (cell h x) = (if x = c then 1 else if x = a then refcount (cell (blocks be) a) - 1
                                   else refcount (cell (blocks be) x))"
    using move_block [OF ready] by blast
  let ?be' = "be\<lparr>gpu_allocator := gpu, cpu_allocator := cpu, blocks := h\<rparr>"
  have held: "held (blocks be) = []" and bid: "block_id (cell (blocks be) a) = a" and am: "a \<notin> set (keys m)"
    using r by (auto simp: pool_ok_def ids_ok_def)
  have "unlock_block (h1\<lparr>held := [a]\<rparr>) a = h1" using mv(4) by (simp add: unlock_block_def)
  then have eq: "swap_out_block (be, m, nt) a = Inr (?be', m @ [(a, c)], nt @ [c])"
    using held bid am allocate_held [OF mv(1) held mv(3)] mv(2)
    by (simp add: swap_out_block_def lock_block_def keys_update_absent map_of_eq_None_iff [THEN iffD2])
  have nx: "next_addr h = next_addr (blocks be)" using mv(6) by (simp add: same_blocks_def)
  have "swap_ready ?be' (m @ [(a, c)]) t"
    unfolding swap_ready_def
  proof (intro conjI)
    show "ids_ok (num_gpu_blocks ?be') (blocks ?be')" using ids_ok_same [OF _ mv(6)] r by simp
    show "pool_ok (gpu_range ?be') (gpu_allocator ?be', blocks ?be')"
      "pool_ok (cpu_range ?be') (cpu_allocator ?be', blocks ?be')" using mv(7,8) nx by simp_all
    show "distinct t" "set t \<subseteq> gpu_range ?be'" using r by auto
    show "\<forall>x \<in> set t. 0 < refcount (cell (blocks ?be') x)" using r mv(9) by auto
    show "set t \<inter> set (keys (m @ [(a, c)])) = {}" using r by auto
    show "length t \<le> length (free_blocks (cpu_allocator ?be'))" using r mv(5) by simp
  qed
  then show ?thesis using eq mv(5,6,9) by blast
qed

lemma swap_out_blocks_ok:
  "swap_ready be m t \<Longrightarrow>
   \<exists>cs gpu cpu h. foldE swap_out_block (be, m, nt) t =
       Inr (be\<lparr>gpu_allocator := gpu, cpu_allocator := cpu, blocks := h\<rparr>, m @ zip t cs, nt @ cs)
     \<and> swap_ready (be\<lparr>gpu_allocator := gpu, cpu_allocator := cpu, blocks := h\<rparr>) (m @ zip t cs) []
     \<and> length cs = length t \<and> free_blocks (cpu_allocator be) = free_blocks cpu @ rev cs
     \<and> same_blocks (blocks be) h
     \<and> (\<forall>x. refcount (cell h x) = (if x \<in> set cs then 1 else if x \<in> set t then refcount (cell (blocks be) x) - 1
                                   else refcount (cell (blocks be) x)))"
proof (induction t arbitrary: be m nt)
  case Nil
  then show ?case
    by (intro exI [of _ "[]"] exI [of _ "gpu_allocator be"] exI [of _ "cpu_allocator be"] exI [of _ "blocks be"]) simp
next
  case (Cons a t)
  obtain c gpu cpu h where s1: "swap_out_block (be, m, nt) a =
        Inr (be\<lparr>gpu_allocator := gpu, cpu_allocator := cpu, blocks := h\<rparr>, m @ [(a, c)], nt @ [c])"
      "swap_ready (be\<lparr>gpu_allocator := gpu, cpu_allocator := cpu, blocks := h\<rparr>) (m @ [(a, c)]) t"
      "free_blocks (cpu_allocator be) = free_blocks cpu @ [c]" "same_blocks (blocks be) h"
      "\<And>x. refcount (cell h x) = (if x = c then 1 else if x = a then refcount (cell (blocks be) a) - 1
                                   else refcount (cell (blocks be) x))"
    using swap_out_block_ok [OF Cons.prems] by blast
  let ?be1 = "be\<lparr>gpu_allocator := gpu, cpu_allocator := cpu, blocks := h\<rparr>"
  obtain cs gpu' cpu' h' where s2: "foldE swap_out_block (?be1, m @ [(a, c)], nt @ [c]) t =
        Inr (?be1\<lparr>gpu_allocator := gpu', cpu_allocator := cpu', blocks := h'\<rparr>, (m @ [(a, c)]) @ zip t cs, (nt @ [c]) @ cs)"
      "swap_ready (?be1\<lparr>gpu_allocator := gpu', cpu_allocator := cpu', blocks := h'\<rparr>) ((m @ [(a, c)]) @ zip t cs) []"
      "length cs = length t" "free_blocks (cpu_allocator ?be1) = free_blocks cpu' @ rev cs"
      "same_blocks (blocks ?be1) h'"
      "\<And>x. refcount (cell h' x) = (if x \<in> set cs then 1 else if x \<in> set t then refcount (cell (blocks ?be1) x) - 1
                                   else refcount (cell (blocks ?be1) x))"
    using Cons.IH [OF s1(2), of "nt @ [c]"] by blast
  have d: "distinct (free_blocks (cpu_allocator be))" "a \<notin> set t" "set (a # t) \<subseteq> gpu_range be"
      "set (free_blocks (cpu_allocator be)) \<subseteq> cpu_range be"
    using Cons.prems by (auto simp: swap_ready_def pool_ok_def)
  have cc: "set (c # cs) \<subseteq> cpu_range be" "c \<notin> set cs"
    using d(1,4) s1(3) s2(4) by auto
  have "refcount (cell h' x) = (if x \<in> set (c # cs) then 1 else if x \<in> set (a # t)
      then refcount (cell (blocks be) x) - 1 else refcount (cell (blocks be) x))" for x
    using s2(6) [of x] s1(5) [of x] d(2,3) cc by (auto simp: subset_iff)
  then show ?case
    using s1(1,3,4) s2
    by (intro exI [of _ "c # cs"] exI [of _ gpu'] exI [of _ cpu'] exI [of _ h']) (auto intro: same_blocks_trans)
qed

lemma count_list_le_1_distinct: "(\<And>a. a \<in> set t \<Longrightarrow> count_list t a \<le> 1) \<Longrightarrow> distinct t"
  using distinct_count_list_le [of t] by (metis count_notin zero_le_one)

lemma swapped_table_inv:
  assumes inv: "be_inv be" and m: "block_tables be = xs @ (k, t) # ys" and t: "distinct t" "set t \<subseteq> gpu_range be"
    and cs: "set cs \<subseteq> cpu_range be - set (all_refs be)" "distinct cs"
    and ready: "swap_ready (be\<lparr>gpu_allocator := gp, cpu_allocator := cp, blocks := h\<rparr>) m' []" and same: "same_blocks (blocks be) h"
    and cnt: "\<And>x. refcount (cell h x) = (if x \<in> set cs then 1 else if x \<in> set t then refcount (cell (blocks be) x) - 1
                                   else refcount (cell (blocks be) x))"
  shows "be_inv (be\<lparr>gpu_allocator := gp, cpu_allocator := cp, blocks := h, block_tables := xs @ (k, cs) # ys\<rparr>)" (is "be_inv ?be'")
proof (rule be_invI)
  have nx: "next_addr h = next_addr (blocks be)" using same by (simp add: same_blocks_def)
  show "distinct (keys (block_tables ?be'))" using be_invD(1) [OF inv] m by simp
  show "ids_ok (num_gpu_blocks ?be') (blocks ?be')" using ready by (simp add: swap_ready_def)
  show "set (all_refs ?be') \<subseteq> {..<next_addr (blocks ?be')}"
    using be_invD(3) [OF inv] m cs nx by (auto simp: all_refs_def)
  show "pool_ok (gpu_range ?be') (gpu_allocator ?be', blocks ?be')"
    "pool_ok (cpu_range ?be') (cpu_allocator ?be', blocks ?be')" using ready by (auto simp: swap_ready_def)
  show "refcount (cell (blocks ?be') a) = count_list (all_refs ?be') a" if "a < next_addr (blocks ?be')" for a
  proof -
    have new: "count_list (all_refs ?be') a = count_list (concat (vals (xs @ ys))) a + count_list cs a"
      by (simp add: all_refs_def)
    have old: "refcount (cell (blocks be) a) = count_list (concat (vals (xs @ ys))) a + count_list t a"
      using be_invD(4) [OF inv, of a] that nx count_list_split [OF m] by simp
    have "a \<in> set cs \<Longrightarrow> count_list (concat (vals (xs @ ys))) a = 0"
      using cs(1) not_in_refs_count [of a be] count_list_split [OF m, of a] by auto
    moreover have "a \<in> set cs \<Longrightarrow> a \<notin> set t" using cs(1) t(2) by fastforce
    ultimately show ?thesis
      using new old cnt [of a] cs(2) t(1) by (auto simp: count_list_distinct)
  qed
qed

lemma swap_out_seq_ok:
  assumes inv: "be_inv be" and tab: "map_of (block_tables be) k = Some t" and gpu: "set t \<subseteq> gpu_range be"
    and own: "\<And>a. a \<in> set t \<Longrightarrow> count_list (all_refs be) a = 1" and fresh: "set t \<inter> set (keys m) = {}"
    and room: "length t \<le> length (free_blocks (cpu_allocator be))"
  shows "\<exists>cs be'. swap_out_seq (be, m) k = Inr (be', m @ zip t cs) \<and> be_inv be'
     \<and> block_tables be' = AList.update k cs (block_tables be) \<and> length cs = length t
     \<and> set cs \<subseteq> cpu_range be - set (all_refs be)
     \<and> num_gpu_blocks be' = num_gpu_blocks be \<and> next_addr (blocks be') = next_addr (blocks be)
     \<and> length (free_blocks (cpu_allocator be)) = length (free_blocks (cpu_allocator be')) + length t"
proof -
  obtain xs ys where m: "block_tables be = xs @ (k, t) # ys"
      "\<And>t'. AList.update k t' (block_tables be) = xs @ (k, t') # ys"
    using update_table [OF be_invD(1) [OF inv] tab] by metis
  have dt: "distinct t"
    by (rule count_list_le_1_distinct) (metis count_list_split [OF m(1)] own add_leD2 le_refl)
  have lt: "a < next_addr (blocks be)" if "a \<in> set t" for a
    using gpu that be_invD(8) [OF inv] by auto
  have "swap_ready be m t"
    using be_invD(2,4,5,6) [OF inv] dt gpu own fresh room lt by (auto simp: swap_ready_def)
  then obtain cs gp cp h where sw: "foldE swap_out_block (be, m, []) t =
        Inr (be\<lparr>gpu_allocator := gp, cpu_allocator := cp, blocks := h\<rparr>, m @ zip t cs, cs)"
      "swap_ready (be\<lparr>gpu_allocator := gp, cpu_allocator := cp, blocks := h\<rparr>) (m @ zip t cs) []"
      "length cs = length t" "free_blocks (cpu_allocator be) = free_blocks cp @ rev cs" "same_blocks (blocks be) h"
      "\<And>x. refcount (cell h x) = (if x \<in> set cs then 1 else if x \<in> set t then refcount (cell (blocks be) x) - 1
                                   else refcount (cell (blocks be) x))"
    using swap_out_blocks_ok [of be m t "[]"] by auto
  have cs: "set cs \<subseteq> cpu_range be - set (all_refs be)" "distinct cs"
    using free_cpu_set [OF inv] sw(4) be_invD(6) [OF inv] by (auto simp: pool_ok_def)
  let ?be' = "be\<lparr>gpu_allocator := gp, cpu_allocator := cp, blocks := h, block_tables := xs @ (k, cs) # ys\<rparr>"
  have "be_inv ?be'" by (rule swapped_table_inv [OF inv m(1) dt gpu cs sw(2,5,6)])
  moreover have "swap_out_seq (be, m) k = Inr (?be', m @ zip t cs)"
    using tab sw(1) m(2) by (simp add: swap_out_seq_def)
  moreover have "next_addr h = next_addr (blocks be)" using sw(5) by (simp add: same_blocks_def)
  ultimately show ?thesis
    using cs sw(3,4) m(2) by (intro exI [of _ cs] exI [of _ ?be']) auto
qed

text \<open>The group as a whole: the loop over its sequences.\<close>

definition own_gpu_table :: "BlockEngine \<Rightarrow> nat \<Rightarrow> bool" where
  "own_gpu_table be k \<longleftrightarrow> (\<exists>t. map_of (block_tables be) k = Some t \<and> set t \<subseteq> gpu_range be
     \<and> (\<forall>a \<in> set t. count_list (all_refs be) a = 1))"

definition table_of :: "BlockEngine \<Rightarrow> nat \<Rightarrow> block_table" where
  "table_of be k = unwrap_or (map_of (block_tables be) k) []"

lemma own_tables_disjoint:
  assumes "be_inv be" "own_gpu_table be k" "k' \<noteq> k"
  shows "set (table_of be k) \<inter> set (table_of be k') = {}"
proof (rule ccontr)
  assume "set (table_of be k) \<inter> set (table_of be k') \<noteq> {}"
  then obtain a where a: "a \<in> set (table_of be k)" "a \<in> set (table_of be k')" by auto
  obtain t where t: "map_of (block_tables be) k = Some t" "\<forall>a \<in> set t. count_list (all_refs be) a = 1"
    using assms(2) by (auto simp: own_gpu_table_def)
  obtain xs ys where m: "block_tables be = xs @ (k, t) # ys" "k \<notin> set (keys (xs @ ys))"
    using update_table [OF be_invD(1) [OF assms(1)] t(1)] by metis
  obtain t' where t': "map_of (block_tables be) k' = Some t'" "a \<in> set t'"
    using a(2) by (cases "map_of (block_tables be) k'") (simp_all add: table_of_def)
  have "(k', t') \<in> set (xs @ ys)"
    using map_of_SomeD [OF t'(1)] m(1) assms(3) by auto
  then have "0 < count_list (concat (vals (xs @ ys))) a"
    using t'(2) by force
  moreover have "0 < count_list t a" using a(1) t(1) by (simp add: table_of_def)
  moreover have "count_list (all_refs be) a = 1" using a(1) t by (simp add: table_of_def)
  ultimately show False using count_list_split [OF m(1), of a] by linarith
qed

lemma own_table_kept:
  assumes inv: "be_inv be" and own: "own_gpu_table be k'" and k: "map_of (block_tables be) k = Some t" "k' \<noteq> k"
    and be': "block_tables be' = AList.update k cs (block_tables be)" "num_gpu_blocks be' = num_gpu_blocks be"
    and cs: "set cs \<inter> gpu_range be = {}"
  shows "own_gpu_table be' k'" "table_of be' k' = table_of be k'"
proof -
  obtain xs ys where m: "block_tables be = xs @ (k, t) # ys"
      "AList.update k cs (block_tables be) = xs @ (k, cs) # ys"
    using update_table [OF be_invD(1) [OF inv] k(1)] by metis
  have same: "map_of (block_tables be') k' = map_of (block_tables be) k'"
    using k(2) by (simp add: be' update_conv')
  then show "table_of be' k' = table_of be k'" by (simp add: table_of_def)
  obtain t' where t': "map_of (block_tables be) k' = Some t'" "set t' \<subseteq> gpu_range be"
      "\<forall>a \<in> set t'. count_list (all_refs be) a = 1"
    using own by (auto simp: own_gpu_table_def)
  have "count_list (all_refs be') a = 1" if a: "a \<in> set t'" for a
  proof -
    have "a \<notin> set cs" using cs t'(2) a by auto
    moreover have "a \<notin> set t"
      using own_tables_disjoint [OF inv own, of k] k a t'(1) by (auto simp: table_of_def)
    moreover have "count_list (all_refs be) a = 1" using t'(3) a by blast
    ultimately show ?thesis
      using m be'(1) by (simp add: all_refs_def)
  qed
  then show "own_gpu_table be' k'"
    using t' same be'(2) by (auto simp: own_gpu_table_def)
qed

lemma swap_out_seqs_ok:
  "be_inv be \<Longrightarrow> distinct ks \<Longrightarrow> (\<And>k. k \<in> set ks \<Longrightarrow> own_gpu_table be k) \<Longrightarrow>
   (\<And>k. k \<in> set ks \<Longrightarrow> set (table_of be k) \<inter> set (keys m) = {}) \<Longrightarrow>
   sum_list (map (\<lambda>k. length (table_of be k)) ks) \<le> length (free_blocks (cpu_allocator be)) \<Longrightarrow>
   \<exists>m' be'. foldE swap_out_seq (be, m) ks = Inr (be', m') \<and> be_inv be'
     \<and> num_gpu_blocks be' = num_gpu_blocks be \<and> next_addr (blocks be') = next_addr (blocks be)
     \<and> (\<forall>k. k \<notin> set ks \<longrightarrow> map_of (block_tables be') k = map_of (block_tables be) k)
     \<and> (\<forall>k \<in> set ks. \<exists>cs. map_of (block_tables be') k = Some cs \<and> length cs = length (table_of be k)
          \<and> set cs \<subseteq> cpu_range be \<and> set (zip (table_of be k) cs) \<subseteq> set m')
     \<and> set m \<subseteq> set m' \<and> keys m' = keys m @ concat (map (table_of be) ks)"
proof (induction ks arbitrary: be m)
  case Nil
  then show ?case by auto
next
  case (Cons k ks)
  obtain t where t: "map_of (block_tables be) k = Some t" "set t \<subseteq> gpu_range be"
      "\<And>a. a \<in> set t \<Longrightarrow> count_list (all_refs be) a = 1"
    using Cons.prems(3) [of k] by (auto simp: own_gpu_table_def)
  have tk: "table_of be k = t" using t(1) by (simp add: table_of_def)
  obtain cs be1 where s1: "swap_out_seq (be, m) k = Inr (be1, m @ zip t cs)" "be_inv be1"
      "block_tables be1 = AList.update k cs (block_tables be)" "length cs = length t"
      "set cs \<subseteq> cpu_range be - set (all_refs be)" "num_gpu_blocks be1 = num_gpu_blocks be"
      "next_addr (blocks be1) = next_addr (blocks be)"
      "length (free_blocks (cpu_allocator be)) = length (free_blocks (cpu_allocator be1)) + length t"
    using swap_out_seq_ok [OF Cons.prems(1) t, of m] Cons.prems(4) [of k] Cons.prems(5) tk by auto
  have disj: "set cs \<inter> gpu_range be = {}" using s1(5) by auto
  have kept: "own_gpu_table be1 k'" "table_of be1 k' = table_of be k'" if "k' \<in> set ks" for k'
    using own_table_kept [OF Cons.prems(1) _ t(1) _ s1(3,6) disj, of k'] that Cons.prems(2,3) by auto
  have fresh: "set (table_of be1 k') \<inter> set (keys (m @ zip t cs)) = {}" if "k' \<in> set ks" for k'
  proof -
    have "set (table_of be k') \<inter> set t = {}"
      using own_tables_disjoint [OF Cons.prems(1) Cons.prems(3) [of k'], of k] that Cons.prems(2) tk by auto
    moreover have "set (table_of be k') \<inter> set (keys m) = {}" using Cons.prems(4) [of k'] that by simp
    ultimately show ?thesis using kept(2) [OF that] s1(4) by (auto simp: set_zip dest!: nth_mem)
  qed
  have eqs: "map (\<lambda>k. length (table_of be1 k)) ks = map (\<lambda>k. length (table_of be k)) ks"
      "map (table_of be1) ks = map (table_of be) ks"
    using kept(2) by auto
  obtain m' be' where s2: "foldE swap_out_seq (be1, m @ zip t cs) ks = Inr (be', m')" "be_inv be'"
      "num_gpu_blocks be' = num_gpu_blocks be1" "next_addr (blocks be') = next_addr (blocks be1)"
      "\<forall>k. k \<notin> set ks \<longrightarrow> map_of (block_tables be') k = map_of (block_tables be1) k"
      "\<forall>k \<in> set ks. \<exists>cs. map_of (block_tables be') k = Some cs \<and> length cs = length (table_of be1 k)
          \<and> set cs \<subseteq> cpu_range be1 \<and> set (zip (table_of be1 k) cs) \<subseteq> set m'"
      "set (m @ zip t cs) \<subseteq> set m'" "keys m' = keys (m @ zip t cs) @ concat (map (table_of be1) ks)"
    using Cons.IH [OF s1(2) _ kept(1) fresh] Cons.prems(2,5) eqs(1) s1(8) tk by auto
  have k1: "map_of (block_tables be1) k = Some cs" by (simp add: s1(3) update_conv')
  have "foldE swap_out_seq (be, m) (k # ks) = Inr (be', m')" using s1(1) s2(1) by simp
  moreover have "\<forall>k'. k' \<notin> set (k # ks) \<longrightarrow> map_of (block_tables be') k' = map_of (block_tables be) k'"
    using s2(5) by (simp add: s1(3) update_conv')
  moreover have "\<forall>k' \<in> set (k # ks). \<exists>cs. map_of (block_tables be') k' = Some cs
      \<and> length cs = length (table_of be k') \<and> set cs \<subseteq> cpu_range be \<and> set (zip (table_of be k') cs) \<subseteq> set m'"
    using s2(5,6,7) k1 s1(4,5,6,7) tk kept(2) Cons.prems(2) by (auto simp: subset_iff)
  moreover have "keys m' = keys m @ concat (map (table_of be) (k # ks))"
    using s2(8) s1(4) tk eqs(2) by simp
  ultimately show ?case using s2(2,3,4,7) s1(6,7) by auto
qed

lemma sum_tables:
  assumes "distinct (keys m)" "distinct ks" "set ks \<subseteq> set (keys m)"
  shows "sum_list (map (\<lambda>(_, t). length t) (filter (\<lambda>(k, _). k \<in> set ks) m)) =
         sum_list (map (\<lambda>k. length (unwrap_or (map_of m k) [])) ks)"
proof -
  let ?f = "\<lambda>k. length (unwrap_or (map_of m k) [])"
  let ?F = "filter (\<lambda>(k, _). k \<in> set ks) m"
  have "map (\<lambda>(_, t). length t) ?F = map ?f (keys ?F)"
    using assms(1) by (auto simp: map_eq_conv)
  moreover have "distinct (keys ?F)" using assms(1) by (rule distinct_map_filter)
  moreover have "set (keys ?F) = set ks" using assms(3) by force
  ultimately show ?thesis
    using assms(2) by (simp only: sum_list_distinct_conv_sum_set)
qed

end
