(* ===== verification/Block_Engine_Properties.thy ===== *)
theory Block_Engine_Properties
  imports Block_Swap
begin

section \<open>What the block engine guarantees\<close>

text \<open>
  The properties of the block engine over the lemmas of \<open>Block_Engine\<close>: its operations keep the
  invariant \<open>be_inv\<close>, return exactly when there are blocks enough, and leave the tables and free
  lists the callers expect; and the cases where the code as written does not do so.
\<close>

lemma free_gpu_after:
  assumes "be_inv be" "be_inv be'" "num_gpu_blocks be' = num_gpu_blocks be"
    "set (all_refs be') = set (all_refs be) \<union> T" "T \<subseteq> gpu_range be - set (all_refs be)"
  shows "get_num_free_blocks (gpu_allocator be) = get_num_free_blocks (gpu_allocator be') + card T"
proof -
  have fin: "finite T" using assms(5) finite_subset by auto
  have "gpu_range be' - set (all_refs be') = (gpu_range be - set (all_refs be)) - T"
    using assms(3,4) by auto
  then have "card (gpu_range be' - set (all_refs be')) = card (gpu_range be - set (all_refs be)) - card T"
    using card_Diff_subset [OF fin assms(5)] by simp
  moreover have "card T \<le> card (gpu_range be - set (all_refs be))"
    using assms(5) by (intro card_mono) auto
  ultimately show ?thesis
    using length_free_gpu [OF assms(1)] length_free_gpu [OF assms(2)] by (simp add: get_num_free_blocks_def)
qed

text \<open>
  C7: for a group of one sequence that has no table yet, \<open>BlockEngine::allocate\<close> returns exactly when
  the GPU free list has a block for every logical block of the sequence.  The sequence then gets a
  table of that many different, previously free blocks, the invariant holds and the free count drops
  by the length of the table; otherwise \<open>Allocator::allocate\<close> unwraps the pop of an empty list.
\<close>

theorem allocate_correct:
  assumes "be_inv be" "seqs g = [(k, a)]" "k \<notin> set (keys (block_tables be))"
  shows "(get_logical_token_blocks (st a) \<le> get_num_free_blocks (gpu_allocator be) \<longrightarrow>
      (\<exists>be' table. BlockEngine_allocate st g be = Inr be' \<and> be_inv be'
         \<and> block_tables be' = block_tables be @ [(k, table)]
         \<and> length table = get_logical_token_blocks (st a) \<and> distinct table
         \<and> set table \<subseteq> set (free_blocks (gpu_allocator be))
         \<and> get_num_free_blocks (gpu_allocator be) = get_num_free_blocks (gpu_allocator be') + length table))
    \<and> (get_num_free_blocks (gpu_allocator be) < get_logical_token_blocks (st a) \<longrightarrow>
         BlockEngine_allocate st g be = Inl (Panic UnwrapNone))"
proof (intro conjI impI)
  assume "get_logical_token_blocks (st a) \<le> get_num_free_blocks (gpu_allocator be)"
  then obtain table al h where t: "BlockEngine_allocate st g be =
        Inr (be\<lparr>gpu_allocator := al, blocks := h, block_tables := block_tables be @ [(k, table)]\<rparr>)"
      "be_inv (be\<lparr>gpu_allocator := al, blocks := h, block_tables := block_tables be @ [(k, table)]\<rparr>)"
      "length table = get_logical_token_blocks (st a)" "distinct table"
      "set table \<subseteq> gpu_range be - set (all_refs be)"
    using allocate_single [OF assms] by blast
  have "get_num_free_blocks (gpu_allocator be) = get_num_free_blocks al + card (set table)"
    using free_gpu_after [OF assms(1) t(2) _ _ t(5)] by (simp add: all_refs_def)
  then show "\<exists>be' table. BlockEngine_allocate st g be = Inr be' \<and> be_inv be'
         \<and> block_tables be' = block_tables be @ [(k, table)]
         \<and> length table = get_logical_token_blocks (st a) \<and> distinct table
         \<and> set table \<subseteq> set (free_blocks (gpu_allocator be))
         \<and> get_num_free_blocks (gpu_allocator be) = get_num_free_blocks (gpu_allocator be') + length table"
    using t free_gpu_set [OF assms(1)] by (intro exI conjI, (assumption | simp add: distinct_card)+)
next
  assume "get_num_free_blocks (gpu_allocator be) < get_logical_token_blocks (st a)"
  then show "BlockEngine_allocate st g be = Inl (Panic UnwrapNone)"
    using allocate_exhausted [OF assms(1)] assms(2) by (simp add: get_total_logical_token_blocks_def)
qed

theorem allocate_correct_witness:
  "(\<exists>be' table. BlockEngine_allocate (\<lambda>i. full_seq i 3) (sample_group [5] 0) (BlockEngine_new 1 4 0) = Inr be'
      \<and> block_tables be' = [(5, table)] \<and> length table = 3)
   \<and> BlockEngine_allocate (\<lambda>i. full_seq i 9) (sample_group [5] 0) (BlockEngine_new 1 4 0) = Inl (Panic UnwrapNone)"
  using allocate_correct [OF be_inv_new [of 1 4 0], of "sample_group [5] 0" 5 5 "\<lambda>i. full_seq i 3"]
    allocate_correct [OF be_inv_new [of 1 4 0], of "sample_group [5] 0" 5 5 "\<lambda>i. full_seq i 9"]
  by auto

text \<open>
  C8: \<open>free_sequence\<close> never double frees in a state that satisfies the invariant: for a sequence whose
  table holds GPU blocks it returns, drops exactly that table, keeps the invariant and puts back on the
  GPU free list exactly the blocks of the table that no other table refers to.
\<close>

theorem free_sequence_correct:
  assumes "be_inv be" "map_of (block_tables be) (seq_id s) = Some table" "set table \<subseteq> gpu_range be"
  shows "\<exists>be'. free_sequence s be = Inr be' \<and> be_inv be'
     \<and> block_tables be' = AList.delete (seq_id s) (block_tables be)
     \<and> set (free_blocks (gpu_allocator be')) = set (free_blocks (gpu_allocator be))
         \<union> {a \<in> set table. count_list table a = count_list (all_refs be) a}"
proof -
  obtain al h where f: "free_sequence s be =
       Inr (be\<lparr>gpu_allocator := al, blocks := h, block_tables := AList.delete (seq_id s) (block_tables be)\<rparr>)"
     "be_inv (be\<lparr>gpu_allocator := al, blocks := h, block_tables := AList.delete (seq_id s) (block_tables be)\<rparr>)"
    using free_sequence_ok [OF assms] by blast
  obtain xs ys where m: "block_tables be = xs @ (seq_id s, table) # ys"
    using map_of_split [OF assms(2)] by blast
  have del: "AList.delete (seq_id s) (block_tables be) = xs @ ys"
    using delete_split be_invD(1) [OF assms(1)] m by metis
  have "set (free_blocks al) = gpu_range be - set (concat (vals (xs @ ys)))"
    using free_gpu_set [OF f(2)] del by (simp add: all_refs_def)
  also have "\<dots> = (gpu_range be - set (all_refs be)) \<union> {a \<in> set table. count_list table a = count_list (all_refs be) a}"
  proof -
    have "count_list table a = count_list (all_refs be) a \<longleftrightarrow> a \<notin> set (concat (vals (xs @ ys)))" for a
      using count_list_split [OF m, of a] count_list_0_iff [of "concat (vals (xs @ ys))" a] by linarith
    moreover have "set (all_refs be) = set (concat (vals (xs @ ys))) \<union> set table"
      using m by (auto simp: all_refs_def)
    ultimately show ?thesis using assms(3) by blast
  qed
  finally show ?thesis
    using f free_gpu_set [OF assms(1)] by (intro exI conjI, (assumption | simp)+)
qed

text \<open>Two tables that share block 0: freeing one keeps it, freeing the other returns it.\<close>

definition shared_engine :: BlockEngine where
  "shared_engine = \<lparr>num_gpu_blocks = 3, gpu_allocator = \<lparr>free_blocks = [2]\<rparr>, cpu_allocator = \<lparr>free_blocks = []\<rparr>,
     block_tables = [(5, [0, 1]), (6, [0])],
     blocks = \<lparr>cell = (\<lambda>a. \<lparr>block_id = a, ptb_block_size = 2,
                 refcount = (if a = 0 then 2 else if a = 1 then 1 else 0), is_gpu = True\<rparr>),
               next_addr = 3, held = []\<rparr>\<rparr>"

lemma be_inv_shared_engine: "be_inv shared_engine"
  by (rule be_invI) (auto simp: shared_engine_def all_refs_def ids_ok_def pool_ok_def)

theorem free_sequence_correct_witness:
  "\<exists>be'. free_sequence (full_seq 5 2) shared_engine = Inr be' \<and> be_inv be'
     \<and> block_tables be' = [(6, [0])] \<and> set (free_blocks (gpu_allocator be')) = {1, 2}"
proof -
  have "\<exists>be'. free_sequence (full_seq 5 2) shared_engine = Inr be' \<and> be_inv be'
     \<and> block_tables be' = AList.delete 5 (block_tables shared_engine)
     \<and> set (free_blocks (gpu_allocator be')) = set (free_blocks (gpu_allocator shared_engine))
         \<union> {a \<in> set [0, 1]. count_list [0, 1] a = count_list (all_refs shared_engine) a}"
    using free_sequence_correct [OF be_inv_shared_engine, of "full_seq 5 2" "[0, 1]"]
    by (auto simp: shared_engine_def)
  moreover have "{a \<in> set [0, 1]. count_list [0, 1] a = count_list (all_refs shared_engine) a} = {1}"
    by (auto simp: shared_engine_def all_refs_def)
  ultimately show ?thesis
    by (auto simp: shared_engine_def insert_commute)
qed

lemma count_refs_update:
  assumes "distinct (keys (block_tables be))" "map_of (block_tables be) k = Some t"
    "block_tables be' = AList.update k t' (block_tables be)"
  shows "count_list (all_refs be') a + count_list t a = count_list (all_refs be) a + count_list t' a"
proof -
  obtain xs ys where "block_tables be = xs @ (k, t) # ys" "AList.update k t' (block_tables be) = xs @ (k, t') # ys"
    using update_table [OF assms(1,2)] by metis
  then show ?thesis using assms(3) by (simp add: all_refs_def)
qed

lemma new_last_block_owned:
  assumes inv: "be_inv be" and tab: "map_of (block_tables be) k = Some table" and b: "b \<notin> set (all_refs be)"
    and be': "block_tables be' = AList.update k (t0 @ [b]) (block_tables be)" and t0: "set t0 \<subseteq> set table"
  shows "count_list (all_refs be') b = 1"
proof -
  have "set table \<subseteq> set (all_refs be)" using map_of_SomeD [OF tab] by (force simp: all_refs_def)
  then have "count_list table b = 0" "count_list t0 b = 0" using b t0 by (auto simp: count_list_0_iff)
  then show ?thesis
    using count_refs_update [OF be_invD(1) [OF inv] tab, of be' "t0 @ [b]" b] be' not_in_refs_count [OF b] by simp
qed

text \<open>
  C9: \<open>append_token_slot_to_seq\<close> prepares the slot of the next token.  With a GPU table (not empty when
  the last logical block has room) and a free block whenever one is needed, it returns and keeps the
  invariant; the table grows by \<open>blocks_to_add_new_tok\<close> blocks, keeps all blocks but a replaced last one,
  and its last block afterwards belongs to this sequence alone; the other tables are unchanged.  The
  returned pair is the copy (old last block, new last block) exactly when a shared block was replaced.
\<close>

theorem append_token_slot_correct:
  assumes inv: "be_inv be" and tab: "map_of (block_tables be) (seq_id s) = Some table"
    and gpu: "set table \<subseteq> gpu_range be" and ne: "blocks_to_add_new_tok s = 0 \<longrightarrow> table \<noteq> []"
    and room: "blocks_to_add_new_tok s = 1 \<or> count_list (all_refs be) (last table) \<noteq> 1 \<longrightarrow>
               0 < get_num_free_blocks (gpu_allocator be)"
  shows "\<exists>op be' table'. append_token_slot_to_seq s be = Inr (op, be') \<and> be_inv be'
     \<and> map_of (block_tables be') (seq_id s) = Some table'
     \<and> (\<forall>k. k \<noteq> seq_id s \<longrightarrow> map_of (block_tables be') k = map_of (block_tables be) k)
     \<and> length table' = length table + blocks_to_add_new_tok s
     \<and> table' \<noteq> [] \<and> count_list (all_refs be') (last table') = 1 \<and> last table' \<in> gpu_range be
     \<and> butlast table' = take (length table' - 1) table
     \<and> op = (if blocks_to_add_new_tok s = 0 \<and> 1 < count_list (all_refs be) (last table)
             then Some (last table, last table') else None)"
proof (cases "blocks_to_add_new_tok s = 1")
  case True
  then have "free_blocks (gpu_allocator be) \<noteq> []" using room by (auto simp: get_num_free_blocks_def)
  then obtain b be' where b: "append_token_slot_to_seq s be = Inr (None, be')" "be_inv be'"
      "block_tables be' = AList.update (seq_id s) (table @ [b]) (block_tables be)" "b \<in> gpu_range be - set (all_refs be)"
    using append_slot_new [OF inv tab True] by fastforce
  moreover have "count_list (all_refs be') b = 1"
    using new_last_block_owned [OF inv tab _ b(3)] b(4) by simp
  ultimately show ?thesis
    using True by (intro exI [of _ None] exI [of _ be'] exI [of _ "table @ [b]"]) (simp add: update_conv')
next
  case False
  then have zero: "blocks_to_add_new_tok s = 0"
    by (auto simp: blocks_to_add_new_tok_def Let_def split: if_splits)
  then have tne: "table \<noteq> []" using ne by simp
  have "last table \<in> set (all_refs be)"
    using tab tne by (force simp: all_refs_def dest: map_of_SomeD)
  then have pos: "0 < count_list (all_refs be) (last table)" by simp
  have lg: "last table \<in> gpu_range be" using gpu last_in_set [OF tne] by auto
  show ?thesis
  proof (cases "count_list (all_refs be) (last table) = 1")
    case True
    then show ?thesis
      using append_slot_owned [OF inv tab zero tne True] inv tab zero tne lg by (simp add: butlast_conv_take)
  next
    case False
    then have shared: "1 < count_list (all_refs be) (last table)" using pos by linarith
    moreover have "free_blocks (gpu_allocator be) \<noteq> []" using room False by (auto simp: get_num_free_blocks_def)
    ultimately obtain b be' where b: "append_token_slot_to_seq s be = Inr (Some (last table, b), be')" "be_inv be'"
        "block_tables be' = AList.update (seq_id s) (butlast table @ [b]) (block_tables be)" "b \<in> gpu_range be - set (all_refs be)"
      using append_slot_cow [OF inv tab zero tne lg] by fastforce
    moreover have "count_list (all_refs be') b = 1"
      using new_last_block_owned [OF inv tab _ b(3)] b(4) in_set_butlastD by fastforce
    ultimately show ?thesis
      using zero shared tne
      by (intro exI [of _ "Some (last table, b)"] exI [of _ be'] exI [of _ "butlast table @ [b]"])
        (simp add: update_conv' butlast_conv_take)
  qed
qed

theorem append_token_slot_correct_witness:
  "\<exists>be' table'. append_token_slot_to_seq (open_seq 6 0) shared_engine = Inr (Some (0, last table'), be')
     \<and> be_inv be' \<and> map_of (block_tables be') 6 = Some table' \<and> length table' = 1
     \<and> count_list (all_refs be') (last table') = 1"
  using append_token_slot_correct [OF be_inv_shared_engine, of "open_seq 6 0" "[0]"]
  by (simp add: shared_engine_def all_refs_def get_num_free_blocks_def) blast

text \<open>
  C16: round trip.  Allocating a table for a new sequence and freeing it again leaves the tables as they
  were and the same blocks on the GPU free list.
\<close>

theorem allocate_free_roundtrip:
  assumes inv: "be_inv be" and g: "seqs g = [(k, a)]" and fresh: "k \<notin> set (keys (block_tables be))"
    and sid: "seq_id (st a) = k"
    and room: "get_logical_token_blocks (st a) \<le> get_num_free_blocks (gpu_allocator be)"
  shows "\<exists>be' be''. BlockEngine_allocate st g be = Inr be' \<and> free_sequence (st a) be' = Inr be''
     \<and> be_inv be'' \<and> block_tables be'' = block_tables be
     \<and> mset (free_blocks (gpu_allocator be'')) = mset (free_blocks (gpu_allocator be))"
proof -
  obtain table al h where t: "BlockEngine_allocate st g be =
        Inr (be\<lparr>gpu_allocator := al, blocks := h, block_tables := block_tables be @ [(k, table)]\<rparr>)"
      "be_inv (be\<lparr>gpu_allocator := al, blocks := h, block_tables := block_tables be @ [(k, table)]\<rparr>)"
      "set table \<subseteq> gpu_range be - set (all_refs be)"
    using allocate_single [OF inv g fresh, of st] room by blast
  let ?be' = "be\<lparr>gpu_allocator := al, blocks := h, block_tables := block_tables be @ [(k, table)]\<rparr>"
  have "map_of (block_tables ?be') (seq_id (st a)) = Some table"
    using fresh sid by (simp add: map_add_def map_of_eq_None_iff [THEN iffD2])
  then obtain al' h' where f: "free_sequence (st a) ?be' =
       Inr (?be'\<lparr>gpu_allocator := al', blocks := h', block_tables := AList.delete (seq_id (st a)) (block_tables ?be')\<rparr>)"
     "be_inv (?be'\<lparr>gpu_allocator := al', blocks := h', block_tables := AList.delete (seq_id (st a)) (block_tables ?be')\<rparr>)"
    using free_sequence_ok [OF t(2), of "st a" table] t(3) by auto
  have del: "AList.delete (seq_id (st a)) (block_tables ?be') = block_tables be"
    using delete_split [of "block_tables be" k table "[]"] be_invD(1) [OF t(2)] sid by simp
  let ?be'' = "be\<lparr>gpu_allocator := al', blocks := h', block_tables := block_tables be\<rparr>"
  have inv'': "be_inv ?be''" using f(2) del by simp
  have "set (free_blocks al') = set (free_blocks (gpu_allocator be))"
    using free_gpu_set [OF inv''] free_gpu_set [OF inv] by (simp add: all_refs_def)
  moreover have "distinct (free_blocks al')" "distinct (free_blocks (gpu_allocator be))"
    using be_invD(5) [OF inv''] be_invD(5) [OF inv] by (auto simp: pool_ok_def)
  ultimately have "mset (free_blocks al') = mset (free_blocks (gpu_allocator be))"
    by (simp add: set_eq_iff_mset_eq_distinct)
  then show ?thesis using t(1) f(1) del inv'' by auto
qed

theorem allocate_free_roundtrip_witness:
  "\<exists>be' be''. BlockEngine_allocate (\<lambda>i. full_seq i 3) (sample_group [5] 0) (BlockEngine_new 1 4 0) = Inr be'
     \<and> free_sequence (full_seq 5 3) be' = Inr be'' \<and> block_tables be'' = []"
  using allocate_free_roundtrip [OF be_inv_new [of 1 4 0], of "sample_group [5] 0" 5 5 "\<lambda>i. full_seq i 3"]
  by auto

text \<open>
  C36: the admission test.  With \<open>used\<close> the number of GPU blocks that some table refers to, \<open>allocate\<close>
  returns exactly when \<open>used + required\<close> is at most the number of GPU blocks.  \<open>can_allocate\<close> however
  compares \<open>required\<close> with \<open>used\<close>: apart from \<open>Impossible\<close> for a request larger than the whole GPU, it answers \<open>Later\<close> when the request is smaller than what is used and
  \<open>Ok\<close> when it is at least that, whether or not the blocks are there.
\<close>

theorem can_allocate_by_used:
  assumes "be_inv be" "used = card (gpu_range be \<inter> set (all_refs be))" "required = get_total_logical_token_blocks st g"
  shows "can_allocate st g be =
       (if required < used then Later else if num_gpu_blocks be < required then Impossible else AllocOk)
    \<and> ((\<exists>be'. BlockEngine_allocate st g be = Inr be') \<longleftrightarrow> used + required \<le> num_gpu_blocks be)"
proof (rule conjI)
  have "card (gpu_range be) = card (gpu_range be \<inter> set (all_refs be)) + card (gpu_range be - set (all_refs be))"
    by (rule card_Int_Diff) simp
  then have total: "num_gpu_blocks be = used + get_num_free_blocks (gpu_allocator be)"
    using length_free_gpu [OF assms(1)] assms(2) by (simp add: get_num_free_blocks_def)
  then show "can_allocate st g be =
       (if required < used then Later else if num_gpu_blocks be < required then Impossible else AllocOk)"
    using assms(3) by (auto simp: can_allocate_def)
  show "(\<exists>be'. BlockEngine_allocate st g be = Inr be') \<longleftrightarrow> used + required \<le> num_gpu_blocks be"
  proof (cases "required \<le> get_num_free_blocks (gpu_allocator be)")
    case True
    then obtain table al h where
      "collectE required Allocator_allocate (gpu_allocator be, blocks be) = Inr (table, al, h)"
      using collect_gpu_blocks [OF assms(1), of required] by (auto simp: get_num_free_blocks_def)
    then show ?thesis using True total assms(3) by (auto simp: BlockEngine_allocate_def)
  next
    case False
    then show ?thesis
      using allocate_exhausted [OF assms(1), of st g] total assms(3) by auto
  qed
qed

text \<open>With two of three blocks used, a request of two is granted and cannot be served, and a request of one is put off.\<close>

theorem can_allocate_by_used_witness:
  "can_allocate (\<lambda>i. full_seq i 2) (sample_group [9] 0) shared_engine = AllocOk
   \<and> \<not> (\<exists>be'. BlockEngine_allocate (\<lambda>i. full_seq i 2) (sample_group [9] 0) shared_engine = Inr be')
   \<and> can_allocate (\<lambda>i. full_seq i 1) (sample_group [9] 0) shared_engine = Later
   \<and> (\<exists>be'. BlockEngine_allocate (\<lambda>i. full_seq i 1) (sample_group [9] 0) shared_engine = Inr be')"
proof -
  have u: "gpu_range shared_engine \<inter> set (all_refs shared_engine) = {0, 1}" "num_gpu_blocks shared_engine = 3"
    by (auto simp: shared_engine_def all_refs_def)
  have c: "2 = card (gpu_range shared_engine \<inter> set (all_refs shared_engine))" by (simp add: u(1))
  have r: "n = get_total_logical_token_blocks (\<lambda>i. full_seq i n) (sample_group [9] 0)" for n
    by (simp add: get_total_logical_token_blocks_def)
  note R = can_allocate_by_used [OF be_inv_shared_engine c]
  from R [OF r [of 2]] R [OF r [of 1]] show ?thesis
    by (simp add: u(2))
qed

subsection \<open>Swapping\<close>

lemma can_swap_out_room:
  assumes "be_inv be" "distinct (keys (seqs g))" "set (keys (seqs g)) \<subseteq> set (keys (block_tables be))"
    "can_swap_out_seq_group g be"
  shows "sum_list (map (\<lambda>k. length (table_of be k)) (keys (seqs g))) \<le> length (free_blocks (cpu_allocator be))"
  using assms(4) sum_tables [OF be_invD(1) [OF assms(1)] assms(2,3)]
  by (simp add: can_swap_out_seq_group_def table_of_def)

lemma swapped_entry:
  assumes inv: "be_inv be'" and cs: "length cs = length t" "set cs \<subseteq> cpu_range be'" "set (zip t cs) \<subseteq> set m'"
    and i: "i < length t"
  shows "(t ! i, cs ! i - num_gpu_blocks be') \<in> set (map (\<lambda>(k, v). (k, block_id (cell (blocks be') v))) m')"
proof -
  have "(t ! i, cs ! i) \<in> set m'"
    using cs(1,3) i by (force simp: set_zip)
  moreover have "cs ! i \<in> cpu_range be'" using cs(1,2) i by (metis nth_mem subsetD)
  then have "block_id (cell (blocks be') (cs ! i)) = cs ! i - num_gpu_blocks be'"
    using be_invD(2) [OF inv] by (simp add: ids_ok_def)
  ultimately show ?thesis by force
qed

text \<open>
  C13: \<open>swap_out\<close> of a group whose sequences own their GPU blocks returns as soon as \<open>can_swap_out_seq_group\<close>
  says yes.  Every sequence of the group then has a table of CPU blocks of the old length, the other
  tables are unchanged and the invariant holds.  The returned mapping has exactly the old GPU block numbers of
  the group as its keys, once each, and maps the \<open>i\<close>-th block of a table to the number of the \<open>i\<close>-th new block.
\<close>

theorem swap_out_correct:
  assumes inv: "be_inv be" and dist: "distinct (keys (seqs g))"
    and own: "\<And>k. k \<in> set (keys (seqs g)) \<Longrightarrow> own_gpu_table be k" and can: "can_swap_out_seq_group g be"
  shows "\<exists>m be'. swap_out g be = Inr (m, be') \<and> be_inv be'
     \<and> (\<forall>k. k \<notin> set (keys (seqs g)) \<longrightarrow> map_of (block_tables be') k = map_of (block_tables be) k)
     \<and> keys m = concat (map (table_of be) (keys (seqs g)))
     \<and> (\<forall>k \<in> set (keys (seqs g)). length (table_of be' k) = length (table_of be k)
          \<and> set (table_of be' k) \<subseteq> cpu_range be
          \<and> (\<forall>i < length (table_of be k).
               (table_of be k ! i, table_of be' k ! i - num_gpu_blocks be) \<in> set m))"
proof -
  let ?ks = "keys (seqs g)"
  have "set ?ks \<subseteq> set (keys (block_tables be))"
    using own by (force simp: own_gpu_table_def dest: map_of_SomeD)
  then obtain m' be' where s: "foldE swap_out_seq (be, []) ?ks = Inr (be', m')" "be_inv be'"
      "num_gpu_blocks be' = num_gpu_blocks be" "next_addr (blocks be') = next_addr (blocks be)"
      "\<forall>k. k \<notin> set ?ks \<longrightarrow> map_of (block_tables be') k = map_of (block_tables be) k"
      "\<forall>k \<in> set ?ks. \<exists>cs. map_of (block_tables be') k = Some cs \<and> length cs = length (table_of be k)
          \<and> set cs \<subseteq> cpu_range be \<and> set (zip (table_of be k) cs) \<subseteq> set m'"
      "keys m' = concat (map (table_of be) ?ks)"
    using swap_out_seqs_ok [OF inv dist own, of "[]"] can_swap_out_room [OF inv dist _ can] by auto
  let ?m = "map (\<lambda>(k, v). (k, block_id (cell (blocks be') v))) m'"
  have "mapE (\<lambda>(k, v). bindE (deref_block (blocks be') v) (\<lambda>b. Inr (k, block_id b))) m' = Inr ?m"
    by (rule mapE_all_Inr) (auto simp: deref_block_def be_invD(7) [OF s(2)])
  then have sw: "swap_out g be = Inr (?m, be')" using s(1) by (simp add: swap_out_def)
  have "length (table_of be' k) = length (table_of be k) \<and> set (table_of be' k) \<subseteq> cpu_range be
      \<and> (\<forall>i < length (table_of be k). (table_of be k ! i, table_of be' k ! i - num_gpu_blocks be) \<in> set ?m)"
    if k: "k \<in> set ?ks" for k
  proof -
    obtain cs where cs: "map_of (block_tables be') k = Some cs" "length cs = length (table_of be k)"
        "set cs \<subseteq> cpu_range be" "set (zip (table_of be k) cs) \<subseteq> set m'"
      using s(6) k by blast
    have "(table_of be k ! i, cs ! i - num_gpu_blocks be) \<in> set ?m" if "i < length (table_of be k)" for i
      using swapped_entry [OF s(2) cs(2) _ cs(4) that] cs(3) s(3,4) by simp
    then show ?thesis using cs by (simp add: table_of_def)
  qed
  moreover have "keys ?m = keys m'" by (induction m') auto
  ultimately show ?thesis using sw s(2,5,7) by (intro exI [of _ ?m] exI [of _ be']) auto
qed

text \<open>An engine with two GPU blocks owned by two sequences of one group and two free CPU blocks.\<close>

definition two_owners :: BlockEngine where
  "two_owners = \<lparr>num_gpu_blocks = 3, gpu_allocator = \<lparr>free_blocks = [2]\<rparr>, cpu_allocator = \<lparr>free_blocks = [3, 4]\<rparr>,
     block_tables = [(5, [0]), (6, [1])],
     blocks = \<lparr>cell = (\<lambda>a. \<lparr>block_id = (if a < 3 then a else a - 3), ptb_block_size = 2,
                 refcount = (if a < 2 then 1 else 0), is_gpu = True\<rparr>),
               next_addr = 5, held = []\<rparr>\<rparr>"

lemma be_inv_two_owners: "be_inv two_owners"
  by (rule be_invI) (auto simp: two_owners_def all_refs_def ids_ok_def pool_ok_def)

theorem swap_out_correct_witness:
  "\<exists>m be'. swap_out (sample_group [5, 6] 0) two_owners = Inr (m, be') \<and> be_inv be' \<and> keys m = [0, 1]
     \<and> length (table_of be' 6) = 1 \<and> set (table_of be' 6) \<subseteq> {3..<5}"
proof -
  have "\<And>k. k \<in> set (keys (seqs (sample_group [5, 6] 0))) \<Longrightarrow> own_gpu_table two_owners k"
    by (auto simp: own_gpu_table_def two_owners_def all_refs_def)
  moreover have "can_swap_out_seq_group (sample_group [5, 6] 0) two_owners"
    by (simp add: can_swap_out_seq_group_def two_owners_def)
  ultimately obtain m be' where w: "swap_out (sample_group [5, 6] 0) two_owners = Inr (m, be')" "be_inv be'"
      "keys m = concat (map (table_of two_owners) [5, 6])"
      "\<forall>k \<in> {5, 6}. length (table_of be' k) = length (table_of two_owners k)
          \<and> set (table_of be' k) \<subseteq> cpu_range two_owners"
    using swap_out_correct [OF be_inv_two_owners, of "sample_group [5, 6] 0"] by fastforce
  then show ?thesis by (auto simp: table_of_def two_owners_def)
qed

end
