(* ===== verification/Block_Engine_Groups.thy ===== *)
theory Block_Engine_Groups
  imports Block_Engine_Properties
begin

section \<open>The block engine on groups of several sequences, and swapping in\<close>

text \<open>
  \<open>BlockEngine::allocate\<close> gives every sequence of a group the same table, but counts one reference
  per block.  This theory shows what becomes of such a group when its sequences are freed or swapped out,
  and where \<open>swap_in\<close> takes its blocks from.
\<close>

lemma map_of_fold_update:
  "map_of (fold (\<lambda>k m. AList.update k t m) ks m) k = (if k \<in> set ks then Some t else map_of m k)"
  by (induction ks arbitrary: m) (auto simp: update_conv')

lemma fold_update_keys_free:
  "map_of (AList.delete k m) k' = (if k' = k then None else map_of m k')"
  by (simp add: delete_conv')

text \<open>The state after \<open>allocate\<close> for a group of any size.\<close>

lemma allocate_group:
  assumes inv: "be_inv be" and al: "BlockEngine_allocate st g be = Inr be1"
  shows "\<exists>table. length table = get_total_logical_token_blocks st g \<and> distinct table
     \<and> set table \<subseteq> gpu_range be1 \<and> num_gpu_blocks be1 = num_gpu_blocks be
     \<and> cpu_allocator be1 = cpu_allocator be
     \<and> ids_ok (num_gpu_blocks be1) (blocks be1) \<and> held (blocks be1) = []
     \<and> pool_ok (gpu_range be1) (gpu_allocator be1, blocks be1) \<and> pool_ok (cpu_range be1) (cpu_allocator be1, blocks be1)
     \<and> (\<forall>a \<in> set table. refcount (cell (blocks be1) a) = 1)
     \<and> (\<forall>k \<in> set (keys (seqs g)). map_of (block_tables be1) k = Some table)"
proof -
  let ?n = "get_total_logical_token_blocks st g"
  have "?n \<le> length (free_blocks (gpu_allocator be))"
    using allocate_exhausted [OF inv, of st g] al by (force simp: get_num_free_blocks_def)
  then obtain table al h where t: "collectE ?n Allocator_allocate (gpu_allocator be, blocks be) = Inr (table, al, h)"
      "length table = ?n" "distinct table" "set table \<subseteq> gpu_range be - set (all_refs be)"
      "same_blocks (blocks be) h" "pool_ok (gpu_range be) (al, h)"
      "\<And>a. refcount (cell h a) = (if a \<in> set table then 1 else refcount (cell (blocks be) a))"
    using collect_gpu_blocks [OF inv] by metis
  have be1: "be1 = be\<lparr>gpu_allocator := al, blocks := h,
      block_tables := fold (\<lambda>k m. AList.update k table m) (keys (seqs g)) (block_tables be)\<rparr>"
    using al t(1) by (simp add: BlockEngine_allocate_def)
  have nx: "next_addr h = next_addr (blocks be)" "held h = []"
    using t(5) be_invD(7) [OF inv] by (auto simp: same_blocks_def)
  have "pool_ok (cpu_range be) (cpu_allocator be, h)"
    by (rule pool_ok_frame [OF be_invD(6) [OF inv] nx(2)]) (use t(4,7) in auto)
  then show ?thesis
    using t(2-4,6,7) nx ids_ok_same [OF be_invD(2) [OF inv] t(5)]
    by (intro exI [of _ table]) (auto simp: be1 map_of_fold_update)
qed

text \<open>
  C38: freeing a group of several sequences.  Whatever group \<open>allocate\<close> has just given a table of at
  least one block, if it has two or more sequences then \<open>Scheduler::_free\<close> (a loop of \<open>free_sequence\<close>
  over the group) panics with a double free: the first sequence gives the blocks back, the second gives back
  the same blocks.
\<close>

theorem free_shared_group_double_frees:
  assumes inv: "be_inv be" and al: "BlockEngine_allocate st g be = Inr be1"
    and two: "seqs g = (k1, a1) # (k2, a2) # rest" "k1 \<noteq> k2" "seq_id (st a1) = k1" "seq_id (st a2) = k2"
    and some: "0 < get_total_logical_token_blocks st g"
  shows "\<exists>b. foldE (\<lambda>be a. free_sequence (st a) be) be1 (vals (seqs g)) = Inl (Panic (DoubleFree b))"
proof -
  obtain table where t: "table \<noteq> []" "distinct table" "set table \<subseteq> gpu_range be1"
      "ids_ok (num_gpu_blocks be1) (blocks be1)" "held (blocks be1) = []"
      "pool_ok (gpu_range be1) (gpu_allocator be1, blocks be1)"
      "\<And>a. a \<in> set table \<Longrightarrow> refcount (cell (blocks be1) a) = 1"
      "\<And>k. k \<in> set (keys (seqs g)) \<Longrightarrow> map_of (block_tables be1) k = Some table"
    using allocate_group [OF inv al] some by (metis less_numeral_extra(3) list.size(3))
  have sub: "set table \<subseteq> {..<next_addr (blocks be1)}" using t(3,4) by (auto simp: ids_ok_def)
  have "\<forall>a. count_list table a \<le> rc (gpu_allocator be1, blocks be1) a"
    using t(2,7) by (simp add: count_list_distinct rc_def)
  then obtain p' where p': "foldE Allocator_free_block (gpu_allocator be1, blocks be1) table = Inr p'"
      "pool_ok (gpu_range be1) p'" "rc p' = (\<lambda>a. rc (gpu_allocator be1, blocks be1) a - count_list table a)"
    using block_pool.release_many [OF t(6,3)] by blast
  obtain al' h' where ah: "p' = (al', h')" by (cases p')
  let ?be2 = "be1\<lparr>gpu_allocator := al', blocks := h', block_tables := AList.delete k1 (block_tables be1)\<rparr>"
  have f1: "free_sequence (st a1) be1 = Inr ?be2"
    using free_table_blocks_gpu [OF t(4,5) sub] p'(1) ah t(8) [of k1] two by (simp add: free_sequence_def)
  have same: "same_blocks (blocks be1) h'" using fold_free_same p'(1) ah by blast
  have "rc p' (hd table) < count_list table (hd table)"
    using t(1,2,7) p'(3) by (simp add: count_list_distinct rc_def)
  then obtain b where b: "foldE Allocator_free_block p' table = Inl (Panic (DoubleFree b))"
    using block_pool.release_too_many [OF p'(2) t(3)] by blast
  have "foldE free_table_block ?be2 table = Inl (Panic (DoubleFree b))"
    using free_table_blocks_gpu [of "num_gpu_blocks be1" ?be2 table] ids_ok_same [OF t(4) same] same t(5) sub b ah
    by (simp add: same_blocks_def)
  moreover have "map_of (block_tables ?be2) k2 = Some table"
    using two t(8) [of k2] by (simp add: fold_update_keys_free)
  ultimately have "free_sequence (st a2) ?be2 = Inl (Panic (DoubleFree b))"
    using two by (simp add: free_sequence_def)
  then show ?thesis using f1 two(1) by auto
qed

theorem free_shared_group_double_frees_witness:
  "\<exists>be1 b. BlockEngine_allocate (\<lambda>i. full_seq i 1) (sample_group [5, 6] 0) (BlockEngine_new 1 4 0) = Inr be1
     \<and> foldE (\<lambda>be a. free_sequence (full_seq a 1) be) be1 [5, 6] = Inl (Panic (DoubleFree b))"
proof -
  obtain table al h where
    "collectE 2 Allocator_allocate (gpu_allocator (BlockEngine_new 1 4 0), blocks (BlockEngine_new 1 4 0)) = Inr (table, al, h)"
    using collect_gpu_blocks [OF be_inv_new [of 1 4 0], of 2] by (auto simp flip: get_num_free_blocks_def)
  then obtain be1 where "BlockEngine_allocate (\<lambda>i. full_seq i 1) (sample_group [5, 6] 0) (BlockEngine_new 1 4 0) = Inr be1"
    by (simp add: BlockEngine_allocate_def get_total_logical_token_blocks_def numeral_2_eq_2)
  then show ?thesis
    using free_shared_group_double_frees [OF be_inv_new [of 1 4 0], of "\<lambda>i. full_seq i 1" "sample_group [5, 6] 0" be1 5 5 6 6 "[]"]
    by (auto simp: get_total_logical_token_blocks_def)
qed

text \<open>
  C39: swapping out a group of several sequences.  Whatever group \<open>allocate\<close> has just given a table of at
  least one block, if it has two or more sequences and the CPU has the blocks then \<open>swap_out\<close> never returns:
  at the second sequence the block is already in the mapping, and the branch that reuses it locks the mutex of
  the block while the guard of the \<open>if let\<close> still holds it.
\<close>

theorem swap_out_shared_group_deadlocks:
  assumes inv: "be_inv be" and al: "BlockEngine_allocate st g be = Inr be1"
    and two: "seqs g = (k1, a1) # (k2, a2) # rest" "k1 \<noteq> k2"
    and some: "0 < get_total_logical_token_blocks st g"
    and room: "get_total_logical_token_blocks st g \<le> get_num_free_blocks (cpu_allocator be)"
  shows "swap_out g be1 = Inl Deadlock"
proof -
  obtain table where t: "length table = get_total_logical_token_blocks st g" "distinct table" "set table \<subseteq> gpu_range be1"
      "cpu_allocator be1 = cpu_allocator be" "ids_ok (num_gpu_blocks be1) (blocks be1)"
      "pool_ok (gpu_range be1) (gpu_allocator be1, blocks be1)" "pool_ok (cpu_range be1) (cpu_allocator be1, blocks be1)"
      "\<And>a. a \<in> set table \<Longrightarrow> refcount (cell (blocks be1) a) = 1"
      "\<And>k. k \<in> set (keys (seqs g)) \<Longrightarrow> map_of (block_tables be1) k = Some table"
    using allocate_group [OF inv al] by metis
  obtain a ts where at: "table = a # ts" using t(1) some by (cases table) auto
  have "swap_ready be1 [] table"
    using t(2-8) room t(1) by (simp add: swap_ready_def get_num_free_blocks_def)
  then obtain cs gpu cpu h where s1: "foldE swap_out_block (be1, [], []) table =
       Inr (be1\<lparr>gpu_allocator := gpu, cpu_allocator := cpu, blocks := h\<rparr>, zip table cs, cs)"
      "swap_ready (be1\<lparr>gpu_allocator := gpu, cpu_allocator := cpu, blocks := h\<rparr>) (zip table cs) []"
      "length cs = length table"
    using swap_out_blocks_ok [of be1 "[]" table "[]"] by auto
  let ?be2 = "be1\<lparr>gpu_allocator := gpu, cpu_allocator := cpu, blocks := h,
      block_tables := AList.update k1 cs (block_tables be1)\<rparr>"
  have f1: "swap_out_seq (be1, []) k1 = Inr (?be2, zip table cs)"
    using s1(1) t(9) [of k1] two(1) by (simp add: swap_out_seq_def)
  obtain c cs' where c: "cs = c # cs'" using s1(3) at by (cases cs) auto
  have "held h = []" "block_id (cell h a) = a"
    using s1(2) t(3) at by (auto simp: swap_ready_def pool_ok_def ids_ok_def)
  then have "swap_out_block (?be2, zip table cs, []) a = Inl Deadlock"
    by (simp add: swap_out_block_def lock_block_def deref_block_def at c)
  moreover have "map_of (block_tables ?be2) k2 = Some table"
    using two t(9) [of k2] by (simp add: update_conv')
  ultimately have "swap_out_seq (?be2, zip table cs) k2 = Inl Deadlock"
    by (simp add: swap_out_seq_def at)
  then show ?thesis using f1 two(1) by (simp add: swap_out_def)
qed

theorem swap_out_shared_group_deadlocks_witness:
  "\<exists>be1. BlockEngine_allocate (\<lambda>i. full_seq i 1) (sample_group [5, 6] 0) (BlockEngine_new 1 4 4) = Inr be1
     \<and> swap_out (sample_group [5, 6] 0) be1 = Inl Deadlock"
proof -
  obtain table al h where
    "collectE 2 Allocator_allocate (gpu_allocator (BlockEngine_new 1 4 4), blocks (BlockEngine_new 1 4 4)) = Inr (table, al, h)"
    using collect_gpu_blocks [OF be_inv_new [of 1 4 4], of 2] by (auto simp flip: get_num_free_blocks_def)
  then obtain be1 where "BlockEngine_allocate (\<lambda>i. full_seq i 1) (sample_group [5, 6] 0) (BlockEngine_new 1 4 4) = Inr be1"
    by (simp add: BlockEngine_allocate_def get_total_logical_token_blocks_def numeral_2_eq_2)
  then show ?thesis
    using swap_out_shared_group_deadlocks [OF be_inv_new [of 1 4 4], of "\<lambda>i. full_seq i 1" "sample_group [5, 6] 0" be1 5 5 6 6 "[]"]
    by (auto simp: get_total_logical_token_blocks_def)
qed

subsection \<open>Swapping in\<close>

text \<open>The loop of \<open>swap_in\<close> hands out nothing but blocks of the CPU free list it started from.\<close>

lemma vals_update: "set (vals (AList.update k v m)) \<subseteq> insert v (set (vals m))"
  by (induction m) auto

definition from_cpu :: "addr set \<Rightarrow> BlockEngine \<times> (nat, addr) hash_map \<Rightarrow> bool" where
  "from_cpu S = (\<lambda>(be, m). set (free_blocks (cpu_allocator be)) \<subseteq> S \<and> set (vals m) \<subseteq> S)"

lemma swap_in_block_from_cpu:
  assumes "from_cpu S (be, m)" "swap_in_block (be, m, nt) a = Inr (be', m', nt')"
  shows "from_cpu S (be', m') \<and> (\<exists>b \<in> S. nt' = nt @ [b]) \<and> block_tables be' = block_tables be"
proof (cases "map_of m (block_id (cell (blocks be) a))")
  case None
  then obtain h b cpu h' where s: "lock_block (blocks be) a = Inr h" "Allocator_allocate (cpu_allocator be, h) = Inr (b, cpu, h')"
      "m' = AList.update (block_id (cell (blocks be) a)) b m" "nt' = nt @ [b]"
      "cpu_allocator be' = cpu" "block_tables be' = block_tables be"
    using assms(2)
    by (auto simp: swap_in_block_def bindE_Inr_iff lock_block_def split: if_splits option.splits)
  have "free_blocks (cpu_allocator be) = free_blocks cpu @ [b]"
    using s(2) by (auto simp: Allocator_allocate_def bindE_Inr_iff vec_pop_Some_iff)
  then have b: "b \<in> S" "set (free_blocks cpu) \<subseteq> S" "set (vals m) \<subseteq> S"
    using assms(1) by (auto simp: from_cpu_def)
  have "set (vals m') \<subseteq> insert b (set (vals m))"
    unfolding s(3) by (rule vals_update)
  then have "set (vals m') \<subseteq> S" using b by blast
  then show ?thesis using b s(4-6) by (simp add: from_cpu_def)
next
  case (Some c)
  then have "swap_in_block (be, m, nt) a = Inl Deadlock"
    by (simp add: swap_in_block_def lock_block_def deref_block_def)
  then show ?thesis using assms(2) by simp
qed

interpretation swap_in_loop: kept_by_loop swap_in_block
  "\<lambda>(be, m, nt). from_cpu S (be, m) \<and> set nt \<subseteq> S \<and> block_tables be = T" for S T
proof
  fix s a s'
  assume inv: "case s of (be, m, nt) \<Rightarrow> from_cpu S (be, m) \<and> set nt \<subseteq> S \<and> block_tables be = T"
    and step: "swap_in_block s a = Inr s'"
  obtain be m nt be' m' nt' where s: "s = (be, m, nt)" "s' = (be', m', nt')" by (cases s; cases s')
  have "from_cpu S (be, m)" "swap_in_block (be, m, nt) a = Inr (be', m', nt')" using inv step s by simp_all
  from swap_in_block_from_cpu [OF this]
  show "case s' of (be, m, nt) \<Rightarrow> from_cpu S (be, m) \<and> set nt \<subseteq> S \<and> block_tables be = T"
    using inv s by auto
qed

lemma swap_in_seq_from_cpu:
  assumes "from_cpu S (be, m)" "swap_in_seq (be, m) k = Inr (be', m')"
  shows "from_cpu S (be', m')
     \<and> (\<exists>t. set t \<subseteq> S \<and> block_tables be' = AList.update k t (block_tables be))"
proof -
  obtain t be1 nt where s: "foldE swap_in_block (be, m, []) t = Inr (be1, m', nt)"
      "be' = be1\<lparr>block_tables := AList.update k nt (block_tables be1)\<rparr>"
    using assms(2) by (auto simp: swap_in_seq_def bindE_Inr_iff)
  have "from_cpu S (be1, m') \<and> set nt \<subseteq> S \<and> block_tables be1 = block_tables be"
    using swap_in_loop.loop_keeps [of S "block_tables be" "(be, m, [])" t "(be1, m', nt)"] assms(1) s(1) by simp
  then show ?thesis using s(2) by (auto simp: from_cpu_def)
qed

interpretation swap_in_seqs: kept_by_loop swap_in_seq
  "\<lambda>(be, m). from_cpu S (be, m) \<and> (\<forall>k \<in> K. set (table_of be k) \<subseteq> S)" for S K
proof
  fix s x s'
  assume inv: "case s of (be, m) \<Rightarrow> from_cpu S (be, m) \<and> (\<forall>k \<in> K. set (table_of be k) \<subseteq> S)"
    and step: "swap_in_seq s x = Inr s'"
  obtain be m be' m' where s: "s = (be, m)" "s' = (be', m')" by (cases s; cases s')
  have "from_cpu S (be, m)" "swap_in_seq (be, m) x = Inr (be', m')" using inv step s by simp_all
  note f = swap_in_seq_from_cpu [OF this]
  then obtain t where t: "set t \<subseteq> S" "block_tables be' = AList.update x t (block_tables be)" by blast
  have "table_of be' k = (if k = x then t else table_of be k)" for k
    by (simp add: table_of_def t(2) update_conv')
  then show "case s' of (be, m) \<Rightarrow> from_cpu S (be, m) \<and> (\<forall>k \<in> K. set (table_of be k) \<subseteq> S)"
    using inv s f t(1) by simp
qed

lemma swap_in_tables_from_cpu:
  "from_cpu S (be, m) \<Longrightarrow> foldE swap_in_seq (be, m) ks = Inr (be', m') \<Longrightarrow> k \<in> set ks \<Longrightarrow> set (table_of be' k) \<subseteq> S"
proof (induction ks arbitrary: be m)
  case (Cons k0 ks)
  then obtain be1 m1 where s1: "swap_in_seq (be, m) k0 = Inr (be1, m1)" "foldE swap_in_seq (be1, m1) ks = Inr (be', m')"
    by (auto simp: bindE_Inr_iff)
  note f1 = swap_in_seq_from_cpu [OF Cons.prems(1) s1(1)]
  show ?case
  proof (cases "k \<in> set ks")
    case True
    then show ?thesis using Cons.IH [OF _ s1(2)] f1 by blast
  next
    case False
    then have "set (table_of be1 k) \<subseteq> S"
      using f1 Cons.prems(3) by (auto simp: table_of_def update_conv')
    then show ?thesis
      using swap_in_seqs.loop_keeps [of S "{k}" "(be1, m1)" ks "(be', m')"] f1 s1(2) by simp
  qed
qed simp

text \<open>
  C40: \<open>swap_in\<close> never gives a sequence a GPU block.  Its documentation promises a table of GPU blocks only;
  in a state that satisfies the invariant, whenever it returns, every block of every sequence of the group is
  a CPU block.
\<close>

theorem swap_in_stays_on_cpu:
  assumes "be_inv be" "swap_in g be = Inr (m, be')" "k \<in> set (keys (seqs g))"
  shows "set (table_of be' k) \<subseteq> cpu_range be"
proof -
  obtain m' where s: "foldE swap_in_seq (be, []) (keys (seqs g)) = Inr (be', m')"
    using assms(2) by (auto simp: swap_in_def bindE_Inr_iff)
  have "from_cpu (cpu_range be) (be, [])"
    using free_cpu_set [OF assms(1)] by (auto simp: from_cpu_def)
  then show ?thesis using swap_in_tables_from_cpu [OF _ s assms(3)] by blast
qed

text \<open>A sequence on CPU block 2 with one more CPU block and both GPU blocks free.\<close>

definition swapped_engine :: BlockEngine where
  "swapped_engine = \<lparr>num_gpu_blocks = 2, gpu_allocator = \<lparr>free_blocks = [0, 1]\<rparr>, cpu_allocator = \<lparr>free_blocks = [3]\<rparr>,
     block_tables = [(5, [2])],
     blocks = \<lparr>cell = (\<lambda>a. \<lparr>block_id = (if a < 2 then a else a - 2), ptb_block_size = 2,
                 refcount = (if a = 2 then 1 else 0), is_gpu = True\<rparr>),
               next_addr = 4, held = []\<rparr>\<rparr>"

theorem swap_in_stays_on_cpu_witness:
  "be_inv swapped_engine \<and> can_swap_in_seq_group (sample_group [5] 0) swapped_engine
   \<and> (\<exists>m be'. swap_in (sample_group [5] 0) swapped_engine = Inr (m, be')
        \<and> table_of be' 5 = [3] \<and> set (table_of be' 5) \<subseteq> cpu_range swapped_engine
        \<and> free_blocks (gpu_allocator be') = [0, 1, 2])"
proof -
  have inv: "be_inv swapped_engine"
    by (rule be_invI) (auto simp: swapped_engine_def all_refs_def ids_ok_def pool_ok_def)
  obtain m be' where s: "swap_in (sample_group [5] 0) swapped_engine = Inr (m, be')" "table_of be' 5 = [3]"
      "free_blocks (gpu_allocator be') = [0, 1, 2]"
    by (simp add: swap_in_def swap_in_seq_def swap_in_block_def swapped_engine_def table_of_def eval_defs)
  show ?thesis
    using inv s swap_in_stays_on_cpu [OF inv s(1), of 5]
    by (simp add: can_swap_in_seq_group_def) (simp add: swapped_engine_def)
qed

end
