(* ===== verification/Scheduling.thy ===== *)
theory Scheduling
  imports Block_Engine_Groups Cache_Config
begin

section \<open>The scheduler\<close>

text \<open>
  \<open>src/scheduler/mod.rs\<close>.  A \<open>SequenceGroup\<close> does not change after its creation, so an
  \<open>Arc<SequenceGroup>\<close> is the group; its sequences are addresses of the sequence store, which the record
  carries as \<open>sequences\<close>.  The \<open>while\<close> loops of \<open>schedule\<close> are the recursive functions \<open>admit\<close>,
  \<open>make_room\<close>, \<open>reserve_slots\<close> and \<open>swap_in_groups\<close>.
\<close>

record SchedulerOutput =
  scheduled :: "SequenceGroup list"
  blocks_to_swap_in :: "(nat, nat) hash_map"
  blocks_to_swap_out :: "(nat, nat) hash_map"
  blocks_to_copy :: "(nat, nat list) hash_map"
  ignored_seq_groups :: "SequenceGroup list"

record SchedulerConfig =
  max_num_seqs :: nat

record Scheduler =
  waiting :: "SequenceGroup list"
  running :: "SequenceGroup list"
  swapped_out :: "SequenceGroup list"
  config :: SchedulerConfig
  block_engine :: BlockEngine
  sequences :: seq_store

definition Scheduler_new :: "SchedulerConfig \<Rightarrow> CacheConfig \<Rightarrow> seq_store \<Rightarrow> Scheduler res" where
  "Scheduler_new cfg cache_config st =
     bindE (assertE (fully_init cache_config)) (\<lambda>_.
     bindE (unwrap (cc_num_gpu_blocks cache_config)) (\<lambda>ng.
     bindE (unwrap (cc_num_cpu_blocks cache_config)) (\<lambda>nc.
     Inr \<lparr>waiting = [], running = [], swapped_out = [], config = cfg,
          block_engine = BlockEngine_new (block_size cache_config) ng nc, sequences = st\<rparr>)))"

definition add_sequence :: "SequenceGroup \<Rightarrow> Scheduler \<Rightarrow> Scheduler" where
  "add_sequence seq_group s = s\<lparr>waiting := waiting s @ [seq_group]\<rparr>"

text \<open>\<open>HashMap::extend\<close>.\<close>

definition map_extend :: "('k, 'v) hash_map \<Rightarrow> ('k, 'v) hash_map \<Rightarrow> ('k, 'v) hash_map" where
  "map_extend m new = fold (\<lambda>(k, v) m. AList.update k v m) new m"

definition set_group_status :: "SequenceGroup \<Rightarrow> SequenceStatus \<Rightarrow> Scheduler \<Rightarrow> Scheduler" where
  "set_group_status g sts s = s\<lparr>sequences := SequenceGroup_set_status (sequences s) g sts\<rparr>"

definition Scheduler_allocate :: "SequenceGroup \<Rightarrow> Scheduler \<Rightarrow> Scheduler res" where
  "Scheduler_allocate g s =
     bindE (BlockEngine_allocate (sequences s) g (block_engine s)) (\<lambda>be. Inr (s\<lparr>block_engine := be\<rparr>))"

definition Scheduler_free :: "SequenceGroup \<Rightarrow> Scheduler \<Rightarrow> Scheduler res" where
  "Scheduler_free g s =
     bindE (foldE (\<lambda>be a. free_sequence (sequences s a) be) (block_engine s) (vals (seqs g))) (\<lambda>be.
     Inr (s\<lparr>block_engine := be\<rparr>))"

text \<open>\<open>position\<close> and \<open>remove\<close>: the first group with the same id goes.\<close>

fun remove_first :: "nat \<Rightarrow> SequenceGroup list \<Rightarrow> SequenceGroup list" where
  "remove_first gid [] = []"
| "remove_first gid (g # gs) = (if group_id g = gid then gs else g # remove_first gid gs)"

definition remove_seq_group :: "SequenceGroup \<Rightarrow> Scheduler \<Rightarrow> Scheduler" where
  "remove_seq_group g s =
     s\<lparr>waiting := remove_first (group_id g) (waiting s),
       running := remove_first (group_id g) (running s),
       swapped_out := remove_first (group_id g) (swapped_out s)\<rparr>"

text \<open>One round of the loop of \<open>_append_token_slot_to_seq_group\<close>, and the loop.\<close>

definition append_slot_step ::
    "seq_store \<Rightarrow> BlockEngine \<times> (nat, nat list) hash_map \<Rightarrow> seq_addr
     \<Rightarrow> (BlockEngine \<times> (nat, nat list) hash_map) res" where
  "append_slot_step st = (\<lambda>(be, copies) a.
     bindE (append_token_slot_to_seq (st a) be) (\<lambda>(op, be').
     case op of
       None \<Rightarrow> Inr (be', copies)
     | Some (src_block, dst_block) \<Rightarrow>
         (case map_of copies src_block of
            None \<Rightarrow> Inr (be', AList.update src_block [dst_block] copies)
          | Some dsts \<Rightarrow> Inr (be', AList.update src_block (dsts @ [dst_block]) copies))))"

definition append_token_slot_to_seq_group ::
    "SequenceGroup \<Rightarrow> Scheduler \<Rightarrow> (nat, nat list) hash_map \<Rightarrow> (Scheduler \<times> (nat, nat list) hash_map) res" where
  "append_token_slot_to_seq_group g s copies =
     bindE (foldE (append_slot_step (sequences s)) (block_engine s, copies) (vals (seqs g))) (\<lambda>(be, copies').
     Inr (s\<lparr>block_engine := be\<rparr>, copies'))"

definition abort_seq_group :: "SequenceGroup \<Rightarrow> Scheduler \<Rightarrow> Scheduler res" where
  "abort_seq_group g s = Scheduler_free g (set_group_status g FinishedAborted (remove_seq_group g s))"

definition preempt_by_recompute :: "SequenceGroup \<Rightarrow> Scheduler \<Rightarrow> Scheduler res" where
  "preempt_by_recompute g s =
     bindE (Scheduler_free g (set_group_status g Waiting s)) (\<lambda>s'.
     Inr (s'\<lparr>waiting := g # waiting s'\<rparr>))"

definition preempt_by_swap ::
    "SequenceGroup \<Rightarrow> Scheduler \<Rightarrow> (nat, nat) hash_map \<Rightarrow> (Scheduler \<times> (nat, nat) hash_map) res" where
  "preempt_by_swap g s swaps =
     (if \<not> can_swap_out_seq_group g (block_engine s)
      then bindE (abort_seq_group g s) (\<lambda>s'. Inr (s', swaps))
      else bindE (swap_out g (block_engine s)) (\<lambda>(new_to_swap, be).
           let s' = set_group_status g Swapped (s\<lparr>block_engine := be\<rparr>)
           in Inr (s'\<lparr>swapped_out := swapped_out s' @ [g]\<rparr>, map_extend swaps new_to_swap)))"

definition preempt ::
    "SequenceGroup \<Rightarrow> Scheduler \<Rightarrow> (nat, nat) hash_map \<Rightarrow> (Scheduler \<times> (nat, nat) hash_map) res" where
  "preempt g s swaps =
     (if length (seqs g) = 1 then bindE (preempt_by_recompute g s) (\<lambda>s'. Inr (s', swaps))
      else preempt_by_swap g s swaps)"

definition sort_running_by_priority_fcfs :: "Scheduler \<Rightarrow> Scheduler" where
  "sort_running_by_priority_fcfs s = s\<lparr>running := rev (sort_key sg_arrival_time (running s))\<rparr>"

definition sort_swapped_out_by_priority_fcfs :: "Scheduler \<Rightarrow> Scheduler" where
  "sort_swapped_out_by_priority_fcfs s = s\<lparr>swapped_out := rev (sort_key sg_arrival_time (swapped_out s))\<rparr>"

subsection \<open>Admission: the first loop of \<open>schedule\<close>\<close>

definition num_running_seqs :: "Scheduler \<Rightarrow> nat" where
  "num_running_seqs s = sum_list (map (\<lambda>g. length (seqs g)) (running s))"

text \<open>
  The end of a round, reached by the \<open>Impossible\<close> branch too: the group becomes \<open>Running\<close>, its blocks
  are allocated, and the group that is now at the front of \<open>waiting\<close> moves to \<open>running\<close>.
\<close>

definition start_group :: "SequenceGroup \<Rightarrow> Scheduler \<Rightarrow> (SequenceGroup \<times> Scheduler) res" where
  "start_group seq_group s =
     bindE (Scheduler_allocate seq_group (set_group_status seq_group Running s)) (\<lambda>s1.
     case waiting s1 of
       [] \<Rightarrow> Inl (Panic UnwrapNone)
     | g # rest \<Rightarrow> Inr (g, s1\<lparr>waiting := rest, running := running s1 @ [g]\<rparr>))"

lemma start_group_waiting:
  "start_group g s = Inr (g', s') \<Longrightarrow> waiting s = g' # waiting s' \<and> running s' = running s @ [g']
     \<and> swapped_out s' = swapped_out s \<and> config s' = config s"
  by (cases "BlockEngine_allocate (SequenceGroup_set_status (sequences s) g Running) g (block_engine s)"; cases "waiting s")
    (auto simp: start_group_def Scheduler_allocate_def set_group_status_def)

function admit ::
    "Scheduler \<Rightarrow> SequenceGroup list \<Rightarrow> SequenceGroup list
     \<Rightarrow> (Scheduler \<times> SequenceGroup list \<times> SequenceGroup list) res" where
  "admit s sched ignored =
     (case waiting s of
        [] \<Rightarrow> Inr (s, sched, ignored)
      | seq_group # rest \<Rightarrow>
          if max_num_seqs (config s) = num_running_seqs s + 1 then Inr (s, sched, ignored)
          else case can_allocate (sequences s) seq_group (block_engine s) of
            Later \<Rightarrow> Inr (s, sched, ignored)
          | Impossible \<Rightarrow>
              bindE (start_group seq_group ((set_group_status seq_group FinishedIgnored s)\<lparr>waiting := rest\<rparr>))
                (\<lambda>(g, s'). admit s' (sched @ [g]) (ignored @ [seq_group]))
          | AllocOk \<Rightarrow>
              bindE (start_group seq_group s) (\<lambda>(g, s'). admit s' (sched @ [g]) ignored))"
  by pat_completeness auto
termination
  by (relation "measure (\<lambda>(s, _). length (waiting s))") (auto dest!: start_group_waiting)

declare admit.simps [simp del]

subsection \<open>Decoding: slots for the running groups\<close>

lemma Scheduler_free_queues:
  "Scheduler_free g s = Inr s' \<Longrightarrow> waiting s' = waiting s \<and> running s' = running s
     \<and> swapped_out s' = swapped_out s \<and> config s' = config s \<and> sequences s' = sequences s"
  by (auto simp: Scheduler_free_def bindE_Inr_iff)

lemma length_remove_first: "length (remove_first gid gs) \<le> length gs"
  by (induction gs) auto

lemma preempt_running:
  "preempt g s swaps = Inr (s', swaps') \<Longrightarrow> length (running s') \<le> length (running s)"
  by (auto simp: preempt_def preempt_by_recompute_def preempt_by_swap_def abort_seq_group_def
      set_group_status_def remove_seq_group_def Let_def bindE_Inr_iff length_remove_first
      dest!: Scheduler_free_queues split: if_splits)

text \<open>
  The inner loop: preempt groups from the back of \<open>running\<close> until \<open>g\<close> can get its blocks, or \<open>g\<close> itself
  when none is left; the flag is \<open>finished_with_break\<close>.
\<close>

function make_room ::
    "SequenceGroup \<Rightarrow> Scheduler \<Rightarrow> (nat, nat) hash_map \<Rightarrow> SequenceGroup list
     \<Rightarrow> (bool \<times> Scheduler \<times> (nat, nat) hash_map \<times> SequenceGroup list) res" where
  "make_room g s swaps preempted =
     (if can_append_token_to_seq (sequences s) g (block_engine s) then Inr (False, s, swaps, preempted)
      else case vec_pop (running s) of
        Some (victim, rest) \<Rightarrow>
          bindE (preempt victim (s\<lparr>running := rest\<rparr>) swaps) (\<lambda>(s', swaps').
          make_room g s' swaps' (preempted @ [victim]))
      | None \<Rightarrow>
          bindE (preempt g s swaps) (\<lambda>(s', swaps'). Inr (True, s', swaps', preempted @ [g])))"
  by pat_completeness auto
termination
  by (relation "measure (\<lambda>(g, s, _). length (running s))")
    (auto simp: vec_pop_Some_iff dest!: preempt_running)

declare make_room.simps [simp del]

lemma make_room_running:
  "make_room g s swaps preempted = Inr (broke, s', swaps', preempted') \<Longrightarrow> length (running s') \<le> length (running s)"
proof (induction g s swaps preempted arbitrary: broke s' swaps' preempted' rule: make_room.induct)
  case (1 g s swaps preempted)
  show ?case
  proof (cases "can_append_token_to_seq (sequences s) g (block_engine s)")
    case True
    then show ?thesis using 1(2) by (simp add: make_room.simps [of g s])
  next
    case no: False
    show ?thesis
    proof (cases "vec_pop (running s)")
      case None
      then show ?thesis using no 1(2) by (auto simp: make_room.simps [of g s] bindE_Inr_iff dest!: preempt_running)
    next
      case (Some p)
      obtain victim rest where p: "p = (victim, rest)" by (cases p)
      then obtain s1 swaps1 where s1: "preempt victim (s\<lparr>running := rest\<rparr>) swaps = Inr (s1, swaps1)"
          "make_room g s1 swaps1 (preempted @ [victim]) = Inr (broke, s', swaps', preempted')"
        using no Some 1(2) by (auto simp: make_room.simps [of g s] bindE_Inr_iff)
      have "length (running s') \<le> length (running s1)"
        using 1(1) [OF no Some p [symmetric] s1(1) refl s1(2)] by simp
      then show ?thesis
        using preempt_running [OF s1(1)] Some p by (simp add: vec_pop_Some_iff)
    qed
  qed
qed

text \<open>The outer loop; \<open>kept\<close> is the new running queue it builds.\<close>

function reserve_slots ::
    "Scheduler \<Rightarrow> SequenceGroup list \<Rightarrow> (nat, nat) hash_map \<Rightarrow> (nat, nat list) hash_map \<Rightarrow> SequenceGroup list
     \<Rightarrow> (Scheduler \<times> SequenceGroup list \<times> (nat, nat) hash_map \<times> (nat, nat list) hash_map \<times> SequenceGroup list) res" where
  "reserve_slots s kept swaps copies preempted =
     (case running s of
        [] \<Rightarrow> Inr (s, kept, swaps, copies, preempted)
      | seq_group # rest \<Rightarrow>
          bindE (make_room seq_group (s\<lparr>running := rest\<rparr>) swaps preempted) (\<lambda>(finished_with_break, s1, swaps1, preempted1).
          if finished_with_break then reserve_slots s1 kept swaps1 copies preempted1
          else bindE (append_token_slot_to_seq_group seq_group s1 copies) (\<lambda>(s2, copies2).
               reserve_slots s2 (kept @ [seq_group]) swaps1 copies2 preempted1)))"
  by pat_completeness auto
termination
proof (relation "measure (\<lambda>(s, _). length (running s))", goal_cases)
  case 1
  then show ?case by simp
next
  case (2 s kept swaps copies preempted g rest r b r1 s1 r2 swaps1 preempted1)
  then show ?case by (auto dest!: make_room_running)
next
  case (3 s kept swaps copies preempted g rest r b r1 s1 r2 swaps1 preempted1 r3 s2 copies2)
  then show ?case
    by (auto simp: append_token_slot_to_seq_group_def bindE_Inr_iff dest!: make_room_running)
qed

declare reserve_slots.simps [simp del]

text \<open>The last loop: swapped out groups come back while the GPU has room.\<close>

function swap_in_groups ::
    "Scheduler \<Rightarrow> (nat, nat) hash_map \<Rightarrow> (nat, nat list) hash_map
     \<Rightarrow> (Scheduler \<times> (nat, nat) hash_map \<times> (nat, nat list) hash_map) res" where
  "swap_in_groups s swaps copies =
     (case swapped_out s of
        [] \<Rightarrow> Inr (s, swaps, copies)
      | seq_group # rest \<Rightarrow>
          if \<not> can_swap_in_seq_group seq_group (block_engine s) then Inr (s, swaps, copies)
          else bindE (swap_in seq_group (block_engine s)) (\<lambda>(to_swap_in, be).
               bindE (append_token_slot_to_seq_group seq_group (s\<lparr>swapped_out := rest, block_engine := be\<rparr>) copies)
                 (\<lambda>(s', copies').
               swap_in_groups (s'\<lparr>running := running s' @ [seq_group]\<rparr>) (map_extend swaps to_swap_in) copies')))"
  by pat_completeness auto
termination
  by (relation "measure (\<lambda>(s, _). length (swapped_out s))")
    (auto simp: append_token_slot_to_seq_group_def bindE_Inr_iff)

declare swap_in_groups.simps [simp del]

text \<open>The part of \<open>schedule\<close> after the admission.\<close>

definition schedule_decode :: "Scheduler \<Rightarrow> (SchedulerOutput \<times> Scheduler) res" where
  "schedule_decode s =
     bindE (reserve_slots (sort_running_by_priority_fcfs s) [] [] [] []) (\<lambda>(s1, kept, swaps_out, copies, preempted).
     let s2 = sort_swapped_out_by_priority_fcfs (s1\<lparr>running := kept\<rparr>) in
     bindE (if preempted = [] then swap_in_groups s2 [] copies else Inr (s2, [], copies)) (\<lambda>(s3, swaps_in, copies').
     Inr (\<lparr>scheduled = running s3, blocks_to_swap_in = swaps_in, blocks_to_swap_out = swaps_out,
           blocks_to_copy = copies', ignored_seq_groups = []\<rparr>, s3)))"

definition schedule :: "Scheduler \<Rightarrow> (SchedulerOutput \<times> Scheduler) res" where
  "schedule s =
     (if swapped_out s = []
      then bindE (admit s [] []) (\<lambda>(s', sched, ignored).
           if sched \<noteq> [] \<or> ignored \<noteq> []
           then Inr (\<lparr>scheduled = sched, blocks_to_swap_in = [], blocks_to_swap_out = [], blocks_to_copy = [],
                     ignored_seq_groups = ignored\<rparr>, s')
           else schedule_decode s')
      else schedule_decode s)"

definition has_unfinished_sequences :: "Scheduler \<Rightarrow> bool" where
  "has_unfinished_sequences s = (running s \<noteq> [])"

definition free_finished_sequence_groups :: "Scheduler \<Rightarrow> Scheduler res" where
  "free_finished_sequence_groups s =
     (let to_free = filter (SequenceGroup_is_finished (sequences s)) (running s)
      in foldE (\<lambda>s g. Scheduler_free g s)
           (s\<lparr>running := filter (\<lambda>g. \<not> SequenceGroup_is_finished (sequences s) g) (running s)\<rparr>) to_free)"

end
