(* ===== verification/Scheduling_Invariant.thy ===== *)
theory Scheduling_Invariant
  imports Scheduling
begin

section \<open>The invariant of the scheduler\<close>

text \<open>
  For groups of one sequence each (\<open>n = 1\<close>, the groups that are preempted by recomputation) the queues
  and the block engine agree: the running groups, and only they, own a table of GPU blocks, and no two tables
  share a block.  The lemmas say what the block engine does for one such group.
\<close>

definition sid :: "SequenceGroup \<Rightarrow> nat" where
  "sid g = fst (hd (seqs g))"

definition arc :: "SequenceGroup \<Rightarrow> seq_addr" where
  "arc g = snd (hd (seqs g))"

definition single_ok :: "seq_store \<Rightarrow> SequenceGroup \<Rightarrow> bool" where
  "single_ok st g \<longleftrightarrow> seqs g = [(sid g, arc g)] \<and> seq_id (st (arc g)) = sid g
     \<and> 0 < get_logical_token_blocks (st (arc g))"

definition group_inv :: "BlockEngine \<Rightarrow> seq_store \<Rightarrow> SequenceGroup list \<Rightarrow> SequenceGroup list \<Rightarrow> bool" where
  "group_inv be st ws rs \<longleftrightarrow> be_inv be \<and> distinct (all_refs be)
     \<and> (\<forall>g \<in> set (ws @ rs). single_ok st g) \<and> distinct (map sid (ws @ rs))
     \<and> set (keys (block_tables be)) = sid ` set rs
     \<and> (\<forall>t \<in> set (vals (block_tables be)). t \<noteq> [] \<and> set t \<subseteq> gpu_range be)"

definition sched_inv :: "Scheduler \<Rightarrow> bool" where
  "sched_inv s \<longleftrightarrow> swapped_out s = [] \<and> group_inv (block_engine s) (sequences s) (waiting s) (running s)"

lemma group_invD:
  assumes "group_inv be st ws rs"
  shows "be_inv be" "distinct (all_refs be)" "\<And>g. g \<in> set ws \<or> g \<in> set rs \<Longrightarrow> single_ok st g"
    "distinct (map sid (ws @ rs))" "set (keys (block_tables be)) = sid ` set rs"
    "\<And>t. t \<in> set (vals (block_tables be)) \<Longrightarrow> t \<noteq> [] \<and> set t \<subseteq> gpu_range be"
  using assms by (auto simp: group_inv_def)

lemma group_inv_perm:
  assumes "group_inv be st ws rs" "mset ws' = mset ws" "mset rs' = mset rs"
  shows "group_inv be st ws' rs'"
proof -
  have "mset (map sid (ws' @ rs')) = mset (map sid (ws @ rs))" using assms(2,3) by simp
  then have "distinct (map sid (ws' @ rs')) \<longleftrightarrow> distinct (map sid (ws @ rs))"
    by (metis mset_eq_imp_distinct_iff)
  moreover have "set ws' = set ws" "set rs' = set rs" using assms(2,3) mset_eq_setD by blast+
  ultimately show ?thesis using assms(1) by (simp add: group_inv_def)
qed

text \<open>The invariant does not depend on the statuses of the sequences.\<close>

lemma single_ok_set_status [simp]: "single_ok (SequenceGroup_set_status st g sts) g' = single_ok st g'"
  by (simp add: single_ok_def)

lemma group_inv_set_status [simp]:
  "group_inv be (SequenceGroup_set_status st g sts) ws rs = group_inv be st ws rs"
  by (simp add: group_inv_def)

lemma single_seqs: "single_ok st g \<Longrightarrow> seqs g = [(sid g, arc g)]"
  by (simp add: single_ok_def)

lemma running_table:
  assumes "group_inv be st ws rs" "g \<in> set rs"
  obtains t where "map_of (block_tables be) (sid g) = Some t" "t \<noteq> []" "set t \<subseteq> gpu_range be"
    "(sid g, t) \<in> set (block_tables be)"
proof -
  have "sid g \<in> set (keys (block_tables be))" using group_invD(5) [OF assms(1)] assms(2) by simp
  then obtain t where t: "map_of (block_tables be) (sid g) = Some t"
    by (metis map_of_eq_None_iff list.set_map not_Some_eq)
  then have "(sid g, t) \<in> set (block_tables be)" by (rule map_of_SomeD)
  moreover from this have "t \<noteq> [] \<and> set t \<subseteq> gpu_range be"
    using group_invD(6) [OF assms(1), of t] by force
  ultimately show ?thesis using t that by blast
qed

text \<open>The table of one sequence changes its length, and the blocks come from or go to the GPU free list.\<close>

definition resized :: "BlockEngine \<Rightarrow> nat \<Rightarrow> nat \<Rightarrow> BlockEngine \<Rightarrow> bool" where
  "resized be k m be' \<longleftrightarrow> length (table_of be' k) = m \<and> (\<forall>k'. k' \<noteq> k \<longrightarrow> table_of be' k' = table_of be k')
     \<and> num_gpu_blocks be' = num_gpu_blocks be
     \<and> get_num_free_blocks (gpu_allocator be) + length (table_of be k) = get_num_free_blocks (gpu_allocator be') + m"

subsection \<open>Freeing the table of a running group\<close>

lemma group_inv_freed:
  assumes inv: "group_inv be st ws rs" and g: "g \<in> set rs" and be': "be_inv be'" "num_gpu_blocks be' = num_gpu_blocks be"
    and m: "block_tables be = xs @ (sid g, t) # ys" "block_tables be' = xs @ ys"
  shows "group_inv be' st (g # ws) (remove1 g rs)"
  unfolding group_inv_def
proof (intro conjI)
  have dg: "distinct (map sid rs)" using group_invD(4) [OF inv] by simp
  show "be_inv be'" by (rule be'(1))
  show "distinct (all_refs be')" using group_invD(2) [OF inv] by (auto simp: all_refs_def m)
  have "set ((g # ws) @ remove1 g rs) \<subseteq> set (ws @ rs)" using g set_remove1_subset [of g rs] by auto
  then show "\<forall>g' \<in> set ((g # ws) @ remove1 g rs). single_ok st g'"
    using group_invD(3) [OF inv] by auto
  have "mset (map sid ((g # ws) @ remove1 g rs)) = mset (map sid (ws @ rs))"
    using g by (simp add: image_mset_Diff)
  then show "distinct (map sid ((g # ws) @ remove1 g rs))"
    using group_invD(4) [OF inv] mset_eq_imp_distinct_iff by blast
  have "set (remove1 g rs) = set rs - {g}" using dg by (simp add: distinct_map)
  then have "sid ` set (remove1 g rs) = sid ` set rs - {sid g}"
    using dg g by (auto simp: distinct_map inj_on_def)
  then show "set (keys (block_tables be')) = sid ` set (remove1 g rs)"
    using group_invD(5) [OF inv] be_invD(1) [OF group_invD(1) [OF inv]] by (auto simp: m)
  show "\<forall>t \<in> set (vals (block_tables be')). t \<noteq> [] \<and> set t \<subseteq> gpu_range be'"
    using group_invD(6) [OF inv] be'(2) by (simp add: m)
qed

lemma free_group:
  assumes inv: "group_inv be st ws rs" and g: "g \<in> set rs"
  shows "\<exists>be'. free_sequence (st (arc g)) be = Inr be' \<and> group_inv be' st (g # ws) (remove1 g rs)
     \<and> resized be (sid g) 0 be'"
proof -
  obtain t where t: "map_of (block_tables be) (sid g) = Some t" "t \<noteq> []" "set t \<subseteq> gpu_range be"
    using running_table [OF inv g] .
  have sg: "seq_id (st (arc g)) = sid g" using group_invD(3) [OF inv, of g] g by (simp add: single_ok_def)
  obtain xs ys where m: "block_tables be = xs @ (sid g, t) # ys" using map_of_split [OF t(1)] by blast
  have del: "AList.delete (sid g) (block_tables be) = xs @ ys"
    using delete_split be_invD(1) [OF group_invD(1) [OF inv]] m by metis
  obtain be' where f: "free_sequence (st (arc g)) be = Inr be'" "be_inv be'" "block_tables be' = xs @ ys"
      "num_gpu_blocks be' = num_gpu_blocks be"
    using free_sequence_ok [OF group_invD(1) [OF inv], of "st (arc g)" t] t sg del by fastforce
  have "group_inv be' st (g # ws) (remove1 g rs)"
    by (rule group_inv_freed [OF inv g f(2,4) m f(3)])
  moreover have refs: "set (all_refs be) = set (all_refs be') \<union> set t" "set (all_refs be') \<inter> set t = {}"
    using group_invD(2) [OF inv] f(3) by (auto simp: all_refs_def m)
  have "get_num_free_blocks (gpu_allocator be') = get_num_free_blocks (gpu_allocator be) + card (set t)"
    by (rule free_gpu_after [OF f(2) group_invD(1) [OF inv]]) (use refs t(3) f(4) in auto)
  moreover have "card (set t) = length t" "table_of be (sid g) = t" "table_of be' (sid g) = []"
      "\<And>k'. k' \<noteq> sid g \<Longrightarrow> table_of be' k' = table_of be k'"
    using group_invD(2) [OF inv] t(1) f(3) del [symmetric]
    by (simp_all add: all_refs_def m distinct_card table_of_def delete_conv')
  ultimately show ?thesis using f(1,4) by (auto simp: resized_def)
qed

subsection \<open>Reserving the slot of a running group\<close>

lemma append_group:
  assumes inv: "group_inv be st ws rs" and g: "g \<in> set rs" and can: "can_append_token_to_seq st g be"
  shows "\<exists>be'. append_token_slot_to_seq (st (arc g)) be = Inr (None, be') \<and> group_inv be' st ws rs
     \<and> resized be (sid g) (length (table_of be (sid g)) + blocks_to_add_new_tok (st (arc g))) be'"
proof -
  obtain t where t: "map_of (block_tables be) (sid g) = Some t" "t \<noteq> []" "set t \<subseteq> gpu_range be"
      "(sid g, t) \<in> set (block_tables be)"
    using running_table [OF inv g] .
  have sg: "seq_id (st (arc g)) = sid g" "seqs g = [(sid g, arc g)]"
    using group_invD(3) [OF inv, of g] g by (auto simp: single_ok_def)
  consider (one) "blocks_to_add_new_tok (st (arc g)) = 1" | (zero) "blocks_to_add_new_tok (st (arc g)) = 0"
    using blocks_to_add_cases [of "st (arc g)"] by fast
  then show ?thesis
  proof cases
    case one
    then have "free_blocks (gpu_allocator be) \<noteq> []"
      using can sg(2) by (auto simp: can_append_token_to_seq_def total_blocks_to_add_new_tok_def get_num_free_blocks_def)
    then obtain b al h where b: "append_token_slot_to_seq (st (arc g)) be = Inr (None, be\<lparr>gpu_allocator := al, blocks := h,
          block_tables := AList.update (sid g) (t @ [b]) (block_tables be)\<rparr>)"
        "be_inv (be\<lparr>gpu_allocator := al, blocks := h, block_tables := AList.update (sid g) (t @ [b]) (block_tables be)\<rparr>)"
        "b \<in> gpu_range be - set (all_refs be)"
      using append_slot_new [OF group_invD(1) [OF inv], of "st (arc g)" t] t(1) one sg(1) by auto
    obtain xs ys where m: "block_tables be = xs @ (sid g, t) # ys"
        "AList.update (sid g) (t @ [b]) (block_tables be) = xs @ (sid g, t @ [b]) # ys"
      using update_table [OF be_invD(1) [OF group_invD(1) [OF inv]] t(1)] by metis
    note upd = m(2) [unfolded m(1)]
    let ?be' = "be\<lparr>gpu_allocator := al, blocks := h, block_tables := AList.update (sid g) (t @ [b]) (block_tables be)\<rparr>"
    have "distinct (all_refs ?be')"
      using group_invD(2) [OF inv] b(3) by (auto simp: all_refs_def m(1) upd)
    moreover have "set (keys (block_tables ?be')) = sid ` set rs"
      using group_invD(5) [OF inv] upd by (simp add: m(1))
    moreover have "\<forall>t \<in> set (vals (block_tables ?be')). t \<noteq> [] \<and> set t \<subseteq> gpu_range ?be'"
      using group_invD(6) [OF inv] b(3) by (auto simp: m(1) upd)
    ultimately have "group_inv ?be' st ws rs" using b(2) inv by (simp add: group_inv_def)
    moreover have "get_num_free_blocks (gpu_allocator be) = get_num_free_blocks (gpu_allocator ?be') + card {b}"
      by (rule free_gpu_after [OF group_invD(1) [OF inv] b(2)]) (use b(3) in \<open>auto simp: all_refs_def m(1) upd\<close>)
    then have "resized be (sid g) (length t + 1) ?be'"
      using t(1) by (simp add: resized_def table_of_def update_conv)
    moreover have "table_of be (sid g) = t" using t(1) by (simp add: table_of_def)
    ultimately show ?thesis using b(1) one by auto
  next
    case zero
    have "last t \<in> set (all_refs be)" using t(2,4) by (force simp: all_refs_def)
    then have "count_list (all_refs be) (last t) = 1"
      using group_invD(2) [OF inv] by (simp add: count_list_distinct)
    then have "append_token_slot_to_seq (st (arc g)) be = Inr (None, be)"
      using append_slot_owned [OF group_invD(1) [OF inv] _ zero t(2)] t(1) sg(1) by simp
    then show ?thesis using inv zero by (auto simp: resized_def)
  qed
qed

subsection \<open>Allocating the table of a waiting group\<close>

lemma allocate_waiting_group:
  assumes inv: "group_inv be st (g # ws) rs"
    and room: "get_total_logical_token_blocks st g \<le> get_num_free_blocks (gpu_allocator be)"
  shows "\<exists>be'. BlockEngine_allocate st g be = Inr be' \<and> group_inv be' st ws (rs @ [g])
     \<and> get_num_free_blocks (gpu_allocator be) = get_num_free_blocks (gpu_allocator be') + get_total_logical_token_blocks st g
     \<and> resized be (sid g) (get_total_logical_token_blocks st g) be'"
proof -
  have sg: "seqs g = [(sid g, arc g)]" "0 < get_logical_token_blocks (st (arc g))"
    using group_invD(3) [OF inv, of g] by (auto simp: single_ok_def)
  have fresh: "sid g \<notin> set (keys (block_tables be))"
    using group_invD(4,5) [OF inv] by auto
  have "get_logical_token_blocks (st (arc g)) \<le> get_num_free_blocks (gpu_allocator be)"
    using room sg(1) by (simp add: get_total_logical_token_blocks_def)
  then obtain t al h where t: "BlockEngine_allocate st g be =
        Inr (be\<lparr>gpu_allocator := al, blocks := h, block_tables := block_tables be @ [(sid g, t)]\<rparr>)"
      "be_inv (be\<lparr>gpu_allocator := al, blocks := h, block_tables := block_tables be @ [(sid g, t)]\<rparr>)"
      "length t = get_logical_token_blocks (st (arc g))" "distinct t" "set t \<subseteq> gpu_range be - set (all_refs be)"
    using allocate_single [OF group_invD(1) [OF inv] sg(1) fresh, of st] by blast
  let ?be' = "be\<lparr>gpu_allocator := al, blocks := h, block_tables := block_tables be @ [(sid g, t)]\<rparr>"
  have "distinct (all_refs ?be')"
    using group_invD(2) [OF inv] t(4,5) by (auto simp: all_refs_def)
  moreover have "distinct (map sid (ws @ rs @ [g]))" using group_invD(4) [OF inv] by auto
  ultimately have "group_inv ?be' st ws (rs @ [g])"
    using t(2,3,5) sg(2) inv by (auto simp: group_inv_def)
  moreover have "get_num_free_blocks (gpu_allocator be) = get_num_free_blocks (gpu_allocator ?be') + card (set t)"
    by (rule free_gpu_after [OF group_invD(1) [OF inv] t(2)]) (use t(5) in \<open>auto simp: all_refs_def\<close>)
  moreover have "card (set t) = get_total_logical_token_blocks st g"
    using t(3,4) sg(1) by (simp add: distinct_card get_total_logical_token_blocks_def)
  moreover have none: "map_of (block_tables be) (sid g) = None" using fresh by (metis map_of_eq_None_iff list.set_map)
  then have "table_of ?be' (sid g) = t" "table_of be (sid g) = []" "\<And>k'. k' \<noteq> sid g \<Longrightarrow> table_of ?be' k' = table_of be k'"
    by (auto simp: table_of_def map_add_def split: option.splits)
  then have "resized be (sid g) (length t) ?be'"
    using \<open>get_num_free_blocks _ = _\<close> t(4) by (simp add: resized_def distinct_card)
  ultimately show ?thesis using t(1,4) by (auto simp: distinct_card)
qed

end
