(* ===== verification/Scheduling_Loops.thy ===== *)
theory Scheduling_Loops
  imports Scheduling_Invariant
begin

section \<open>The loops of the scheduler\<close>

text \<open>
  What \<open>preempt\<close>, the two loops of the decode phase and the admission loop do in a state that satisfies
  the invariant: they return (the admission may also panic), and move groups between the queues in a fixed
  order.
\<close>

abbreviation ginv :: "Scheduler \<Rightarrow> SequenceGroup list \<Rightarrow> bool" where
  "ginv s rs \<equiv> group_inv (block_engine s) (sequences s) (waiting s) rs"

text \<open>What \<open>schedule\<close> does not touch: the swapped out groups, the limits, and the tokens of every sequence.\<close>

definition same_setup :: "Scheduler \<Rightarrow> Scheduler \<Rightarrow> bool" where
  "same_setup s s' \<longleftrightarrow> swapped_out s' = swapped_out s \<and> config s' = config s
     \<and> (\<forall>a. get_logical_token_blocks (sequences s' a) = get_logical_token_blocks (sequences s a)
          \<and> blocks_to_add_new_tok (sequences s' a) = blocks_to_add_new_tok (sequences s a))"

lemma same_setup_trans: "same_setup s s1 \<Longrightarrow> same_setup s1 s2 \<Longrightarrow> same_setup s s2"
  by (simp add: same_setup_def)

lemma preempt_ok:
  assumes inv: "ginv s rs" and g: "g \<in> set rs"
  shows "\<exists>s'. preempt g s swaps = Inr (s', swaps) \<and> ginv s' (remove1 g rs) \<and> waiting s' = g # waiting s
     \<and> running s' = running s \<and> same_setup s s' \<and> resized (block_engine s) (sid g) 0 (block_engine s')"
proof -
  let ?st = "SequenceGroup_set_status (sequences s) g Waiting"
  have sg: "seqs g = [(sid g, arc g)]" using group_invD(3) [OF inv, of g] g by (simp add: single_ok_def)
  obtain be' where f: "free_sequence (?st (arc g)) (block_engine s) = Inr be'" "group_inv be' ?st (g # waiting s) (remove1 g rs)"
      "resized (block_engine s) (sid g) 0 be'"
    using free_group [of "block_engine s" ?st "waiting s" rs g] inv g by auto
  then show ?thesis
    using sg by (simp add: preempt_def preempt_by_recompute_def Scheduler_free_def set_group_status_def same_setup_def)
qed

lemma append_slot_group_ok:
  assumes inv: "ginv s rs" and g: "g \<in> set rs" and can: "can_append_token_to_seq (sequences s) g (block_engine s)"
  shows "\<exists>s'. append_token_slot_to_seq_group g s copies = Inr (s', copies) \<and> ginv s' rs \<and> waiting s' = waiting s
     \<and> running s' = running s \<and> same_setup s s'
     \<and> resized (block_engine s) (sid g)
         (length (table_of (block_engine s) (sid g)) + blocks_to_add_new_tok (sequences s (arc g))) (block_engine s')"
proof -
  have sg: "seqs g = [(sid g, arc g)]" using group_invD(3) [OF inv, of g] g by (simp add: single_ok_def)
  obtain be' where "append_token_slot_to_seq (sequences s (arc g)) (block_engine s) = Inr (None, be')"
      "group_inv be' (sequences s) (waiting s) rs" "resized (block_engine s) (sid g)
         (length (table_of (block_engine s) (sid g)) + blocks_to_add_new_tok (sequences s (arc g))) be'"
    using append_group [OF inv g can] by blast
  then show ?thesis
    using sg by (simp add: append_token_slot_to_seq_group_def append_slot_step_def same_setup_def)
qed

lemma remove1_snoc_new: "x \<notin> set xs \<Longrightarrow> remove1 x (xs @ x # ys) = xs @ ys"
  by (induction xs) auto

lemma drop_take_append: "drop k (take n xs) @ drop n xs = drop (min k n) xs"
proof (induction xs arbitrary: k n)
  case (Cons x xs)
  then show ?case by (cases k; cases n) simp_all
qed simp

lemma ginv_last_new:
  assumes "group_inv be st ws (xs @ [v])"
  shows "v \<notin> set xs"
  using group_invD(4) [OF assms] by (auto simp: distinct_map)

text \<open>A victim from the end of the queue.\<close>

lemma preempt_last:
  assumes inv: "ginv s (kept @ g # running s)" and rv: "running s = rest @ [v]"
  shows "\<exists>s1. preempt v (s\<lparr>running := rest\<rparr>) swaps = Inr (s1, swaps) \<and> ginv s1 (kept @ g # rest)
     \<and> waiting s1 = v # waiting s \<and> running s1 = rest \<and> same_setup s s1
     \<and> resized (block_engine s) (sid v) 0 (block_engine s1)"
proof -
  let ?s = "s\<lparr>running := rest\<rparr>"
  have inv': "ginv ?s ((kept @ g # rest) @ [v])" using inv rv by simp
  then have "v \<notin> set (kept @ g # rest)" by (rule ginv_last_new)
  then have "remove1 v ((kept @ g # rest) @ [v]) = kept @ g # rest"
    using remove1_snoc_new [of v "kept @ g # rest" "[]"] by simp
  then show ?thesis using preempt_ok [OF inv', of v swaps] by (simp add: same_setup_def)
qed

text \<open>The inner loop preempts a suffix of the queue, and in the end the group itself.\<close>

lemma make_room_ok:
  "ginv s (kept @ g # running s) \<Longrightarrow>
   \<exists>n s' broke. make_room g s swaps pre =
       Inr (broke, s', swaps, pre @ rev (drop n (running s)) @ (if broke then [g] else [])) \<and> same_setup s s'
     \<and> running s' = take n (running s) \<and> n \<le> length (running s)
     \<and> (if broke then n = 0 \<and> waiting s' = g # running s @ waiting s \<and> ginv s' kept
        else waiting s' = drop n (running s) @ waiting s \<and> ginv s' (kept @ g # running s')
             \<and> can_append_token_to_seq (sequences s') g (block_engine s'))"
proof (induction "length (running s)" arbitrary: s pre)
  case 0
  show ?case
  proof (cases "can_append_token_to_seq (sequences s) g (block_engine s)")
    case True
    then show ?thesis
      using 0 by (intro exI [of _ 0] exI [of _ s] exI [of _ False]) (simp add: make_room.simps [of g s] same_setup_def)
  next
    case False
    have "g \<notin> set kept" using ginv_last_new 0 by simp
    then have "remove1 g (kept @ g # running s) = kept" using 0 by (simp add: remove1_snoc_new)
    then obtain s' where "preempt g s swaps = Inr (s', swaps)" "ginv s' kept" "waiting s' = g # waiting s"
        "running s' = running s" "same_setup s s'"
      using preempt_ok [OF 0(2), of g swaps] by auto
    then show ?thesis using 0 False by (auto simp: make_room.simps [of g s])
  qed
next
  case (Suc m)
  show ?case
  proof (cases "can_append_token_to_seq (sequences s) g (block_engine s)")
    case True
    then show ?thesis
      using Suc.prems by (intro exI [of _ "length (running s)"] exI [of _ s] exI [of _ False]) (simp add: make_room.simps [of g s] same_setup_def)
  next
    case False
    obtain rest v where rv: "running s = rest @ [v]" using Suc(2) by (cases "running s" rule: rev_cases) auto
    obtain s1 where s1: "preempt v (s\<lparr>running := rest\<rparr>) swaps = Inr (s1, swaps)" "ginv s1 (kept @ g # rest)"
        "waiting s1 = v # waiting s" "running s1 = rest" "same_setup s s1"
      using preempt_last [OF Suc.prems rv] by blast
    obtain n s' broke where IH: "make_room g s1 swaps (pre @ [v]) =
         Inr (broke, s', swaps, (pre @ [v]) @ rev (drop n rest) @ (if broke then [g] else []))"
       "same_setup s1 s'" "running s' = take n rest" "n \<le> length rest"
       "if broke then n = 0 \<and> waiting s' = g # rest @ waiting s1 \<and> ginv s' kept
        else waiting s' = drop n rest @ waiting s1 \<and> ginv s' (kept @ g # running s')
             \<and> can_append_token_to_seq (sequences s') g (block_engine s')"
      using Suc.hyps(1) [of s1 "pre @ [v]", unfolded s1(4)] Suc.hyps(2) s1(2) rv by auto
    have "make_room g s swaps pre = make_room g s1 swaps (pre @ [v])"
      using False rv s1(1) by (simp add: make_room.simps [of g s])
    then show ?thesis
      using IH rv s1(3,5) by (intro exI [of _ n] exI [of _ s'] exI [of _ broke]) (auto simp: same_setup_def)
  qed
qed

text \<open>One round of the outer loop: the rest of the queue is preempted with the first group, or the group gets its slot.\<close>

lemma reserve_slots_round:
  assumes inv: "ginv s (kept @ running s)" and q: "running s = g # rest"
  obtains (broke) s1 pre1 where "reserve_slots s kept swaps copies pre = Inr (s1, kept, swaps, copies, pre1)"
      "same_setup s s1" "waiting s1 = running s @ waiting s" "ginv s1 kept"
  | (slot) n s2 pre1 where "reserve_slots s kept swaps copies pre = reserve_slots s2 (kept @ [g]) swaps copies pre1"
      "ginv s2 ((kept @ [g]) @ running s2)" "running s2 = take n rest" "waiting s2 = drop n rest @ waiting s" "same_setup s s2"
proof -
  let ?s = "s\<lparr>running := rest\<rparr>"
  have inv1: "ginv ?s (kept @ g # running ?s)" using inv q by simp
  have fields: "running ?s = rest" "waiting ?s = waiting s" by simp_all
  obtain n s1 broke where mr: "make_room g ?s swaps pre =
        Inr (broke, s1, swaps, pre @ rev (drop n rest) @ (if broke then [g] else []))"
      "same_setup ?s s1" "running s1 = take n rest"
      "if broke then n = 0 \<and> waiting s1 = g # rest @ waiting s \<and> ginv s1 kept
       else waiting s1 = drop n rest @ waiting s \<and> ginv s1 (kept @ g # running s1)
           \<and> can_append_token_to_seq (sequences s1) g (block_engine s1)"
    using make_room_ok [OF inv1, of swaps pre, unfolded fields] by blast
  show thesis
  proof (cases broke)
    case True
    then have "running s1 = []" using mr(3,4) by simp
    then show thesis
      using mr True q by (intro that(1) [of s1]) (auto simp: reserve_slots.simps [of s] reserve_slots.simps [of s1] same_setup_def)
  next
    case False
    then obtain s2 where s2: "append_token_slot_to_seq_group g s1 copies = Inr (s2, copies)" "ginv s2 (kept @ g # running s1)"
        "waiting s2 = waiting s1" "running s2 = running s1" "same_setup s1 s2"
      using append_slot_group_ok [of s1 "kept @ g # running s1" g copies] mr(4) by auto
    then show thesis
      using mr False q by (intro that(2) [of s2 _ n]) (auto simp: reserve_slots.simps [of s] same_setup_def)
  qed
qed

text \<open>The outer loop keeps a prefix of the queue; the rest goes in order to the front of \<open>waiting\<close>.\<close>

lemma reserve_slots_ok:
  "ginv s (kept @ running s) \<Longrightarrow>
   \<exists>n s' pre'. reserve_slots s kept swaps copies pre = Inr (s', kept @ take n (running s), swaps, copies, pre')
     \<and> same_setup s s' \<and> waiting s' = drop n (running s) @ waiting s \<and> ginv s' (kept @ take n (running s))"
proof (induction "length (running s)" arbitrary: s kept pre rule: less_induct)
  case less
  show ?case
  proof (cases "running s")
    case Nil
    then show ?thesis using less.prems by (simp add: reserve_slots.simps [of s] same_setup_def)
  next
    case (Cons g rest)
    show ?thesis
    proof (cases rule: reserve_slots_round [OF less.prems Cons, of swaps copies pre])
      case (1 s1 pre1)
      then show ?thesis by (intro exI [of _ 0] exI [of _ s1] exI [of _ pre1]) simp
    next
      case (2 n s2 pre1)
      have len: "length (running s2) < length (running s)" using 2(3) Cons by simp
      obtain k s' pre' where IH: "reserve_slots s2 (kept @ [g]) swaps copies pre1 =
           Inr (s', (kept @ [g]) @ take k (running s2), swaps, copies, pre')" "same_setup s2 s'"
          "waiting s' = drop k (running s2) @ waiting s2" "ginv s' ((kept @ [g]) @ take k (running s2))"
        using less.hyps [OF len 2(2)] by blast
      have eqs: "take k (running s2) = take (min k n) rest" "drop k (running s2) @ drop n rest = drop (min k n) rest"
        using 2(3) by (simp_all add: min.commute drop_take_append)
      then show ?thesis
        using IH 2(1,4,5) Cons
        by (intro exI [of _ "Suc (min k n)"] exI [of _ s'] exI [of _ pre']) (auto simp: same_setup_def)
    qed
  qed
qed

end
