(* ===== verification/Scheduling_Properties.thy ===== *)
theory Scheduling_Properties
  imports Scheduling_Loops
begin

section \<open>What the scheduler guarantees\<close>

text \<open>
  The admission loop, and the properties of \<open>schedule\<close> and \<open>free_finished_sequence_groups\<close> on
  states that satisfy \<open>sched_inv\<close>.
\<close>

lemma mset_take_drop: "mset (take n xs) + mset (drop n xs) = mset xs"
  by (metis append_take_drop_id mset_append)

subsection \<open>Admission\<close>

text \<open>The blocks that are free, and the blocks that the waiting groups ask for.\<close>

abbreviation num_free :: "Scheduler \<Rightarrow> nat" where
  "num_free s \<equiv> get_num_free_blocks (gpu_allocator (block_engine s))"

definition demand :: "Scheduler \<Rightarrow> nat" where
  "demand s = sum_list (map (get_total_logical_token_blocks (sequences s)) (waiting s))"

lemma start_group_ok:
  assumes inv: "ginv s (running s)" and w: "waiting s = g # rest"
    and room: "get_total_logical_token_blocks (sequences s) g \<le> get_num_free_blocks (gpu_allocator (block_engine s))"
  shows "\<exists>s'. start_group g s = Inr (g, s') \<and> ginv s' (running s') \<and> same_setup s s'
     \<and> waiting s' = rest \<and> running s' = running s @ [g]
     \<and> num_free s = num_free s' + get_total_logical_token_blocks (sequences s) g
     \<and> demand s = demand s' + get_total_logical_token_blocks (sequences s) g
     \<and> resized (block_engine s) (sid g) (get_total_logical_token_blocks (sequences s) g) (block_engine s')"
proof -
  let ?st = "SequenceGroup_set_status (sequences s) g Running"
  have req: "get_total_logical_token_blocks ?st g = get_total_logical_token_blocks (sequences s) g"
    by (simp add: get_total_logical_token_blocks_def)
  have same: "get_total_logical_token_blocks ?st = get_total_logical_token_blocks (sequences s)"
    by (rule ext) (simp add: get_total_logical_token_blocks_def)
  obtain be' where "BlockEngine_allocate ?st g (block_engine s) = Inr be'" "group_inv be' ?st rest (running s @ [g])"
      "num_free s = get_num_free_blocks (gpu_allocator be') + get_total_logical_token_blocks ?st g"
      "resized (block_engine s) (sid g) (get_total_logical_token_blocks ?st g) be'"
    using allocate_waiting_group [of "block_engine s" ?st g rest "running s"] inv w room req by auto
  then show ?thesis
    using w by (simp add: start_group_def Scheduler_allocate_def set_group_status_def same_setup_def demand_def same)
qed

lemma start_group_exhausted:
  assumes inv: "be_inv (block_engine s)"
    and full: "get_num_free_blocks (gpu_allocator (block_engine s)) < get_total_logical_token_blocks (sequences s) g"
  shows "start_group g s = Inl (Panic UnwrapNone)"
  using allocate_exhausted [OF inv, of "SequenceGroup_set_status (sequences s) g Running" g] full
  by (simp add: start_group_def Scheduler_allocate_def set_group_status_def get_total_logical_token_blocks_def)

lemma free_le_total:
  assumes "be_inv be"
  shows "get_num_free_blocks (gpu_allocator be) \<le> num_gpu_blocks be"
proof -
  have "card (gpu_range be - set (all_refs be)) \<le> card (gpu_range be)" by (intro card_mono) auto
  then show ?thesis using length_free_gpu [OF assms] by (simp add: get_num_free_blocks_def)
qed

text \<open>The group does not fit now: the loop stops before it, or panics.\<close>

lemma admit_no_room:
  assumes inv: "ginv s (running s)" and w: "waiting s = g # rest"
    and full: "get_num_free_blocks (gpu_allocator (block_engine s)) < get_total_logical_token_blocks (sequences s) g"
  shows "admit s sched ign = (if max_num_seqs (config s) = num_running_seqs s + 1 \<or> can_allocate (sequences s) g (block_engine s) = Later
     then Inr (s, sched, ign) else Inl (Panic UnwrapNone))"
proof -
  let ?s = "(set_group_status g FinishedIgnored s)\<lparr>waiting := rest\<rparr>"
  have b: "be_inv (block_engine s)" using group_invD(1) [OF inv] .
  have "start_group g ?s = Inl (Panic UnwrapNone)"
    using full b by (intro start_group_exhausted) (simp_all add: set_group_status_def get_total_logical_token_blocks_def)
  then show ?thesis
    using start_group_exhausted [OF b full] w
    by (auto simp: admit.simps [of s] split: AllocStatus.splits)
qed

text \<open>One round of the admission: it panics for lack of blocks, stops, or starts the first waiting group.\<close>

lemma admit_round:
  assumes inv: "ginv s (running s)" and w: "waiting s = g # rest"
  obtains (panic) "admit s sched ign = Inl (Panic UnwrapNone)" "num_free s < demand s"
  | (stops) "admit s sched ign = Inr (s, sched, ign)"
  | (starts) s1 where "admit s sched ign = admit s1 (sched @ [g]) ign" "ginv s1 (running s1)" "same_setup s s1"
      "waiting s1 = rest" "running s1 = running s @ [g]" "num_running_seqs s1 = num_running_seqs s + 1"
      "max_num_seqs (config s) \<noteq> num_running_seqs s + 1" "num_free s1 < demand s1 \<Longrightarrow> num_free s < demand s"
proof (cases "get_total_logical_token_blocks (sequences s) g \<le> get_num_free_blocks (gpu_allocator (block_engine s))")
  case False
  moreover from this have "num_free s < demand s" using w by (simp add: demand_def)
  ultimately show thesis using admit_no_room [OF inv w, of sched ign] panic stops by (metis not_le)
next
  case True
  show thesis
  proof (cases "max_num_seqs (config s) = num_running_seqs s + 1 \<or> can_allocate (sequences s) g (block_engine s) \<noteq> AllocOk")
    case stop: True
    have "can_allocate (sequences s) g (block_engine s) \<noteq> Impossible"
      using free_le_total [OF group_invD(1) [OF inv]] True by (auto simp: can_allocate_def Let_def)
    then show thesis
      using stop w by (intro stops) (auto simp: admit.simps [of s] split: AllocStatus.splits)
  next
    case go: False
    obtain s1 where s1: "start_group g s = Inr (g, s1)" "ginv s1 (running s1)" "same_setup s s1"
        "waiting s1 = rest" "running s1 = running s @ [g]"
        "num_free s = num_free s1 + get_total_logical_token_blocks (sequences s) g"
        "demand s = demand s1 + get_total_logical_token_blocks (sequences s) g"
      using start_group_ok [OF inv w True] by blast
    have "length (seqs g) = 1" using group_invD(3) [OF inv, of g] w by (simp add: single_ok_def)
    then show thesis
      using go w s1 by (intro starts [of s1]) (simp_all add: admit.simps [of s] num_running_seqs_def)
  qed
qed

lemma admit_ok:
  "ginv s (running s) \<Longrightarrow>
   admit s sched ign = Inl (Panic UnwrapNone) \<and> num_free s < demand s
   \<or> (\<exists>n s'. admit s sched ign = Inr (s', sched @ take n (waiting s), ign) \<and> ginv s' (running s') \<and> same_setup s s'
        \<and> n \<le> length (waiting s) \<and> waiting s' = drop n (waiting s) \<and> running s' = running s @ take n (waiting s)
        \<and> (n = 0 \<longrightarrow> s' = s)
        \<and> (num_running_seqs s < max_num_seqs (config s) \<longrightarrow> num_running_seqs s' < max_num_seqs (config s)))"
proof (induction "length (waiting s)" arbitrary: s sched)
  case 0
  then show ?case by (simp add: admit.simps [of s] same_setup_def)
next
  case (Suc m)
  obtain g rest where w: "waiting s = g # rest" using Suc(2) by (cases "waiting s") auto
  show ?case
  proof (cases rule: admit_round [OF Suc.prems w, of sched ign])
    case 1
    then show ?thesis by simp
  next
    case 2
    then show ?thesis using Suc.prems by (intro disjI2 exI [of _ 0] exI [of _ s]) (simp add: same_setup_def)
  next
    case (3 s1)
    have "m = length (waiting s1)" using Suc.hyps(2) w 3(4) by simp
    from Suc.hyps(1) [OF this 3(2), of "sched @ [g]"] show ?thesis
    proof (elim disjE exE)
      assume "admit s1 (sched @ [g]) ign = Inl (Panic UnwrapNone) \<and> num_free s1 < demand s1"
      then show ?thesis using 3(1,8) by simp
    next
      fix n s'
      assume "admit s1 (sched @ [g]) ign = Inr (s', (sched @ [g]) @ take n (waiting s1), ign)
          \<and> ginv s' (running s') \<and> same_setup s1 s' \<and> n \<le> length (waiting s1) \<and> waiting s' = drop n (waiting s1)
          \<and> running s' = running s1 @ take n (waiting s1) \<and> (n = 0 \<longrightarrow> s' = s1)
          \<and> (num_running_seqs s1 < max_num_seqs (config s1) \<longrightarrow> num_running_seqs s' < max_num_seqs (config s1))"
      then show ?thesis
        using w 3 by (intro disjI2 exI [of _ "Suc n"] exI [of _ s']) (auto simp: same_setup_def)
    qed
  qed
qed

subsection \<open>The decode phase\<close>

lemma schedule_decode_ok:
  assumes "sched_inv s"
  shows "\<exists>n out s'. schedule_decode s = Inr (out, s') \<and> sched_inv s' \<and> config s' = config s
     \<and> running s' = take n (rev (sort_key sg_arrival_time (running s)))
     \<and> waiting s' = drop n (rev (sort_key sg_arrival_time (running s))) @ waiting s
     \<and> out = \<lparr>scheduled = running s', blocks_to_swap_in = [], blocks_to_swap_out = [], blocks_to_copy = [],
              ignored_seq_groups = []\<rparr>
     \<and> (\<exists>s1 pre. reserve_slots (sort_running_by_priority_fcfs s) [] [] [] [] = Inr (s1, running s', [], [], pre)
          \<and> s' = sort_swapped_out_by_priority_fcfs (s1\<lparr>running := running s'\<rparr>))"
proof -
  let ?q = "rev (sort_key sg_arrival_time (running s))"
  let ?s = "sort_running_by_priority_fcfs s"
  have inv: "ginv s (running s)" "swapped_out s = []" using assms by (auto simp: sched_inv_def)
  have "ginv ?s ([] @ running ?s)"
    using group_inv_perm [OF inv(1), of "waiting s" ?q] by (simp add: sort_running_by_priority_fcfs_def)
  then obtain n s1 pre where r: "reserve_slots ?s [] [] [] [] = Inr (s1, [] @ take n (running ?s), [], [], pre)"
      "same_setup ?s s1" "waiting s1 = drop n (running ?s) @ waiting ?s" "ginv s1 ([] @ take n (running ?s))"
    using reserve_slots_ok [of ?s "[]" "[]" "[]" "[]"] by blast
  let ?s2 = "sort_swapped_out_by_priority_fcfs (s1\<lparr>running := take n ?q\<rparr>)"
  have sw: "swapped_out ?s2 = []" "config ?s2 = config s" "running ?s2 = take n ?q" "waiting ?s2 = drop n ?q @ waiting s"
      "ginv ?s2 (running ?s2)"
    using r(2-4) inv(2)
    by (simp_all add: sort_swapped_out_by_priority_fcfs_def sort_running_by_priority_fcfs_def same_setup_def)
  have "schedule_decode s = Inr (\<lparr>scheduled = running ?s2, blocks_to_swap_in = [], blocks_to_swap_out = [],
      blocks_to_copy = [], ignored_seq_groups = []\<rparr>, ?s2)"
    using r(1) sw(1) by (simp add: schedule_decode_def Let_def swap_in_groups.simps [of ?s2] sort_running_by_priority_fcfs_def)
  then show ?thesis
    using sw r(1)
    by (intro exI [of _ n] exI [of _ _] exI [of _ ?s2] conjI exI [of _ s1] exI [of _ pre])
      (auto simp: sched_inv_def sort_running_by_priority_fcfs_def)
qed

lemma num_running_single: "ginv s (running s) \<Longrightarrow> num_running_seqs s = length (running s)"
proof -
  assume "ginv s (running s)"
  then have "map (\<lambda>g. length (seqs g)) (running s) = map (\<lambda>_. 1) (running s)"
    using group_invD(3) by (auto simp: single_ok_def)
  then show ?thesis by (simp add: num_running_seqs_def map_replicate_const sum_list_replicate)
qed

text \<open>The three ways \<open>schedule\<close> goes: it panics, admits a prefix of \<open>waiting\<close>, or goes on to the decode phase.\<close>

lemma schedule_cases:
  assumes "sched_inv s"
  obtains (panics) "schedule s = Inl (Panic UnwrapNone)" "num_free s < demand s"
  | (admits) n s' where "schedule s = Inr (\<lparr>scheduled = take n (waiting s), blocks_to_swap_in = [],
        blocks_to_swap_out = [], blocks_to_copy = [], ignored_seq_groups = []\<rparr>, s')"
      "sched_inv s'" "config s' = config s" "waiting s' = drop n (waiting s)" "running s' = running s @ take n (waiting s)"
      "num_running_seqs s < max_num_seqs (config s) \<longrightarrow> num_running_seqs s' < max_num_seqs (config s)"
  | (decodes) n s' where "schedule s = Inr (\<lparr>scheduled = running s', blocks_to_swap_in = [],
        blocks_to_swap_out = [], blocks_to_copy = [], ignored_seq_groups = []\<rparr>, s')"
      "sched_inv s'" "config s' = config s"
      "running s' = take n (rev (sort_key sg_arrival_time (running s)))"
      "waiting s' = drop n (rev (sort_key sg_arrival_time (running s))) @ waiting s"
proof -
  have inv: "ginv s (running s)" "swapped_out s = []" using assms by (auto simp: sched_inv_def)
  consider (p) "admit s [] [] = Inl (Panic UnwrapNone)" "num_free s < demand s"
    | (r) n s' where "admit s [] [] = Inr (s', take n (waiting s), [])" "ginv s' (running s')" "same_setup s s'"
        "n \<le> length (waiting s)" "waiting s' = drop n (waiting s)" "running s' = running s @ take n (waiting s)"
        "n = 0 \<longrightarrow> s' = s"
        "num_running_seqs s < max_num_seqs (config s) \<longrightarrow> num_running_seqs s' < max_num_seqs (config s)"
    using admit_ok [OF inv(1), of "[]" "[]"] unfolding append_Nil by blast
  then show ?thesis
  proof cases
    case p
    then show ?thesis using inv(2) by (intro panics) (simp add: schedule_def)
  next
    case (r n s')
    show ?thesis
    proof (cases "take n (waiting s) = []")
      case True
      then have "s' = s" using r(4,7) by auto
      then have "schedule s = schedule_decode s" using r(1) True inv(2) by (simp add: schedule_def)
      then show ?thesis using schedule_decode_ok [OF assms] decodes by metis
    next
      case False
      then show ?thesis
        using r inv(2) by (intro admits [of n s']) (simp_all add: schedule_def sched_inv_def same_setup_def)
    qed
  qed
qed

subsection \<open>Sample states\<close>

text \<open>
  \<open>fresh_scheduler n\<close>: a group of \<open>n\<close> blocks waits for an empty GPU of four blocks.  \<open>busy_scheduler\<close>: two groups run,
  both need a block for their next token, and one is free.
\<close>

definition fresh_scheduler :: "nat \<Rightarrow> Scheduler" where
  "fresh_scheduler n = \<lparr>waiting = [sample_group [5] 10], running = [], swapped_out = [], config = \<lparr>max_num_seqs = 8\<rparr>,
     block_engine = BlockEngine_new 1 4 0, sequences = (\<lambda>i. full_seq i n)\<rparr>"

definition busy_scheduler :: Scheduler where
  "busy_scheduler = \<lparr>waiting = [], running = [sample_group [5] 10, sample_group [6] 20], swapped_out = [],
     config = \<lparr>max_num_seqs = 8\<rparr>, block_engine = two_owners, sequences = (\<lambda>i. full_seq i 1)\<rparr>"

lemma sched_inv_fresh: "0 < n \<Longrightarrow> sched_inv (fresh_scheduler n)"
  by (simp add: sched_inv_def group_inv_def fresh_scheduler_def be_inv_new single_ok_def sid_def arc_def)

lemma sched_inv_busy: "sched_inv busy_scheduler"
proof -
  have "distinct (all_refs two_owners)" "set (keys (block_tables two_owners)) = {5, 6}"
      "vals (block_tables two_owners) = [[0], [1]]" "num_gpu_blocks two_owners = 3"
    by (auto simp: two_owners_def all_refs_def)
  then show ?thesis
    using be_inv_two_owners
    by (simp add: sched_inv_def group_inv_def busy_scheduler_def single_ok_def sid_def arc_def)
qed

subsection \<open>Properties\<close>

text \<open>
  C4: safety of \<open>schedule\<close>.  From a state that satisfies the invariant, \<open>schedule\<close> either returns a state
  that satisfies it again, or panics by unwrapping an exhausted free list in the admission, which happens only
  when the waiting groups ask for more blocks than are free; no double free, no missing table, no deadlock.  When it returns, no group is lost or duplicated, every scheduled group is
  running, and nothing is swapped, copied or ignored.
\<close>

theorem schedule_safe:
  assumes "sched_inv s"
  shows "schedule s = Inl (Panic UnwrapNone)
         \<and> get_num_free_blocks (gpu_allocator (block_engine s)) < demand s
    \<or> (\<exists>out s'. schedule s = Inr (out, s') \<and> sched_inv s' \<and> config s' = config s
         \<and> mset (waiting s' @ running s') = mset (waiting s @ running s)
         \<and> set (scheduled out) \<subseteq> set (running s')
         \<and> blocks_to_swap_in out = [] \<and> blocks_to_swap_out out = [] \<and> blocks_to_copy out = []
         \<and> ignored_seq_groups out = [])"
  using assms
proof (cases rule: schedule_cases)
  case panics
  then show ?thesis by simp
next
  case (admits n s')
  have "mset (waiting s' @ running s') = mset (waiting s @ running s)"
    using mset_take_drop [of n "waiting s"] admits(4,5) by (simp add: ac_simps)
  then show ?thesis using admits by simp
next
  case (decodes n s')
  let ?q = "rev (sort_key sg_arrival_time (running s))"
  have "mset (waiting s' @ running s') = mset (waiting s @ running s)"
    using mset_take_drop [of n ?q] decodes(4,5) by (simp add: ac_simps)
  then show ?thesis using decodes by simp
qed

theorem schedule_safe_witness:
  "sched_inv (fresh_scheduler 3) \<and>
   (\<exists>out s'. schedule (fresh_scheduler 3) = Inr (out, s') \<and> sched_inv s'
         \<and> mset (waiting s' @ running s') = {#sample_group [5] 10#})"
proof -
  have "mset (waiting (fresh_scheduler 3) @ running (fresh_scheduler 3)) = {#sample_group [5] 10#}"
    by (simp add: fresh_scheduler_def)
  moreover have "\<not> num_free (fresh_scheduler 3) < demand (fresh_scheduler 3)"
    by (simp add: fresh_scheduler_def demand_def get_total_logical_token_blocks_def)
  ultimately show ?thesis
    using schedule_safe [OF sched_inv_fresh [of 3]] sched_inv_fresh [of 3] by auto
qed

text \<open>
  C5: the decode phase always returns.  When the admission lets nobody in (nobody waits, the batch is full,
  or the front group is put off), \<open>schedule\<close> returns and keeps the invariant.  The running queue becomes a
  prefix of itself sorted by arrival with the latest first, and the preempted rest goes to the front of the
  waiting queue: the groups that lose their blocks are the earliest arrivals.
\<close>

theorem schedule_decode_total:
  assumes inv: "sched_inv s"
    and none: "waiting s = [] \<or> max_num_seqs (config s) = num_running_seqs s + 1
       \<or> can_allocate (sequences s) (hd (waiting s)) (block_engine s) = Later"
  shows "\<exists>n out s'. schedule s = Inr (out, s') \<and> sched_inv s'
     \<and> running s' = take n (rev (sort_key sg_arrival_time (running s)))
     \<and> waiting s' = drop n (rev (sort_key sg_arrival_time (running s))) @ waiting s
     \<and> scheduled out = running s'
     \<and> (\<forall>lost \<in> set (drop n (rev (sort_key sg_arrival_time (running s)))). \<forall>kept \<in> set (running s').
          sg_arrival_time lost \<le> sg_arrival_time kept)"
proof -
  let ?q = "rev (sort_key sg_arrival_time (running s))"
  have "swapped_out s = []" using inv by (simp add: sched_inv_def)
  moreover have "admit s [] [] = Inr (s, [], [])"
    using none by (cases "waiting s") (auto simp: admit.simps [of s])
  ultimately have "schedule s = schedule_decode s" by (simp add: schedule_def)
  then obtain n out s' where d: "schedule s = Inr (out, s')" "sched_inv s'" "running s' = take n ?q"
      "waiting s' = drop n ?q @ waiting s" "scheduled out = running s'"
    using schedule_decode_ok [OF inv] by auto
  have "sorted_wrt (\<lambda>a b. sg_arrival_time b \<le> sg_arrival_time a) (take n ?q @ drop n ?q)"
    using sorted_sort_key [of sg_arrival_time "running s"]
    by (simp add: sorted_wrt_rev sorted_map)
  then have "\<forall>lost \<in> set (drop n ?q). \<forall>kept \<in> set (take n ?q). sg_arrival_time lost \<le> sg_arrival_time kept"
    unfolding sorted_wrt_append by blast
  then show ?thesis using d by auto
qed

theorem schedule_decode_total_witness:
  "\<exists>n out s'. schedule busy_scheduler = Inr (out, s') \<and> sched_inv s'
     \<and> running s' = take n [sample_group [6] 20, sample_group [5] 10]
     \<and> waiting s' = drop n [sample_group [6] 20, sample_group [5] 10]"
proof -
  have "rev (sort_key sg_arrival_time (running busy_scheduler)) = [sample_group [6] 20, sample_group [5] 10]"
      "waiting busy_scheduler = []"
    by (simp_all add: busy_scheduler_def)
  then show ?thesis
    using schedule_decode_total [OF sched_inv_busy] by auto
qed

text \<open>The test against the number of running sequences plus one stops one short of the configured maximum.\<close>

lemma schedule_keeps_bound:
  assumes "sched_inv s" "num_running_seqs s < max_num_seqs (config s)" "schedule s = Inr (out, s')"
  shows "num_running_seqs s' < max_num_seqs (config s')"
  using assms(1)
proof (cases rule: schedule_cases)
  case panics
  then show ?thesis using assms(3) by simp
next
  case (admits n s'')
  then show ?thesis using assms(2,3) by simp
next
  case (decodes n s'')
  have "ginv s (running s)" "ginv s'' (running s'')" using assms(1) decodes(2) by (auto simp: sched_inv_def)
  then have "num_running_seqs s'' \<le> num_running_seqs s" using decodes(4) by (simp add: num_running_single)
  then show ?thesis using decodes(1,3) assms(2,3) by simp
qed

text \<open>
  A group that can never fit is not ignored.  If the front group needs more blocks than the GPU has
  (\<open>AllocStatus::Impossible\<close>), \<open>schedule\<close> marks it \<open>FinishedIgnored\<close> and drops it from the queue, but then goes on to
  allocate for it, and panics.
\<close>

lemma schedule_impossible_panics:
  assumes "sched_inv s" "waiting s = g # rest" "max_num_seqs (config s) \<noteq> num_running_seqs s + 1"
    "num_gpu_blocks (block_engine s) < get_total_logical_token_blocks (sequences s) g"
  shows "can_allocate (sequences s) g (block_engine s) = Impossible \<and> schedule s = Inl (Panic UnwrapNone)"
proof -
  have inv: "be_inv (block_engine s)" "swapped_out s = []"
    using assms(1) by (auto simp: sched_inv_def group_inv_def)
  have can: "can_allocate (sequences s) g (block_engine s) = Impossible"
    using assms(4) by (simp add: can_allocate_def)
  let ?s = "(set_group_status g FinishedIgnored s)\<lparr>waiting := rest\<rparr>"
  have "start_group g ?s = Inl (Panic UnwrapNone)"
    using free_le_total [OF inv(1)] inv(1) assms(4)
    by (intro start_group_exhausted) (simp_all add: set_group_status_def get_total_logical_token_blocks_def)
  then show ?thesis
    using can assms(2,3) inv(2) by (simp add: schedule_def admit.simps [of s])
qed

subsection \<open>Freeing finished groups\<close>

lemma Scheduler_free_single:
  assumes inv: "ginv s rs" and g: "g \<in> set rs"
  shows "\<exists>be'. Scheduler_free g s = Inr (s\<lparr>block_engine := be'\<rparr>)
     \<and> group_inv be' (sequences s) (waiting s) (remove1 g rs) \<and> resized (block_engine s) (sid g) 0 be'"
proof -
  have sg: "seqs g = [(sid g, arc g)]" using group_invD(3) [OF inv, of g] g by (simp add: single_ok_def)
  obtain be' where "free_sequence (sequences s (arc g)) (block_engine s) = Inr be'"
      "group_inv be' (sequences s) (g # waiting s) (remove1 g rs)" "resized (block_engine s) (sid g) 0 be'"
    using free_group [OF inv g] by blast
  then show ?thesis using sg by (auto simp: Scheduler_free_def group_inv_def)
qed

text \<open>The loop over the finished groups: those still to come own their tables.\<close>

definition freeing :: "Scheduler \<Rightarrow> Scheduler \<Rightarrow> SequenceGroup list \<Rightarrow> bool" where
  "freeing s0 s gs \<longleftrightarrow> (\<exists>be'. s = s0\<lparr>block_engine := be'\<rparr>) \<and> ginv s (gs @ running s0)"

interpretation free_loop: guarded_loop "\<lambda>s g. Scheduler_free g s" "freeing s0" for s0
proof
  fix s g gs
  assume f: "freeing s0 s (g # gs)"
  then obtain be' where "Scheduler_free g s = Inr (s\<lparr>block_engine := be'\<rparr>)"
      "group_inv be' (sequences s) (waiting s) (remove1 g ((g # gs) @ running s0))"
    using Scheduler_free_single [of s "(g # gs) @ running s0" g] by (auto simp: freeing_def)
  then show "\<exists>s'. Scheduler_free g s = Inr s' \<and> freeing s0 s' gs"
    using f by (auto simp: freeing_def)
qed

lemma free_finished_ok:
  assumes "sched_inv s"
  shows "\<exists>s'. free_finished_sequence_groups s = Inr s' \<and> sched_inv s' \<and> waiting s' = waiting s
     \<and> running s' = filter (\<lambda>g. \<not> SequenceGroup_is_finished (sequences s) g) (running s)"
proof -
  let ?fin = "SequenceGroup_is_finished (sequences s)"
  let ?s0 = "s\<lparr>running := filter (\<lambda>g. \<not> ?fin g) (running s)\<rparr>"
  have "mset (filter ?fin (running s) @ filter (\<lambda>g. \<not> ?fin g) (running s)) = mset (running s)"
    using multiset_partition [of "mset (running s)" ?fin] by simp
  then have "freeing ?s0 ?s0 (filter ?fin (running s))"
    using assms group_inv_perm [of "block_engine s" "sequences s" "waiting s" "running s" "waiting s"]
    by (auto simp: freeing_def sched_inv_def intro!: exI [of _ "block_engine s"])
  then obtain s' where s': "foldE (\<lambda>s g. Scheduler_free g s) ?s0 (filter ?fin (running s)) = Inr s'" "freeing ?s0 s' []"
    using free_loop.loop_returns by blast
  have "sched_inv s'" "waiting s' = waiting s" "running s' = filter (\<lambda>g. \<not> ?fin g) (running s)"
    using s'(2) assms by (auto simp: freeing_def sched_inv_def)
  then show ?thesis using s'(1) by (auto simp: free_finished_sequence_groups_def)
qed

lemma free_finished_bound:
  assumes "sched_inv s" "free_finished_sequence_groups s = Inr s'"
  shows "num_running_seqs s' \<le> num_running_seqs s"
proof -
  have r: "sched_inv s'" "running s' = filter (\<lambda>g. \<not> SequenceGroup_is_finished (sequences s) g) (running s)"
    using free_finished_ok [OF assms(1)] assms(2) by auto
  then have "ginv s (running s)" "ginv s' (running s')" using assms(1) by (auto simp: sched_inv_def)
  then show ?thesis using r(2) by (simp add: num_running_single)
qed

lemma free_finished_keeps: "sched_inv s \<Longrightarrow> free_finished_sequence_groups s = Inr s' \<Longrightarrow> sched_inv s'"
  using free_finished_ok by force

text \<open>
  C14: \<open>free_finished_sequence_groups\<close> returns in every state that satisfies the invariant; exactly the finished
  groups leave the running queue, exactly the groups that stay keep a table, and the invariant holds again, so
  that every block of a finished group is back on the GPU free list.
\<close>

theorem free_finished_correct:
  assumes "sched_inv s"
  shows "\<exists>s'. free_finished_sequence_groups s = Inr s' \<and> sched_inv s' \<and> waiting s' = waiting s
     \<and> running s' = filter (\<lambda>g. \<not> SequenceGroup_is_finished (sequences s) g) (running s)
     \<and> set (keys (block_tables (block_engine s'))) = sid ` set (running s')
     \<and> set (free_blocks (gpu_allocator (block_engine s'))) = gpu_range (block_engine s') - set (all_refs (block_engine s'))"
proof -
  obtain s' where s': "free_finished_sequence_groups s = Inr s'" "sched_inv s'" "waiting s' = waiting s"
      "running s' = filter (\<lambda>g. \<not> SequenceGroup_is_finished (sequences s) g) (running s)"
    using free_finished_ok [OF assms] by blast
  have "set (keys (block_tables (block_engine s'))) = sid ` set (running s')"
      "set (free_blocks (gpu_allocator (block_engine s'))) = gpu_range (block_engine s') - set (all_refs (block_engine s'))"
    using free_gpu_set [of "block_engine s'"] s'(2) by (simp_all add: sched_inv_def group_inv_def)
  then show ?thesis using s' by auto
qed

theorem free_finished_correct_witness:
  "\<exists>s'. free_finished_sequence_groups (busy_scheduler\<lparr>sequences := (sequences busy_scheduler)(5 := set_finish_reason (full_seq 5 1) ''stop'')\<rparr>)
       = Inr s' \<and> sched_inv s' \<and> running s' = [sample_group [6] 20]"
proof -
  let ?s = "busy_scheduler\<lparr>sequences := (sequences busy_scheduler)(5 := set_finish_reason (full_seq 5 1) ''stop'')\<rparr>"
  have "sched_inv ?s"
    using sched_inv_busy
    by (auto simp: sched_inv_def group_inv_def busy_scheduler_def single_ok_def sid_def arc_def set_finish_reason_def
        get_logical_token_blocks_def full_seq_def)
  moreover have "filter (\<lambda>g. \<not> SequenceGroup_is_finished (sequences ?s) g) (running ?s) = [sample_group [6] 20]"
    by (simp add: busy_scheduler_def SequenceGroup_is_finished_def Sequence_is_finished_def set_finish_reason_def
        SequenceData_set_status_def full_seq_def SequenceData_new_def)
  ultimately show ?thesis using free_finished_correct [of ?s] by auto
qed

end
