(* ===== verification/Scheduling_Runs.thy ===== *)
theory Scheduling_Runs
  imports Scheduling_Properties
begin

section \<open>Runs of the scheduler\<close>

text \<open>
  The calls \<open>generate\<close> makes on the scheduler, in any order: \<open>add_request\<close> queues a group, \<open>schedule\<close> runs, a
  generated token is added to a running sequence, a running sequence gets its finish reason, finished groups
  are freed.  A queued group has one sequence, as every group of \<open>add_request\<close> has, and that sequence has a logical block: what
  \<open>add_request\<close> means to queue for a prompt with a token.  As written \<open>_Sequence::new\<close> panics on such prompts
  (\<open>Sequence_new_panics\<close>) and only the empty prompt is queued, so the results on reachable states are about the scheduler
  with sequences that hold their prompts.
\<close>

inductive sched_step :: "Scheduler \<Rightarrow> Scheduler \<Rightarrow> bool" where
  enqueue: "\<lbrakk>seqs g = [(seq_id q, a)]; 0 < get_logical_token_blocks q;
     seq_id q \<notin> sid ` set (waiting s @ running s); a \<notin> arc ` set (waiting s @ running s)\<rbrakk>
   \<Longrightarrow> sched_step s (add_sequence g (s\<lparr>sequences := (sequences s)(a := q)\<rparr>))"
| scheduling: "schedule s = Inr (out, s') \<Longrightarrow> sched_step s s'"
| token: "\<lbrakk>g \<in> set (running s); add_token (sequences s (arc g)) lp = Inr q\<rbrakk>
   \<Longrightarrow> sched_step s (s\<lparr>sequences := (sequences s)(arc g := q)\<rparr>)"
| finish: "g \<in> set (running s)
   \<Longrightarrow> sched_step s (s\<lparr>sequences := (sequences s)(arc g := set_finish_reason (sequences s (arc g)) reason)\<rparr>)"
| freeing_finished: "free_finished_sequence_groups s = Inr s' \<Longrightarrow> sched_step s s'"

inductive reachable :: "SchedulerConfig \<Rightarrow> CacheConfig \<Rightarrow> Scheduler \<Rightarrow> bool"
  for cfg :: SchedulerConfig and cache :: CacheConfig where
  start: "Scheduler_new cfg cache st = Inr s \<Longrightarrow> reachable cfg cache s"
| more: "reachable cfg cache s \<Longrightarrow> sched_step s s' \<Longrightarrow> reachable cfg cache s'"

lemma fold_free_config: "foldE (\<lambda>s g. Scheduler_free g s) s gs = Inr s' \<Longrightarrow> config s' = config s"
  by (induction gs arbitrary: s) (auto simp: bindE_Inr_iff dest!: Scheduler_free_queues)

text \<open>A change of the store that keeps the ids and does not shrink the sequences keeps the invariant.\<close>

lemma group_inv_store:
  assumes "group_inv be st ws rs"
    "\<And>g. g \<in> set (ws @ rs) \<Longrightarrow> seq_id (st' (arc g)) = seq_id (st (arc g))
       \<and> get_logical_token_blocks (st (arc g)) \<le> get_logical_token_blocks (st' (arc g))"
  shows "group_inv be st' ws rs"
proof -
  have "single_ok st' g" if g: "g \<in> set (ws @ rs)" for g
  proof -
    have "single_ok st g" using assms(1) g by (simp add: group_inv_def)
    then show ?thesis using assms(2) [OF g] by (simp add: single_ok_def)
  qed
  then show ?thesis using assms(1) by (simp add: group_inv_def)
qed

lemma add_token_grows:
  assumes "add_token s lp = Inr s'"
  shows "seq_id s' = seq_id s \<and> get_logical_token_blocks s \<le> get_logical_token_blocks s'"
  using assms
  by (auto simp: add_token_def append_token_to_blocks_def Let_def bindE_Inr_iff get_logical_token_blocks_def
      split: if_splits option.splits)

lemma sched_inv_new: "Scheduler_new cfg cache st = Inr s \<Longrightarrow> sched_inv s"
  by (auto simp: Scheduler_new_def bindE_Inr_iff sched_inv_def group_inv_def be_inv_new)

lemma sched_inv_enqueue:
  assumes inv: "sched_inv s" and g: "seqs g = [(seq_id q, a)]" "0 < get_logical_token_blocks q"
    and new: "seq_id q \<notin> sid ` set (waiting s @ running s)" "a \<notin> arc ` set (waiting s @ running s)"
  shows "sched_inv (add_sequence g (s\<lparr>sequences := (sequences s)(a := q)\<rparr>))"
proof -
  let ?st = "(sequences s)(a := q)"
  have "group_inv (block_engine s) ?st (waiting s) (running s)"
    by (rule group_inv_store [of _ "sequences s"]) (use inv new(2) in \<open>auto simp: sched_inv_def\<close>)
  moreover have "sid g = seq_id q" "arc g = a" using g(1) by (auto simp: sid_def arc_def)
  ultimately show ?thesis
    using inv g new(1) by (auto simp: sched_inv_def group_inv_def add_sequence_def single_ok_def)
qed

lemma sched_inv_step: "sched_step s s' \<Longrightarrow> sched_inv s \<Longrightarrow> sched_inv s'"
proof (induction rule: sched_step.induct)
  case (enqueue g q a s)
  then show ?case by (intro sched_inv_enqueue)
next
  case (scheduling s out s')
  from scheduling.prems show ?case by (cases rule: schedule_cases) (use scheduling.hyps in auto)
next
  case (token g s lp q)
  have "group_inv (block_engine s) ((sequences s)(arc g := q)) (waiting s) (running s)"
    by (rule group_inv_store [of _ "sequences s"])
      (use token.prems add_token_grows [OF token.hyps(2)] in \<open>auto simp: sched_inv_def\<close>)
  then show ?case using token.prems by (simp add: sched_inv_def)
next
  case (finish g s reason)
  have "group_inv (block_engine s) ((sequences s)(arc g := set_finish_reason (sequences s (arc g)) reason))
      (waiting s) (running s)"
    by (rule group_inv_store [of _ "sequences s"])
      (use finish.prems in \<open>auto simp: sched_inv_def set_finish_reason_def get_logical_token_blocks_def\<close>)
  then show ?case using finish.prems by (simp add: sched_inv_def)
next
  case (freeing_finished s s')
  then show ?case using free_finished_keeps by blast
qed

lemma reachable_inv: "reachable cfg cache s \<Longrightarrow> sched_inv s"
  by (induction rule: reachable.induct) (auto intro: sched_inv_new sched_inv_step)

text \<open>
  C1: nothing leaks.  In every state that a scheduler reaches by any order of its calls, for queued groups of one sequence
  with at least one logical block, the invariant \<open>sched_inv\<close> holds.  Spelled out: every running sequence has a table, not empty, of GPU blocks,
  no sequence that is not running has one, and no block is twice in the tables; the reference count of
  a block is the number of table entries that refer to it; and the GPU free list has every block that is in no table, once, and no other.
\<close>

theorem reachable_no_leak:
  assumes "reachable cfg cache s"
  shows "sched_inv s
    \<and> (\<forall>g \<in> set (running s). \<exists>t. map_of (block_tables (block_engine s)) (sid g) = Some t
         \<and> t \<noteq> [] \<and> set t \<subseteq> {..<num_gpu_blocks (block_engine s)})
    \<and> set (keys (block_tables (block_engine s))) = sid ` set (running s)
    \<and> distinct (map sid (waiting s @ running s))
    \<and> distinct (all_refs (block_engine s))
    \<and> (\<forall>b < next_addr (blocks (block_engine s)).
         refcount (cell (blocks (block_engine s)) b) = count_list (all_refs (block_engine s)) b)
    \<and> distinct (free_blocks (gpu_allocator (block_engine s)))
    \<and> set (free_blocks (gpu_allocator (block_engine s))) = {..<num_gpu_blocks (block_engine s)} - set (all_refs (block_engine s))"
proof -
  let ?be = "block_engine s"
  have inv: "ginv s (running s)" using reachable_inv [OF assms] by (simp add: sched_inv_def)
  note d = group_invD [OF inv]
  have "\<exists>t. map_of (block_tables ?be) (sid g) = Some t \<and> t \<noteq> [] \<and> set t \<subseteq> gpu_range ?be" if "g \<in> set (running s)" for g
    using running_table [OF inv that] by metis
  moreover have "distinct (free_blocks (gpu_allocator ?be))" using be_invD(5) [OF d(1)] by (simp add: pool_ok_def)
  ultimately show ?thesis
    using reachable_inv [OF assms] d(2,4,5) be_invD(4) [OF d(1)] free_gpu_set [OF d(1)] by blast
qed

text \<open>A run: a configured scheduler gets a request, and schedules it unless its limit is one.\<close>

definition sample_cache :: CacheConfig where
  "sample_cache = \<lparr>block_size = 1, cc_num_gpu_blocks = Some 4, cc_num_cpu_blocks = Some 0, fully_init = True\<rparr>"

lemma reachable_queued_limit:
  "reachable \<lparr>max_num_seqs = limit\<rparr> sample_cache ((fresh_scheduler 3)\<lparr>config := \<lparr>max_num_seqs = limit\<rparr>\<rparr>)"
proof -
  let ?st = "\<lambda>i. full_seq i 3"
  let ?s0 = "\<lparr>waiting = [], running = [], swapped_out = [], config = \<lparr>max_num_seqs = limit\<rparr>,
     block_engine = BlockEngine_new 1 4 0, sequences = ?st\<rparr>"
  have "Scheduler_new \<lparr>max_num_seqs = limit\<rparr> sample_cache ?st = Inr ?s0"
    by (simp add: Scheduler_new_def sample_cache_def assertE_def)
  then have r: "reachable \<lparr>max_num_seqs = limit\<rparr> sample_cache ?s0" by (rule reachable.start)
  have "sched_step ?s0 (add_sequence (sample_group [5] 10) (?s0\<lparr>sequences := (sequences ?s0)(5 := full_seq 5 3)\<rparr>))"
    by (rule sched_step.enqueue) simp_all
  moreover have "add_sequence (sample_group [5] 10) (?s0\<lparr>sequences := (sequences ?s0)(5 := full_seq 5 3)\<rparr>)
      = (fresh_scheduler 3)\<lparr>config := \<lparr>max_num_seqs = limit\<rparr>\<rparr>"
    by (simp add: add_sequence_def fresh_scheduler_def fun_upd_idem)
  ultimately show ?thesis using reachable.more [OF r] by simp
qed

lemma reachable_queued: "reachable \<lparr>max_num_seqs = 8\<rparr> sample_cache (fresh_scheduler 3)"
  using reachable_queued_limit [of 8] by (simp add: fresh_scheduler_def)

lemma reachable_running:
  assumes "limit \<noteq> 1"
  shows "\<exists>s. reachable \<lparr>max_num_seqs = limit\<rparr> sample_cache s \<and> running s = [sample_group [5] 10]
     \<and> length (table_of (block_engine s) 5) = 3 \<and> num_gpu_blocks (block_engine s) = 4"
proof -
  let ?s = "(fresh_scheduler 3)\<lparr>config := \<lparr>max_num_seqs = limit\<rparr>\<rparr>" and ?g = "sample_group [5] 10"
  have inv: "ginv ?s (running ?s)" using reachable_inv [OF reachable_queued_limit] by (simp add: sched_inv_def)
  have three: "get_total_logical_token_blocks (sequences ?s) ?g = 3" "num_free ?s = 4" "sid ?g = 5"
    by (simp_all add: fresh_scheduler_def get_total_logical_token_blocks_def sid_def)
  obtain s1 where s1: "start_group ?g ?s = Inr (?g, s1)" "waiting s1 = []" "running s1 = [?g]"
      "resized (block_engine ?s) 5 3 (block_engine s1)"
    using start_group_ok [OF inv, of ?g "[]"] three by (auto simp: fresh_scheduler_def)
  have "can_allocate (sequences ?s) ?g (block_engine ?s) = AllocOk"
    using three by (simp add: can_allocate_def) (simp add: fresh_scheduler_def)
  moreover have "waiting ?s = [?g]" "max_num_seqs (config ?s) \<noteq> num_running_seqs ?s + 1"
    using assms by (simp_all add: fresh_scheduler_def num_running_seqs_def)
  ultimately have "admit ?s [] [] = Inr (s1, [?g], [])"
    using s1(1,2) by (simp add: admit.simps [of ?s] admit.simps [of s1])
  then have "\<exists>out. schedule ?s = Inr (out, s1)" by (simp add: schedule_def) (simp add: fresh_scheduler_def)
  then have "reachable \<lparr>max_num_seqs = limit\<rparr> sample_cache s1"
    using reachable.more [OF reachable_queued_limit] sched_step.scheduling by blast
  then show ?thesis using s1(3,4) by (auto simp: resized_def fresh_scheduler_def)
qed

theorem reachable_no_leak_witness:
  "\<exists>s t. reachable \<lparr>max_num_seqs = 8\<rparr> sample_cache s \<and> running s = [sample_group [5] 10]
     \<and> map_of (block_tables (block_engine s)) 5 = Some t \<and> length t = 3 \<and> set t \<subseteq> {..<4}
     \<and> set (free_blocks (gpu_allocator (block_engine s))) = {..<4} - set t"
proof -
  obtain s where s: "reachable \<lparr>max_num_seqs = 8\<rparr> sample_cache s" "running s = [sample_group [5] 10]"
      "length (table_of (block_engine s) 5) = 3" "num_gpu_blocks (block_engine s) = 4"
    using reachable_running [of 8] by auto
  let ?bt = "block_tables (block_engine s)"
  note leak = reachable_no_leak [OF s(1)]
  obtain t where t: "map_of ?bt 5 = Some t" "set t \<subseteq> {..<4}" using leak s(2,4) by (auto simp: sid_def)
  have "set (keys ?bt) = {5}" "distinct (keys ?bt)"
    using leak s(2) be_invD(1) by (auto simp: sid_def sched_inv_def group_inv_def)
  then have "?bt = [(5, t)]" using t(1) by (cases ?bt; cases "tl ?bt") (auto split: if_splits)
  then have "all_refs (block_engine s) = t" by (simp add: all_refs_def)
  then show ?thesis using leak s t by (intro exI [of _ s] exI [of _ t]) (simp add: table_of_def)
qed

lemma step_keeps_bound:
  "sched_step s s' \<Longrightarrow> sched_inv s \<Longrightarrow> num_running_seqs s < max_num_seqs (config s)
   \<Longrightarrow> config s' = config s \<and> num_running_seqs s' < max_num_seqs (config s)"
proof (induction rule: sched_step.induct)
  case (scheduling s out s')
  from scheduling.prems(1) have "config s' = config s"
    by (cases rule: schedule_cases) (use scheduling.hyps in auto)
  then show ?case using schedule_keeps_bound [OF scheduling.prems scheduling.hyps] by simp
next
  case (freeing_finished s s')
  have "config s' = config s"
    using freeing_finished.hyps by (auto simp: free_finished_sequence_groups_def Let_def dest!: fold_free_config)
  then show ?case using free_finished_bound [OF freeing_finished.prems(1) freeing_finished.hyps] freeing_finished.prems(2)
    by simp
qed (auto simp: add_sequence_def num_running_seqs_def)

lemma reachable_bound:
  assumes "reachable cfg cache s" "0 < max_num_seqs cfg"
  shows "config s = cfg \<and> num_running_seqs s < max_num_seqs cfg"
  using assms
proof (induction rule: reachable.induct)
  case (start st s)
  then show ?case by (auto simp: Scheduler_new_def bindE_Inr_iff num_running_seqs_def)
next
  case (more s s')
  then show ?case using step_keeps_bound [OF more.hyps(2) reachable_inv [OF more.hyps(1)]] by simp
qed

text \<open>
  C15: the batch bound.  When \<open>max_num_seqs\<close> is positive, fewer sequences than that run in every reachable state (groups of one
  sequence with a logical block): the admission test stops one short of the configured maximum, so a maximum of one never runs anything.  A maximum
  of zero, which the command line accepts, is no bound: the test is for equality and never holds, and a scheduler with that maximum reaches a state in which a sequence runs.
\<close>

theorem reachable_batch_bound:
  assumes "reachable cfg cache s"
  shows "(0 < max_num_seqs cfg \<longrightarrow> config s = cfg \<and> num_running_seqs s < max_num_seqs cfg)
    \<and> (\<exists>s0. reachable \<lparr>max_num_seqs = 0\<rparr> sample_cache s0 \<and> num_running_seqs s0 = 1)"
proof -
  obtain s0 where "reachable \<lparr>max_num_seqs = 0\<rparr> sample_cache s0" "running s0 = [sample_group [5] 10]"
    using reachable_running [of 0] by auto
  then have "\<exists>s0. reachable \<lparr>max_num_seqs = 0\<rparr> sample_cache s0 \<and> num_running_seqs s0 = 1"
    by (intro exI [of _ s0]) (simp add: num_running_seqs_def)
  then show ?thesis using reachable_bound [OF assms] by blast
qed

theorem reachable_batch_bound_witness:
  "\<exists>s. reachable \<lparr>max_num_seqs = 2\<rparr> sample_cache s \<and> running s = [sample_group [5] 10] \<and> num_running_seqs s < 2"
proof -
  obtain s where s: "reachable \<lparr>max_num_seqs = 2\<rparr> sample_cache s" "running s = [sample_group [5] 10]"
    using reachable_running [of 2] by auto
  then show ?thesis using reachable_batch_bound [OF s(1)] by auto
qed

subsection \<open>Slots and tokens\<close>



end
