(* ===== verification/Sampling_Params.thy ===== *)
theory Sampling_Params
  imports Requests
begin

section \<open>Sampling parameters\<close>

text \<open>
  \<open>src/openai/sampling_params.rs\<close>: the parameters of a request, their verification, and the choice of
  the sampling method.  \<open>LogitsProcessor\<close> belongs to the sampling crate; the model keeps the arguments of its
  constructor.
\<close>

datatype SamplingType = BEAM | GREEDY | RANDOM

datatype EarlyStoppingCondition =
    BestOfCompleteCandidates
  | UnlikelyBetterCandidates
  | CanonicalNoBetterCandidates

definition SAMPLING_EPS :: f32 where
  "SAMPLING_EPS = Fin (2748779 / 274877906944)"

record SamplingParams =
  n :: nat
  best_of :: nat
  presence_penalty :: f32
  frequency_penalty :: f32
  repetition_penalty :: f32
  temperature :: f32
  top_p :: f32
  top_k :: int
  use_beam_search :: bool
  length_penalty :: f32
  early_stopping :: EarlyStoppingCondition
  stop :: "StopTokens option"
  stop_token_ids :: "nat list"
  ignore_eos :: bool
  max_tokens :: nat
  logprobs :: "nat option"
  prompt_logprobs :: "nat option"
  skip_special_tokens :: bool

text \<open>\<open>(lo..=hi).contains\<close> and \<open>(lo..hi).contains\<close>.\<close>

definition in_closed :: "f32 \<Rightarrow> f32 \<Rightarrow> f32 \<Rightarrow> bool" where
  "in_closed lo hi x = (f32_le lo x \<and> f32_le x hi)"

definition in_half_open :: "f32 \<Rightarrow> f32 \<Rightarrow> f32 \<Rightarrow> bool" where
  "in_half_open lo hi x = (f32_le lo x \<and> f32_lt x hi)"

definition verify_args :: "SamplingParams \<Rightarrow> unit res" where
  "verify_args p =
     (if n p < 1 then Inl (Err [Txt ''n must be at leas 1, got '', Num (int (n p)), Txt ''.''])
      else if best_of p < n p
      then Inl (Err [Txt ''best_of must be greater than or equal to n, got n='', Num (int (n p)),
                     Txt '' and best_of='', Num (int (best_of p))])
      else if \<not> in_closed (Fin (- 2)) (Fin 2) (presence_penalty p)
      then Inl (Err [Txt ''presence_penalty must be in [-2, 2], got '', Flt (presence_penalty p)])
      else if \<not> in_closed (Fin (- 2)) (Fin 2) (frequency_penalty p)
      then Inl (Err [Txt ''frequency_penalty must be in [-2, 2], got '', Flt (frequency_penalty p)])
      else if \<not> in_half_open (Fin 0) (Fin 2) (repetition_penalty p) \<or> f32_eq (repetition_penalty p) (Fin 0)
      then Inl (Err [Txt ''repetition_penalty must be in (0, 2], got '', Flt (repetition_penalty p)])
      else if f32_lt (temperature p) (Fin 0)
      then Inl (Err [Txt ''temperature must be non-negative, got '', Flt (temperature p)])
      else if max_tokens p < 1
      then Inl (Err [Txt ''max_tokens must be at least 1, got '', Num (int (max_tokens p))])
      else Inr ())"

definition verify_beam_search :: "SamplingParams \<Rightarrow> unit res" where
  "verify_beam_search p =
     (if best_of p \<le> 1
      then Inl (Err [Txt ''best_of must be greater than 1 when using beam search. Got '', Num (int (best_of p))])
      else if f32_lt SAMPLING_EPS (temperature p)
      then Inl (Err [Txt ''temperature must be 0 when using beam search''])
      else if f32_lt (top_p p) (f32_sub (Fin 1) SAMPLING_EPS)
      then Inl (Err [Txt ''top_p must be 1 when using beam search''])
      else if top_k p \<noteq> - 1
      then Inl (Err [Txt ''top_k must be -1 when using beam search''])
      else Inr ())"

definition verify_non_beam_search :: "SamplingParams \<Rightarrow> unit res" where
  "verify_non_beam_search p =
     (if early_stopping p \<noteq> UnlikelyBetterCandidates
      then Inl (Err [Txt ''early_stopping is not effective and must be UnlikelyBetterCandidates when not using beam search.''])
      else if f32_lt (length_penalty p) (f32_sub (Fin 1) SAMPLING_EPS) \<or> f32_lt (f32_add (Fin 1) SAMPLING_EPS) (length_penalty p)
      then Inl (Err [Txt ''length_penalty is not effective and must be the default value of 1.0 when not using beam search.''])
      else Inr ())"

definition verify_greedy_sampling :: "SamplingParams \<Rightarrow> unit res" where
  "verify_greedy_sampling p =
     (if 1 < best_of p
      then Inl (Err [Txt ''best_of must be 1 when using greedy sampling. Got '', Num (int (best_of p)), Txt ''.''])
      else if f32_lt (top_p p) (f32_sub (Fin 1) SAMPLING_EPS)
      then Inl (Err [Txt ''top_p must be 1 when using greedy sampling.''])
      else if \<not> f32_eq (top_p p) (Fin (- 1))
      then Inl (Err [Txt ''top_k must be -1 when using greedy sampling.''])
      else Inr ())"

text \<open>The checks of \<open>SamplingParams::new\<close>, and the constructor with its argument list.\<close>

definition verify_params :: "SamplingParams \<Rightarrow> SamplingParams res" where
  "verify_params this =
     bindE (verify_args this) (\<lambda>_.
     bindE (if use_beam_search this then verify_beam_search this
            else bindE (verify_non_beam_search this) (\<lambda>_.
                 if f32_lt (temperature this) SAMPLING_EPS then verify_greedy_sampling this else Inr ())) (\<lambda>_.
     Inr this))"

definition SamplingParams_new ::
    "nat \<Rightarrow> nat option \<Rightarrow> f32 \<Rightarrow> f32 \<Rightarrow> f32 \<Rightarrow> f32 \<Rightarrow> f32 \<Rightarrow> int \<Rightarrow> bool \<Rightarrow> f32 \<Rightarrow> EarlyStoppingCondition
     \<Rightarrow> StopTokens option \<Rightarrow> nat list \<Rightarrow> bool \<Rightarrow> nat \<Rightarrow> nat option \<Rightarrow> nat option \<Rightarrow> bool \<Rightarrow> SamplingParams res" where
  "SamplingParams_new n' best_of' presence frequency repetition temp topp topk beam lenpen early stp stop_ids
       ign max_toks lps plps skip_special =
     verify_params \<lparr>n = n', best_of = unwrap_or best_of' n', presence_penalty = presence, frequency_penalty = frequency,
       repetition_penalty = repetition, temperature = temp, top_p = topp, top_k = topk, use_beam_search = beam,
       length_penalty = lenpen, early_stopping = early, stop = stp, stop_token_ids = stop_ids, ignore_eos = ign,
       max_tokens = max_toks, logprobs = lps, prompt_logprobs = plps, skip_special_tokens = skip_special\<rparr>"

datatype SamplingMethod = Multinomial | TopK nat | TopP f32

record LogitsProcessor =
  lgp_seed :: nat
  lgp_temperature :: "f32 option"
  lgp_method :: SamplingMethod
  lgp_top_n_logprobs :: nat

definition get_logits_processor :: "nat \<Rightarrow> nat \<Rightarrow> SamplingParams \<Rightarrow> LogitsProcessor res" where
  "get_logits_processor seed top_n_logprobs p =
     (let mk = (\<lambda>meth. \<lparr>lgp_seed = seed, lgp_temperature = Some (temperature p), lgp_method = meth,
                       lgp_top_n_logprobs = top_n_logprobs\<rparr>)
      in if top_k p = - 1 \<and> f32_eq (top_p p) (Fin 1) then Inr (mk Multinomial)
         else if 0 < top_k p \<and> f32_eq (top_p p) (Fin 1) then Inr (mk (TopK (nat (top_k p))))
         else if top_k p = - 1 \<and> \<not> f32_eq (top_p p) (Fin 1) then Inr (mk (TopP (top_p p)))
         else Inl (Panic Unreachable))"

subsection \<open>The rounded bounds\<close>

lemma quotient_pow2:
  assumes "odd m"
  shows "quotient_of (of_int m / 2 ^ k) = (m, 2 ^ k)"
proof -
  have "coprime m (2 ^ k)" using assms by simp
  then show ?thesis
    using quotient_of_Fract [of m "2 ^ k"] by (simp add: Fract_of_int_quotient Rat.normalize_def)
qed

lemma f32_round_one_minus_eps: "f32_round (274875158165 / 274877906944) = Fin (2097131 / 2097152)"
proof -
  have "quotient_of (274875158165 / 274877906944) = (274875158165, 274877906944)"
    using quotient_pow2 [of 274875158165 38] by simp
  moreover have "floorlog 2 274875158165 = 38" "floorlog 2 274877906944 = 39"
    by (simp_all add: compute_floorlog)
  moreover have "\<lfloor>(274875158165::rat) / 16384\<rfloor> = 16777048" by (simp add: floor_eq_iff)
  ultimately show ?thesis
    by (simp add: f32_round_def exponent_of_def pow2_def round_half_even_def Let_def)
qed

lemma f32_round_one_plus_eps: "f32_round (274880655723 / 274877906944) = Fin (2097173 / 2097152)"
proof -
  have "quotient_of (274880655723 / 274877906944) = (274880655723, 274877906944)"
    using quotient_pow2 [of 274880655723 38] by simp
  moreover have "floorlog 2 274880655723 = 39" "floorlog 2 274877906944 = 39"
    by (simp_all add: compute_floorlog)
  moreover have "\<lfloor>(274880655723::rat) / 32768\<rfloor> = 8388691" by (simp add: floor_eq_iff)
  ultimately show ?thesis
    by (simp add: f32_round_def exponent_of_def pow2_def round_half_even_def Let_def)
qed

lemma eps_bounds [simp]:
  "f32_sub (Fin 1) SAMPLING_EPS = Fin (2097131 / 2097152)" "f32_add (Fin 1) SAMPLING_EPS = Fin (2097173 / 2097152)"
  using f32_round_one_minus_eps f32_round_one_plus_eps by (simp_all add: f32_sub_def SAMPLING_EPS_def)

lemma verify_greedy_rejects: "\<exists>m. verify_greedy_sampling p = Inl (Err m)"
proof -
  have "\<not> f32_eq (top_p p) (Fin (- 1))" if "\<not> f32_lt (top_p p) (Fin (2097131 / 2097152))"
    using that by (cases "top_p p") auto
  then show ?thesis by (auto simp: verify_greedy_sampling_def)
qed

text \<open>What is accepted, in terms of the fields: the checks with their floating point comparisons resolved.\<close>

definition params_ok :: "SamplingParams \<Rightarrow> bool" where
  "params_ok p \<longleftrightarrow> 1 \<le> n p \<and> n p \<le> best_of p \<and> 1 \<le> max_tokens p
     \<and> (\<exists>x. presence_penalty p = Fin x \<and> - 2 \<le> x \<and> x \<le> 2) \<and> (\<exists>x. frequency_penalty p = Fin x \<and> - 2 \<le> x \<and> x \<le> 2)
     \<and> (\<exists>x. repetition_penalty p = Fin x \<and> 0 < x \<and> x < 2)
     \<and> \<not> f32_lt (temperature p) (Fin 0)
     \<and> (if use_beam_search p
        then 1 < best_of p \<and> \<not> f32_lt SAMPLING_EPS (temperature p) \<and> \<not> f32_lt (top_p p) (Fin (2097131 / 2097152)) \<and> top_k p = - 1
        else early_stopping p = UnlikelyBetterCandidates \<and> \<not> f32_lt (temperature p) SAMPLING_EPS
             \<and> \<not> f32_lt (length_penalty p) (Fin (2097131 / 2097152)) \<and> \<not> f32_lt (Fin (2097173 / 2097152)) (length_penalty p))"

lemma in_closed_Fin: "in_closed (Fin a) (Fin b) x \<longleftrightarrow> (\<exists>q. x = Fin q \<and> a \<le> q \<and> q \<le> b)"
  by (cases x) (auto simp: in_closed_def f32_le_def)

lemma in_half_open_Fin: "in_half_open (Fin a) (Fin b) x \<longleftrightarrow> (\<exists>q. x = Fin q \<and> a \<le> q \<and> q < b)"
  by (cases x) (auto simp: in_half_open_def f32_le_def)

lemma f32_eq_Fin_iff: "f32_eq x (Fin q) \<longleftrightarrow> x = Fin q"
  by (cases x) auto

lemma repetition_range:
  "\<not> in_half_open (Fin 0) (Fin 2) x \<or> f32_eq x (Fin 0) \<longleftrightarrow> \<not> (\<exists>q. x = Fin q \<and> 0 < q \<and> q < 2)"
  by (auto simp: in_half_open_Fin f32_eq_Fin_iff order_le_less)

lemma verify_args_iff:
  "verify_args p = Inr u \<longleftrightarrow> 1 \<le> n p \<and> n p \<le> best_of p \<and> 1 \<le> max_tokens p
     \<and> in_closed (Fin (- 2)) (Fin 2) (presence_penalty p) \<and> in_closed (Fin (- 2)) (Fin 2) (frequency_penalty p)
     \<and> (\<exists>q. repetition_penalty p = Fin q \<and> 0 < q \<and> q < 2) \<and> \<not> f32_lt (temperature p) (Fin 0)"
  unfolding verify_args_def repetition_range by auto

lemma verify_beam_iff:
  "verify_beam_search p = Inr u \<longleftrightarrow> 1 < best_of p \<and> \<not> f32_lt SAMPLING_EPS (temperature p)
     \<and> \<not> f32_lt (top_p p) (Fin (2097131 / 2097152)) \<and> top_k p = - 1"
  by (auto simp: verify_beam_search_def)

lemma verify_non_beam_iff:
  "verify_non_beam_search p = Inr u \<longleftrightarrow> early_stopping p = UnlikelyBetterCandidates
     \<and> \<not> f32_lt (length_penalty p) (Fin (2097131 / 2097152)) \<and> \<not> f32_lt (Fin (2097173 / 2097152)) (length_penalty p)"
  by (auto simp: verify_non_beam_search_def)

lemma verify_params_iff: "(\<exists>q. verify_params p = Inr q) \<longleftrightarrow> params_ok p"
proof -
  have g: "verify_greedy_sampling p \<noteq> Inr u" for u
    using verify_greedy_rejects [of p] by auto
  have "(\<exists>q. verify_params p = Inr q) \<longleftrightarrow> verify_args p = Inr () \<and>
      (if use_beam_search p then verify_beam_search p = Inr ()
       else verify_non_beam_search p = Inr () \<and> \<not> f32_lt (temperature p) SAMPLING_EPS)"
    using g by (auto simp: verify_params_def bindE_Inr_iff)
  then show ?thesis
    unfolding verify_args_iff verify_beam_iff verify_non_beam_iff params_ok_def in_closed_Fin by auto
qed

lemma verify_cases:
  "verify_args p = Inr () \<or> (\<exists>m. verify_args p = Inl (Err m))"
  "verify_beam_search p = Inr () \<or> (\<exists>m. verify_beam_search p = Inl (Err m))"
  "verify_non_beam_search p = Inr () \<or> (\<exists>m. verify_non_beam_search p = Inl (Err m))"
  by (simp_all add: verify_args_def verify_beam_search_def verify_non_beam_search_def)

lemma verify_params_cases: "(\<exists>q. verify_params p = Inr q) \<or> (\<exists>m. verify_params p = Inl (Err m))"
  using verify_cases [of p] verify_greedy_rejects [of p] by (auto simp: verify_params_def)

lemma verify_params_same: "verify_params p = Inr q \<Longrightarrow> q = p"
  by (auto simp: verify_params_def bindE_Inr_iff)

subsection \<open>Properties\<close>

lemma SamplingParams_new_verify:
  "SamplingParams_new (n p) b (presence_penalty p) (frequency_penalty p) (repetition_penalty p) (temperature p)
     (top_p p) (top_k p) (use_beam_search p) (length_penalty p) (early_stopping p) (stop p) (stop_token_ids p)
     (ignore_eos p) (max_tokens p) (logprobs p) (prompt_logprobs p) (skip_special_tokens p) =
   verify_params (p\<lparr>best_of := unwrap_or b (n p)\<rparr>)"
  by (cases p) (simp add: SamplingParams_new_def)

text \<open>
  C18: what \<open>SamplingParams::new\<close> accepts.  It returns the given values (\<open>best_of\<close> defaults to \<open>n\<close>) exactly when they satisfy \<open>params_ok\<close>, and
  an \<open>APIError\<close>, never a panic, otherwise.  The accepted set differs from the documented one on both sides.  Too small: a repetition penalty of
  2 is rejected although the message says (0, 2], and without beam search every temperature below the sampling epsilon
  is rejected, because the greedy check wants \<open>top_p\<close> to be about 1 and \<open>-1\<close> at the same time.  Too large: \<open>top_p\<close> is documented to be in (0, 1], but without
  beam search it is not checked at all, so that any value, NaN included, is accepted, and with beam search every value above 1 passes; a temperature that is NaN passes every check.
\<close>

theorem SamplingParams_new_accepts:
  "let q = p\<lparr>best_of := unwrap_or b (n p)\<rparr>;
       r = SamplingParams_new (n p) b (presence_penalty p) (frequency_penalty p) (repetition_penalty p) (temperature p)
          (top_p p) (top_k p) (use_beam_search p) (length_penalty p) (early_stopping p) (stop p) (stop_token_ids p)
          (ignore_eos p) (max_tokens p) (logprobs p) (prompt_logprobs p) (skip_special_tokens p)
   in (if params_ok q then r = Inr q else \<exists>m. r = Inl (Err m))
    \<and> (repetition_penalty p = Fin 2 \<longrightarrow> \<not> params_ok q)
    \<and> (\<not> use_beam_search p \<and> f32_lt (temperature p) SAMPLING_EPS \<longrightarrow> \<not> params_ok q)
    \<and> (\<not> use_beam_search p \<longrightarrow> (\<forall>t. params_ok (q\<lparr>top_p := t\<rparr>) \<longleftrightarrow> params_ok q))
    \<and> (params_ok q \<longrightarrow> (\<forall>t > 1. params_ok (q\<lparr>top_p := Fin t\<rparr>)) \<and> params_ok (q\<lparr>temperature := NaN\<rparr>))"
proof -
  have "if params_ok q then verify_params q = Inr q else \<exists>m. verify_params q = Inl (Err m)" for q
    using verify_params_iff [of q] verify_params_cases [of q] verify_params_same [of q] by auto
  moreover have "params_ok (q\<lparr>top_p := t\<rparr>) \<longleftrightarrow> params_ok q" if "\<not> use_beam_search q" for q t
    using that by (simp add: params_ok_def)
  moreover have "params_ok (q\<lparr>top_p := Fin t\<rparr>)" "params_ok (q\<lparr>temperature := NaN\<rparr>)" if "params_ok q" "1 < t" for q t
    using that by (auto simp: params_ok_def)
  moreover have "params_ok (q\<lparr>temperature := NaN\<rparr>)" if "params_ok q" for q using that by (auto simp: params_ok_def)
  moreover have "\<not> params_ok q" if "repetition_penalty q = Fin 2 \<or> \<not> use_beam_search q \<and> f32_lt (temperature q) SAMPLING_EPS" for q
    using that by (auto simp: params_ok_def)
  ultimately show ?thesis unfolding SamplingParams_new_verify Let_def by simp
qed

text \<open>The server's defaults, with the given temperature and top-k.\<close>

definition default_params :: "f32 \<Rightarrow> int \<Rightarrow> SamplingParams" where
  "default_params temp topk = \<lparr>n = 1, best_of = 1, presence_penalty = Fin 0, frequency_penalty = Fin 0,
     repetition_penalty = Fin 1, temperature = temp, top_p = Fin 1, top_k = topk, use_beam_search = False,
     length_penalty = Fin 1, early_stopping = UnlikelyBetterCandidates, stop = None, stop_token_ids = [],
     ignore_eos = False, max_tokens = 16, logprobs = None, prompt_logprobs = None, skip_special_tokens = True\<rparr>"

theorem SamplingParams_new_accepts_witness:
  "(\<exists>m. SamplingParams_new 1 None (Fin 0) (Fin 0) (Fin 1) (Fin 0) (Fin 1) (- 1) False (Fin 1) UnlikelyBetterCandidates
      None [] False 16 None None True = Inl (Err m))
   \<and> SamplingParams_new 1 None (Fin 0) (Fin 0) (Fin 1) (Fin 1) (Fin 1) 0 False (Fin 1) UnlikelyBetterCandidates
      None [] False 16 None None True = Inr (default_params (Fin 1) 0)
   \<and> params_ok ((default_params (Fin 1) 0)\<lparr>top_p := NaN\<rparr>) \<and> params_ok ((default_params (Fin 1) 0)\<lparr>top_p := Fin 7\<rparr>)"
  using SamplingParams_new_accepts [where p = "default_params (Fin 0) (- 1)" and b = None]
    SamplingParams_new_accepts [where p = "default_params (Fin 1) 0" and b = None]
  by (simp add: default_params_def params_ok_def SAMPLING_EPS_def)

text \<open>
  C19: the sampling method of accepted parameters.  \<open>get_logits_processor\<close> returns exactly when \<open>top_k\<close> is -1, or is
  positive and \<open>top_p\<close> is 1; it panics for every other combination, although \<open>SamplingParams::new\<close> accepts
  them when beam search is off, whatever \<open>top_k\<close> and \<open>top_p\<close> are.  With beam search it never panics.
\<close>

theorem get_logits_processor_total:
  assumes "verify_params p = Inr q"
  shows "((\<exists>l. get_logits_processor seed k q = Inr l) \<longleftrightarrow> top_k p = - 1 \<or> 0 < top_k p \<and> top_p p = Fin 1)
    \<and> ((\<nexists>l. get_logits_processor seed k q = Inr l) \<longrightarrow> get_logits_processor seed k q = Inl (Panic Unreachable))
    \<and> (use_beam_search p \<longrightarrow> (\<exists>l. get_logits_processor seed k q = Inr l))
    \<and> (\<not> use_beam_search p \<longrightarrow> (\<forall>k' pr. \<exists>q'. verify_params (p\<lparr>top_k := k', top_p := pr\<rparr>) = Inr q'))"
proof -
  have q: "q = p" "params_ok p" using assms verify_params_same verify_params_iff by blast+
  have "(\<exists>l. get_logits_processor seed k p = Inr l) \<longleftrightarrow> top_k p = - 1 \<or> 0 < top_k p \<and> top_p p = Fin 1"
    by (auto simp: get_logits_processor_def Let_def f32_eq_Fin_iff)
  moreover have "get_logits_processor seed k p = Inl (Panic Unreachable)" if "\<nexists>l. get_logits_processor seed k p = Inr l"
    using that by (auto simp: get_logits_processor_def Let_def split: if_splits)
  moreover have "top_k p = - 1" if "use_beam_search p" using q(2) that by (simp add: params_ok_def)
  moreover have "params_ok (p\<lparr>top_k := k', top_p := pr\<rparr>)" if "\<not> use_beam_search p" for k' pr
    using q(2) that by (simp add: params_ok_def)
  ultimately show ?thesis using q(1) verify_params_iff by blast
qed

theorem get_logits_processor_total_witness:
  "verify_params (default_params (Fin 1) 0) = Inr (default_params (Fin 1) 0)
   \<and> get_logits_processor 299792458 1 (default_params (Fin 1) 0) = Inl (Panic Unreachable)"
proof -
  have v: "verify_params (default_params (Fin 1) 0) = Inr (default_params (Fin 1) 0)"
    using verify_params_iff [of "default_params (Fin 1) 0"] verify_params_same
    by (auto simp: default_params_def params_ok_def SAMPLING_EPS_def)
  then show ?thesis
    using get_logits_processor_total [OF v, of 299792458 1] by (auto simp: default_params_def)
qed

end
