(* ===== verification/Conversation.thy ===== *)
theory Conversation
  imports Prelude
begin

section \<open>Conversations\<close>

text \<open>
  \<open>src/openai/conversation/default_conversation.rs\<close>.  The parameter \<open>fmt\<close> is \<open>AsStrFormatExt::format\<close> of
  the \<open>dyn_fmt\<close> crate, which fills the template of the system prompt.
\<close>

datatype SeparatorStyle =
    AddColonSingle | AddColonTwo | AddColonSpaceSingle | NoColonSingle | NoColonTwo | AddNewLineSingle
  | Llama2 | ChatGLM | ChatML | ChatIntern | Dolly | RWKV | Phoenix | Robin | FalconChat

type_synonym Message = "string \<times> string option"

type_synonym formatter = "string \<Rightarrow> string list \<Rightarrow> string"

record DefaultConversation =
  dc_name :: string
  system_message :: string
  system_template :: string
  messages :: "Message list"
  offset :: nat
  sep_style :: SeparatorStyle
  stop_criteria :: string
  dc_stop_token_ids :: "nat list"
  roles :: "string \<times> string"
  sep :: string
  sep2 :: "string option"

definition DefaultConversation_new ::
    "string \<Rightarrow> string \<Rightarrow> Message list \<Rightarrow> nat \<Rightarrow> SeparatorStyle \<Rightarrow> string \<Rightarrow> nat list \<Rightarrow> string \<times> string
     \<Rightarrow> string \<times> string option \<Rightarrow> DefaultConversation" where
  "DefaultConversation_new nm tmpl msgs off style crit ids rls seps =
     \<lparr>dc_name = nm, system_message = '''', system_template = tmpl, messages = msgs, offset = off, sep_style = style,
      stop_criteria = crit, dc_stop_token_ids = ids, roles = rls, sep = fst seps, sep2 = snd seps\<rparr>"

definition set_system_message :: "string \<Rightarrow> DefaultConversation \<Rightarrow> DefaultConversation" where
  "set_system_message msg c = c\<lparr>system_message := msg\<rparr>"

definition append_message :: "string \<Rightarrow> string \<Rightarrow> DefaultConversation \<Rightarrow> DefaultConversation" where
  "append_message role msg c = c\<lparr>messages := messages c @ [(role, Some msg)]\<rparr>"

definition append_none_message :: "string \<Rightarrow> DefaultConversation \<Rightarrow> DefaultConversation" where
  "append_none_message role c = c\<lparr>messages := messages c @ [(role, None)]\<rparr>"

definition update_last_message :: "DefaultConversation \<Rightarrow> DefaultConversation res" where
  "update_last_message c =
     (if messages c = [] then Inl (Panic UnwrapNone)
      else Inr (c\<lparr>messages := butlast (messages c) @ [(fst (last (messages c)), None)]\<rparr>))"

definition get_roles :: "DefaultConversation \<Rightarrow> string \<times> string" where
  [simp]: "get_roles c = roles c"

subsection \<open>Strings\<close>

abbreviation newline :: string where
  "newline \<equiv> [CHR 0x0A]"

text \<open>\<open>str::replace\<close>: the occurrences are found from the left and do not overlap.\<close>

function str_replace :: "string \<Rightarrow> string \<Rightarrow> string \<Rightarrow> string" where
  "str_replace pat rep s =
     (if pat = [] \<or> s = [] then s
      else if take (length pat) s = pat then rep @ str_replace pat rep (drop (length pat) s)
      else hd s # str_replace pat rep (tl s))"
  by pat_completeness auto
termination
  by (relation "measure (\<lambda>(pat, rep, s). length s)") auto

declare str_replace.simps [simp del]

subsection \<open>The prompt\<close>

text \<open>\<open>for (i, message) in messages.iter().enumerate() { accum += ... }\<close>.\<close>

definition accumulate :: "(nat \<Rightarrow> Message \<Rightarrow> string) \<Rightarrow> string \<Rightarrow> Message list \<Rightarrow> string" where
  "accumulate f accum msgs = foldl (\<lambda>accum (i, m). accum @ f i m) accum (enumerate 0 msgs)"

text \<open>The array \<open>[&self.sep, &self.sep2]\<close> of the styles with two separators, at \<open>i % 2\<close>.\<close>

definition seps :: "DefaultConversation \<Rightarrow> nat \<Rightarrow> string" where
  "seps c i = (if i mod 2 = 0 then sep c else unwrap_or (sep2 c) '''')"

text \<open>One definition for each arm of the \<open>match\<close> in \<open>get_prompt\<close>.\<close>

definition add_colon_single_prompt :: "string \<Rightarrow> DefaultConversation \<Rightarrow> string" where
  "add_colon_single_prompt system_prompt c =
     accumulate (\<lambda>i (role, message). case message of
         Some msg \<Rightarrow> role @ '': '' @ msg @ sep c
       | None \<Rightarrow> role @ '':'') (system_prompt @ sep c) (messages c)"

definition add_colon_two_prompt :: "string \<Rightarrow> DefaultConversation \<Rightarrow> string" where
  "add_colon_two_prompt system_prompt c =
     accumulate (\<lambda>i (role, message). case message of
         Some msg \<Rightarrow> role @ '': '' @ msg @ seps c i
       | None \<Rightarrow> role @ '':'') (system_prompt @ sep c) (messages c)"

definition add_colon_space_single_prompt :: "string \<Rightarrow> DefaultConversation \<Rightarrow> string" where
  "add_colon_space_single_prompt system_prompt c =
     accumulate (\<lambda>i (role, message). case message of
         Some msg \<Rightarrow> role @ '': '' @ msg @ sep c
       | None \<Rightarrow> role @ '': '') (system_prompt @ sep c) (messages c)"

definition add_new_line_single_prompt :: "string \<Rightarrow> DefaultConversation \<Rightarrow> string" where
  "add_new_line_single_prompt system_prompt c =
     accumulate (\<lambda>i (role, message). case message of
         Some msg \<Rightarrow> role @ newline @ msg @ sep c
       | None \<Rightarrow> role @ newline) (if system_prompt = '''' then '''' else system_prompt @ sep c) (messages c)"

definition no_colon_single_prompt :: "string \<Rightarrow> DefaultConversation \<Rightarrow> string" where
  "no_colon_single_prompt system_prompt c =
     accumulate (\<lambda>i (role, message). case message of
         Some msg \<Rightarrow> role @ msg @ sep c
       | None \<Rightarrow> role) system_prompt (messages c)"

definition no_colon_two_prompt :: "string \<Rightarrow> DefaultConversation \<Rightarrow> string" where
  "no_colon_two_prompt system_prompt c =
     accumulate (\<lambda>i (role, message). case message of
         Some msg \<Rightarrow> role @ msg @ seps c i
       | None \<Rightarrow> role) system_prompt (messages c)"

definition rwkv_prompt :: "string \<Rightarrow> DefaultConversation \<Rightarrow> string" where
  "rwkv_prompt system_prompt c =
     accumulate (\<lambda>i (role, message). case message of
         Some msg \<Rightarrow> role @ '': '' @ str_replace (newline @ newline) newline (str_replace [CHR 0x0D, CHR 0x0A] newline msg)
                       @ newline @ newline
       | None \<Rightarrow> role @ '':'') (system_prompt @ sep c) (messages c)"

definition llama2_prompt :: "string \<Rightarrow> DefaultConversation \<Rightarrow> string" where
  "llama2_prompt system_prompt c =
     accumulate (\<lambda>i (role, message).
         let tag = (if i mod 2 = 0 then fst (roles c) else snd (roles c)) in
         case message of
           Some msg \<Rightarrow> if i = 0 then msg @ '' '' else tag @ '' '' @ msg @ seps c i
         | None \<Rightarrow> tag) (if system_prompt \<noteq> '''' then system_prompt else ''[INST] '') (messages c)"

definition chat_glm_prompt :: "string \<Rightarrow> DefaultConversation \<Rightarrow> string" where
  "chat_glm_prompt system_prompt c =
     (let round_add_n = (if dc_name c = ''chatglm2'' then 1 else 0) in
     accumulate (\<lambda>i (role, message).
         (if i mod 2 = 0 then ''[Round '' @ show_nat (i div 2 + round_add_n) @ '']'' @ sep c else '''')
         @ (case message of
              Some msg \<Rightarrow> role @ '': '' @ msg @ sep c
            | None \<Rightarrow> role @ '': '')) (if system_prompt \<noteq> '''' then system_prompt else '''') (messages c))"

definition chat_ml_prompt :: "string \<Rightarrow> DefaultConversation \<Rightarrow> string" where
  "chat_ml_prompt system_prompt c =
     accumulate (\<lambda>i (role, message). case message of
         Some msg \<Rightarrow> role @ newline @ msg @ sep c @ newline
       | None \<Rightarrow> role @ newline) (if system_prompt \<noteq> '''' then system_prompt @ sep c @ newline else '''') (messages c)"

definition chat_intern_prompt :: "string \<Rightarrow> DefaultConversation \<Rightarrow> string" where
  "chat_intern_prompt system_prompt c =
     accumulate (\<lambda>i (role, message).
         (if i mod 2 = 0 then ''<s>'' else '''')
         @ (case message of
              Some msg \<Rightarrow> role @ '':'' @ msg @ seps c i @ newline
            | None \<Rightarrow> role @ '':'')) system_prompt (messages c)"

definition dolly_prompt :: "string \<Rightarrow> DefaultConversation \<Rightarrow> string" where
  "dolly_prompt system_prompt c =
     accumulate (\<lambda>i (role, message). case message of
         Some msg \<Rightarrow> role @ '':'' @ newline @ msg @ seps c i @ (if i mod 2 = 1 then newline @ newline else '''')
       | None \<Rightarrow> role @ '':'' @ newline) system_prompt (messages c)"

definition phoenix_prompt :: "string \<Rightarrow> DefaultConversation \<Rightarrow> string" where
  "phoenix_prompt system_prompt c =
     accumulate (\<lambda>i (role, message). case message of
         Some msg \<Rightarrow> role @ '': <s>'' @ msg @ ''</s>''
       | None \<Rightarrow> role @ '': <s>'') (system_prompt @ sep c) (messages c)"

definition robin_prompt :: "string \<Rightarrow> DefaultConversation \<Rightarrow> string" where
  "robin_prompt system_prompt c =
     accumulate (\<lambda>i (role, message). case message of
         Some msg \<Rightarrow> role @ '':'' @ newline @ msg @ sep c
       | None \<Rightarrow> role @ '':'' @ newline) (system_prompt @ sep c) (messages c)"

definition falcon_chat_prompt :: "string \<Rightarrow> DefaultConversation \<Rightarrow> string" where
  "falcon_chat_prompt system_prompt c =
     accumulate (\<lambda>i (role, message). case message of
         Some msg \<Rightarrow> role @ '': '' @ msg @ sep c
       | None \<Rightarrow> role @ '':'') (if system_prompt \<noteq> '''' then system_prompt @ sep c else '''') (messages c)"

definition get_prompt :: "formatter \<Rightarrow> DefaultConversation \<Rightarrow> string" where
  "get_prompt fmt c =
     (let system_prompt = fmt (system_template c) [system_message c] in
      case sep_style c of
        AddColonSingle \<Rightarrow> add_colon_single_prompt system_prompt c
      | AddColonTwo \<Rightarrow> add_colon_two_prompt system_prompt c
      | AddColonSpaceSingle \<Rightarrow> add_colon_space_single_prompt system_prompt c
      | AddNewLineSingle \<Rightarrow> add_new_line_single_prompt system_prompt c
      | NoColonSingle \<Rightarrow> no_colon_single_prompt system_prompt c
      | NoColonTwo \<Rightarrow> no_colon_two_prompt system_prompt c
      | RWKV \<Rightarrow> rwkv_prompt system_prompt c
      | Llama2 \<Rightarrow> llama2_prompt system_prompt c
      | ChatGLM \<Rightarrow> chat_glm_prompt system_prompt c
      | ChatML \<Rightarrow> chat_ml_prompt system_prompt c
      | ChatIntern \<Rightarrow> chat_intern_prompt system_prompt c
      | Dolly \<Rightarrow> dolly_prompt system_prompt c
      | Phoenix \<Rightarrow> phoenix_prompt system_prompt c
      | Robin \<Rightarrow> robin_prompt system_prompt c
      | FalconChat \<Rightarrow> falcon_chat_prompt system_prompt c)"

lemmas prompt_arms = add_colon_single_prompt_def add_colon_two_prompt_def add_colon_space_single_prompt_def
  add_new_line_single_prompt_def no_colon_single_prompt_def no_colon_two_prompt_def rwkv_prompt_def llama2_prompt_def
  chat_glm_prompt_def chat_ml_prompt_def chat_intern_prompt_def dolly_prompt_def phoenix_prompt_def robin_prompt_def
  falcon_chat_prompt_def seps_def

subsection \<open>Prompts grow with the conversation\<close>

lemma accumulate_snoc: "accumulate f a (ms @ [m]) = accumulate f a ms @ f (length ms) m"
  by (simp add: accumulate_def enumerate_append_eq)

text \<open>The text of one turn, as a function of the style; a turn without a message is the cue for the model.\<close>

definition turn :: "DefaultConversation \<Rightarrow> nat \<Rightarrow> Message \<Rightarrow> string" where
  "turn c i m = (let (role, message) = m; body = unwrap_or message '''';
       s = sep c; si = (if even i then sep c else unwrap_or (sep2 c) '''') in
     case sep_style c of
       AddColonSingle \<Rightarrow> role @ '':'' @ (if message = None then '''' else '' '' @ body @ s)
     | AddColonTwo \<Rightarrow> role @ '':'' @ (if message = None then '''' else '' '' @ body @ si)
     | AddColonSpaceSingle \<Rightarrow> role @ '': '' @ (if message = None then '''' else body @ s)
     | NoColonSingle \<Rightarrow> role @ (if message = None then '''' else body @ s)
     | NoColonTwo \<Rightarrow> role @ (if message = None then '''' else body @ si)
     | AddNewLineSingle \<Rightarrow> role @ newline @ (if message = None then '''' else body @ s)
     | Llama2 \<Rightarrow> (if message \<noteq> None \<and> i = 0 then body @ '' ''
                 else (if even i then fst (roles c) else snd (roles c)) @ (if message = None then '''' else '' '' @ body @ si))
     | ChatGLM \<Rightarrow> (if even i then ''[Round '' @ show_nat (i div 2 + (if dc_name c = ''chatglm2'' then 1 else 0)) @ '']'' @ s else '''')
                  @ role @ '': '' @ (if message = None then '''' else body @ s)
     | ChatML \<Rightarrow> role @ newline @ (if message = None then '''' else body @ s @ newline)
     | ChatIntern \<Rightarrow> (if even i then ''<s>'' else '''') @ role @ '':'' @ (if message = None then '''' else body @ si @ newline)
     | Dolly \<Rightarrow> role @ '':'' @ newline @ (if message = None then '''' else body @ si @ (if odd i then newline @ newline else ''''))
     | RWKV \<Rightarrow> role @ '':'' @ (if message = None then '''' else '' '' @
                 str_replace (newline @ newline) newline (str_replace [CHR 0x0D, CHR 0x0A] newline body) @ newline @ newline)
     | Phoenix \<Rightarrow> role @ '': <s>'' @ (if message = None then '''' else body @ ''</s>'')
     | Robin \<Rightarrow> role @ '':'' @ newline @ (if message = None then '''' else body @ s)
     | FalconChat \<Rightarrow> role @ '':'' @ (if message = None then '''' else '' '' @ body @ s))"

lemma get_prompt_snoc:
  "get_prompt fmt (c\<lparr>messages := messages c @ [m]\<rparr>) = get_prompt fmt c @ turn c (length (messages c)) m"
  by (cases "sep_style c"; cases m; cases "snd m")
    (simp_all add: get_prompt_def prompt_arms turn_def accumulate_snoc Let_def even_iff_mod_2_eq_zero odd_iff_mod_2_eq_one
      cong: if_cong option.case_cong)

text \<open>
  The trait \<open>Conversation\<close> of \<open>src/openai/conversation/mod.rs\<close>, with the promise its clients rely on: a new
  message extends the prompt at its end.
\<close>

locale conversation =
  fixes append :: "string \<Rightarrow> string \<Rightarrow> 'c \<Rightarrow> 'c"
    and append_none :: "string \<Rightarrow> 'c \<Rightarrow> 'c"
    and prompt :: "'c \<Rightarrow> string"
  assumes prompt_append: "\<exists>t. prompt (append role msg c) = prompt c @ t"
    and prompt_append_none: "\<exists>t. prompt (append_none role c) = prompt c @ t"
begin

lemma prompt_append_all: "\<exists>t. prompt (fold (\<lambda>(role, msg). append role msg) ms c) = prompt c @ t"
proof (induction ms arbitrary: c)
  case (Cons m ms)
  obtain role msg where m: "m = (role, msg)" by (cases m)
  obtain t where t: "prompt (append role msg c) = prompt c @ t" using prompt_append by blast
  obtain t' where "prompt (fold (\<lambda>(role, msg). append role msg) ms (append role msg c)) = prompt (append role msg c) @ t'"
    using Cons.IH by blast
  then show ?case using m t by simp
qed simp

lemma prompt_request: "\<exists>t. prompt (append_none role (fold (\<lambda>(role, msg). append role msg) ms c)) = prompt c @ t"
  using prompt_append_all [of ms c] prompt_append_none [of role "fold (\<lambda>(role, msg). append role msg) ms c"]
  by (metis append_assoc)

end

interpretation default_conversation: conversation append_message append_none_message "get_prompt fmt" for fmt
  by unfold_locales (auto simp: append_message_def append_none_message_def get_prompt_snoc)

text \<open>What stands before the first turn.\<close>

definition prompt_opening :: "formatter \<Rightarrow> DefaultConversation \<Rightarrow> string" where
  "prompt_opening fmt c = (let system = fmt (system_template c) [system_message c]; s = sep c in
     if sep_style c \<in> {NoColonSingle, NoColonTwo, ChatGLM, ChatIntern, Dolly} then system
     else if sep_style c = Llama2 then (if system = '''' then ''[INST] '' else system)
     else if sep_style c = ChatML then (if system = '''' then '''' else system @ s @ newline)
     else if sep_style c \<in> {AddNewLineSingle, FalconChat} then (if system = '''' then '''' else system @ s)
     else system @ s)"

lemma get_prompt_no_turns: "get_prompt fmt (c\<lparr>messages := []\<rparr>) = prompt_opening fmt c"
  by (cases "sep_style c") (simp_all add: get_prompt_def prompt_arms prompt_opening_def accumulate_def Let_def)

lemma turn_messages [simp]: "turn (c\<lparr>messages := ms\<rparr>) = turn c"
  by (intro ext, cases "sep_style c") (simp_all add: turn_def split_def Let_def cong: if_cong)

text \<open>
  C23: the prompt of a conversation.  In every one of the fifteen styles the loop over the messages computes the opening of the style followed by the texts
  of the turns, in order and each formatted by its own position; so a new message, or the empty one that asks for an answer, extends the prompt
  built so far by its turn and changes nothing before it.
\<close>

theorem get_prompt_by_turns:
  "get_prompt fmt c = prompt_opening fmt c @ concat (map (\<lambda>(i, m). turn c i m) (enumerate 0 (messages c)))
   \<and> get_prompt fmt (append_message role msg c) = get_prompt fmt c @ turn c (length (messages c)) (role, Some msg)
   \<and> get_prompt fmt (append_none_message role c) = get_prompt fmt c @ turn c (length (messages c)) (role, None)"
proof -
  have "get_prompt fmt (c\<lparr>messages := ms\<rparr>) = prompt_opening fmt c @ concat (map (\<lambda>(i, m). turn c i m) (enumerate 0 ms))" for ms
  proof (induction ms rule: rev_induct)
    case Nil
    then show ?case by (simp add: get_prompt_no_turns)
  next
    case (snoc m ms)
    then show ?case
      using get_prompt_snoc [of fmt "c\<lparr>messages := ms\<rparr>" m] by (simp add: enumerate_append_eq)
  qed
  from this [of "messages c"] show ?thesis
    by (simp add: append_message_def append_none_message_def get_prompt_snoc)
qed

end
