(* ===== verification/Llm_Engine.thy ===== *)
theory Llm_Engine
  imports Scheduling_Runs Cache_Engine Sampling_Params Conversation Input_Metadata
begin

section \<open>The engine\<close>

text \<open>
  \<open>LLMEngine\<close> of \<open>src/openai/pipelines/llm_engine.rs\<close>, \<open>_make_tensor_with_pad\<close> of \<open>pipelines/mod.rs\<close> and \<open>sample\<close> of
  \<open>pipelines/llama.rs\<close>.  The model's forward pass, the tokenizer and the sampling crate are the fields of the
  parameter \<open>externals\<close>; \<open>chk\<close> says whether integer overflow checks are compiled in.
\<close>

record 't PreparedInputs =
  tokens :: 't
  positions :: 't
  metadata :: "'t InputMetadata"

record 't externals =
  forward :: "'t \<Rightarrow> 't \<Rightarrow> ('t \<times> 't) list \<Rightarrow> 't InputMetadata \<Rightarrow> 't res"
  encode :: "string \<Rightarrow> nat list res"
  decode :: "nat list \<Rightarrow> string res"
  token_to_id :: "string \<Rightarrow> nat option"
  id_to_token :: "nat \<Rightarrow> string option"
  sample_logits :: "LogitsProcessor \<Rightarrow> 't \<Rightarrow> (Logprobs \<times> LogitsProcessor) res"
  apply_repeat_penalty :: "'t \<Rightarrow> f32 \<Rightarrow> nat list \<Rightarrow> 't res"

text \<open>\<open>TokenizerWrapper\<close> of \<open>src/openai/mod.rs\<close>: the errors of the tokenizer with their text.\<close>

definition tokenize :: "'t externals \<Rightarrow> string \<Rightarrow> nat list res" where
  [simp]: "tokenize ext input = encode ext input"

definition detokenize :: "'t externals \<Rightarrow> nat list \<Rightarrow> string res" where
  [simp]: "detokenize ext input = decode ext input"

record ChatChoice =
  ch_message :: ChatChoiceData
  ch_finish_reason :: "string option"
  ch_index :: nat
  ch_logprobs :: "Logprobs list option"

type_synonym responses = "(nat, ChatChoice list \<times> ChatCompletionUsageResponse) hash_map"

record 't LLMEngine =
  scheduler :: Scheduler
  eng_seq_id :: nat
  cache_config :: CacheConfig
  eng_group_id :: nat
  cache_engine :: "'t CacheEngine"
  sliding_window :: "nat option"
  pipeline_name :: string
  conversation :: DefaultConversation
  repeat_last_n :: nat

definition PAD_SLOT_ID :: int where
  "PAD_SLOT_ID = - 1"

text \<open>\<open>x as i64\<close> of a \<open>usize\<close>.\<close>

definition as_i64 :: "nat \<Rightarrow> int" where
  "as_i64 k = (if k < 2 ^ 63 then int k else int k - 2 ^ 64)"

definition make_tensor_with_pad :: "'t candle \<Rightarrow> int list list \<Rightarrow> nat \<Rightarrow> int \<Rightarrow> 't res" where
  "make_tensor_with_pad cd x max_len pad =
     bindE (mapE (\<lambda>x_i.
       bindE (assertE (length x_i \<le> max_len)) (\<lambda>_.
       let padded = x_i @ replicate (max_len - length x_i) pad in
       bindE (new_cuda cd 0) (\<lambda>dev.
       from_vec cd padded [length padded] dev))) x) (\<lambda>padded_x.
     cat cd padded_x 0)"

subsection \<open>Requests\<close>

definition LLMEngine_new ::
    "'t candle \<Rightarrow> ConfigLike \<Rightarrow> DType res \<Rightarrow> string \<Rightarrow> DefaultConversation \<Rightarrow> nat \<Rightarrow> SchedulerConfig \<Rightarrow> CacheConfig \<Rightarrow> seq_store
     \<Rightarrow> 't LLMEngine res" where
  "LLMEngine_new cd model_config get_dtype nm conv last_n scheduler_config ccfg st =
     bindE get_dtype (\<lambda>dt.
     bindE (CacheEngine_new cd model_config ccfg dt) (\<lambda>ce.
     bindE (Scheduler_new scheduler_config ccfg st) (\<lambda>sch.
     Inr \<lparr>scheduler = sch, eng_seq_id = 0, cache_config = ccfg, eng_group_id = 0, cache_engine = ce,
          sliding_window = get_sliding_window model_config, pipeline_name = nm, conversation = conv, repeat_last_n = last_n\<rparr>)))"

definition LlamaPipeline_get_dtype :: "DType res" where
  "LlamaPipeline_get_dtype = Inl (Panic NotImplemented)"

text \<open>The new \<open>Arc<Sequence>\<close> gets the address of its sequence number, which is used for no other sequence.\<close>

definition add_request :: "nat \<Rightarrow> nat list \<Rightarrow> string \<Rightarrow> nat \<Rightarrow> 't LLMEngine \<Rightarrow> 't LLMEngine res" where
  "add_request now prompt request_id' created' e =
     bindE (Sequence_new prompt (eng_seq_id e) (block_size (cache_config e))) (\<lambda>q.
     let st = (sequences (scheduler e))(eng_seq_id e := q);
         seq_group = SequenceGroup_new st [eng_seq_id e] now (eng_group_id e) request_id' created'
     in Inr (e\<lparr>eng_seq_id := eng_seq_id e + 1, eng_group_id := eng_group_id e + 1,
               scheduler := add_sequence seq_group ((scheduler e)\<lparr>sequences := st\<rparr>)\<rparr>))"

definition execute_scheduler_ops :: "'t candle \<Rightarrow> SchedulerOutput \<Rightarrow> 't LLMEngine \<Rightarrow> 't LLMEngine res" where
  "execute_scheduler_ops cd out e =
     bindE (try_api (CacheEngine_swap_in cd (blocks_to_swap_in out) (cache_engine e))) (\<lambda>ce1.
     bindE (try_api (CacheEngine_swap_out cd (blocks_to_swap_out out) ce1)) (\<lambda>ce2.
     bindE (try_api (CacheEngine_copy cd (blocks_to_copy out) ce2)) (\<lambda>ce3.
     Inr (e\<lparr>cache_engine := ce3\<rparr>))))"

subsection \<open>Preparing the inputs\<close>

text \<open>The block numbers of a table: \<open>table.iter().map(|block| block.deref_mut().block_id)\<close>.\<close>

definition block_numbers :: "BlockEngine \<Rightarrow> block_table \<Rightarrow> nat list res" where
  "block_numbers be t = mapE (\<lambda>a. bindE (deref_block (blocks be) a) (\<lambda>b. Inr (block_id b))) t"

text \<open>The slot of position \<open>i\<close>, \<open>table.get(i / block_size).unwrap() * block_size + i % block_size\<close>.\<close>

definition slot_of :: "nat list \<Rightarrow> nat \<Rightarrow> nat \<Rightarrow> int res" where
  "slot_of table bsize i =
     bindE (usize_div i bsize) (\<lambda>ix.
     bindE (unwrap (if ix < length table then Some (table ! ix) else None)) (\<lambda>block_number.
     bindE (usize_rem i bsize) (\<lambda>block_offset.
     try_into_i64 (block_number * bsize + block_offset))))"

definition prompt_start_idx :: "bool \<Rightarrow> nat option \<Rightarrow> nat \<Rightarrow> nat res" where
  "prompt_start_idx chk window prompt_len =
     (case window of
        Some w \<Rightarrow> bindE (usize_sub chk prompt_len w) (\<lambda>d. Inr (min 0 d))
      | None \<Rightarrow> Inr 0)"

definition prompt_slots :: "nat list \<Rightarrow> nat \<Rightarrow> nat \<Rightarrow> nat \<Rightarrow> int list res" where
  "prompt_slots table bsize start_idx prompt_len =
     foldE (\<lambda>slots i.
       let slots' = (if i < start_idx then slots @ [PAD_SLOT_ID] else slots) in
       bindE (slot_of table bsize i) (\<lambda>slot. Inr (slots' @ [slot]))) [] [0..<prompt_len]"

text \<open>The body of the loop of \<open>prepare_prompt\<close> for one sequence: its tokens and its slots.\<close>

definition prompt_row :: "bool \<Rightarrow> 't LLMEngine \<Rightarrow> seq_addr \<Rightarrow> (nat list \<times> int list) res" where
  "prompt_row chk e a =
     (let q = sequences (scheduler e) a; prompt_ids = get_token_ids q; be = block_engine (scheduler e) in
      case map_of (block_tables be) (seq_id q) of
        None \<Rightarrow> Inr (prompt_ids, replicate (length prompt_ids) PAD_SLOT_ID)
      | Some t \<Rightarrow>
          bindE (block_numbers be t) (\<lambda>table.
          bindE (prompt_start_idx chk (sliding_window e) (length prompt_ids)) (\<lambda>start_idx.
          bindE (prompt_slots table (block_size (cache_config e)) start_idx (length prompt_ids)) (\<lambda>slots.
          Inr (prompt_ids, slots)))))"

definition max_of :: "nat list \<Rightarrow> nat res" where
  "max_of xs = (if xs = [] then Inl (Panic UnwrapNone) else Inr (Max (set xs)))"

definition group_arcs :: "SequenceGroup list \<Rightarrow> seq_addr list" where
  "group_arcs groups = concat (map (\<lambda>g. vals (seqs g)) groups)"

definition prepare_prompt :: "'t candle \<Rightarrow> bool \<Rightarrow> SequenceGroup list \<Rightarrow> 't LLMEngine \<Rightarrow> 't PreparedInputs res" where
  "prepare_prompt cd chk groups e =
     bindE (mapE (prompt_row chk e) (group_arcs groups)) (\<lambda>rows.
     let lens = map (length \<circ> fst) rows in
     bindE (max_of lens) (\<lambda>max_prompt_len.
     bindE (make_tensor_with_pad cd (map (map as_i64 \<circ> fst) rows) max_prompt_len 0) (\<lambda>input_tokens.
     bindE (make_tensor_with_pad cd (map (\<lambda>l. map as_i64 [0..<l]) lens) max_prompt_len 0) (\<lambda>input_positions.
     bindE (make_tensor_with_pad cd (map snd rows) max_prompt_len PAD_SLOT_ID) (\<lambda>slots.
     Inr \<lparr>tokens = input_tokens, positions = input_positions,
          metadata = \<lparr>prompt_lens = lens, max_context_len = None, md_block_tables = None, context_lens = None,
                      slot_mapping = slots, attn_bias = None, md_is_prompt = True, kv_cache_dtype = ''auto''\<rparr>\<rparr>)))))"

text \<open>The body of the loop of \<open>prepare_decode\<close>: last token, position, context length, slot and table.\<close>

definition decode_row :: "bool \<Rightarrow> 't LLMEngine \<Rightarrow> seq_addr \<Rightarrow> (nat \<times> nat \<times> nat \<times> int \<times> nat list) res" where
  "decode_row chk e a =
     (let q = sequences (scheduler e) a; be = block_engine (scheduler e); bsize = block_size (cache_config e) in
      bindE (get_last_token_id q) (\<lambda>last_token_id.
      bindE (get_len q) (\<lambda>len.
      bindE (usize_sub chk len 1) (\<lambda>position.
      bindE (get_len q) (\<lambda>len'.
      let context_len = (case sliding_window e of Some w \<Rightarrow> min len' w | None \<Rightarrow> len') in
      bindE (unwrap (map_of (block_tables be) (seq_id q))) (\<lambda>t.
      bindE (block_numbers be t) (\<lambda>table.
      bindE (slot_of table bsize position) (\<lambda>slot.
      bindE (case sliding_window e of
          Some w \<Rightarrow> bindE (usize_div w bsize) (\<lambda>wb.
                     bindE (usize_sub chk (length table) wb) (\<lambda>from.
                     if from \<le> length table then Inr (drop from table) else Inl (Panic UnwrapNone)))
        | None \<Rightarrow> Inr table) (\<lambda>tbl.
      Inr (last_token_id, position, context_len, slot, tbl))))))))))"

definition prepare_decode :: "'t candle \<Rightarrow> bool \<Rightarrow> SequenceGroup list \<Rightarrow> 't LLMEngine \<Rightarrow> 't PreparedInputs res" where
  "prepare_decode cd chk groups e =
     bindE (mapE (decode_row chk e) (group_arcs groups)) (\<lambda>rows.
     let toks = map (\<lambda>(t, _). [as_i64 t]) rows; poss = map (\<lambda>(_, p, _). [as_i64 p]) rows;
         ctxs = map (\<lambda>(_, _, c, _). c) rows; slots = map (\<lambda>(_, _, _, s, _). [s]) rows;
         tbls = map (\<lambda>(_, _, _, _, t). t) rows in
     bindE (make_tensor_with_pad cd toks 1 0) (\<lambda>input_tokens.
     bindE (make_tensor_with_pad cd poss 1 0) (\<lambda>input_positions.
     bindE (make_tensor_with_pad cd slots 1 PAD_SLOT_ID) (\<lambda>slot_map.
     bindE (max_of ctxs) (\<lambda>max_ctx.
     bindE (new_cuda cd 0) (\<lambda>dev.
     bindE (from_vec cd (map as_i64 ctxs) [length ctxs] dev) (\<lambda>ctx_tensor.
     bindE (max_of (map length tbls)) (\<lambda>max_block_table_len.
     bindE (make_tensor_with_pad cd (map (map as_i64) tbls) max_block_table_len 0) (\<lambda>table_tensor.
     Inr \<lparr>tokens = input_tokens, positions = input_positions,
          metadata = \<lparr>prompt_lens = [], max_context_len = Some max_ctx, md_block_tables = Some table_tensor,
                      context_lens = Some ctx_tensor, slot_mapping = slot_map, attn_bias = None, md_is_prompt = False,
                      kv_cache_dtype = ''auto''\<rparr>\<rparr>)))))))))"

subsection \<open>Sampling\<close>

definition EOS_TOKEN :: string where
  "EOS_TOKEN = ''</s>''"

definition SAMPLING_SEED :: nat where
  "SAMPLING_SEED = 299792458"

definition stop_strings :: "StopTokens option \<Rightarrow> string list" where
  "stop_strings s = (case s of Some (Multi m) \<Rightarrow> m | Some (Single x) \<Rightarrow> [x] | None \<Rightarrow> [])"

text \<open>The pieces of the tokenizer as text: its mark for a space (U+2581, three bytes) and its newline.\<close>

definition detok_text :: "string \<Rightarrow> string" where
  "detok_text text = str_replace ''<0x0A>'' newline (str_replace [CHR 0xE2, CHR 0x96, CHR 0x81] '' '' text)"

text \<open>One round of the loop of \<open>sample\<close>; \<open>Inl\<close> is a token, \<open>Inr\<close> a finish reason.\<close>

definition sample_one ::
    "'t candle \<Rightarrow> 't externals \<Rightarrow> bool \<Rightarrow> SamplingParams \<Rightarrow> nat \<Rightarrow> 't \<Rightarrow> seq_store \<Rightarrow> LogitsProcessor \<Rightarrow> nat \<times> seq_addr
     \<Rightarrow> ((Logprobs + string) \<times> LogitsProcessor) res" where
  "sample_one cd ext chk params last_n logits st proc = (\<lambda>(seq_n, a).
     bindE (dim cd logits 1) (\<lambda>d.
     bindE (usize_sub chk d 1) (\<lambda>lst.
     bindE (index2 cd logits seq_n lst) (\<lambda>lg.
     let toks = map (\<lambda>x. x mod 2 ^ 32) (get_token_ids (st a)) in
     bindE (get_len (st a)) (\<lambda>len.
     bindE (usize_sub chk len (Sequence_get_prompt_len (st a))) (\<lambda>tokens_generated.
     bindE (if f32_eq (repetition_penalty params) (Fin 1) then Inr lg
            else apply_repeat_penalty ext lg (repetition_penalty params) (drop (length toks - last_n) toks)) (\<lambda>lg'.
     bindE (sample_logits ext proc lg') (\<lambda>(next_token, proc').
     if (case id_to_token ext (lp_token next_token mod 2 ^ 32) of
           Some text \<Rightarrow> detok_text text \<in> set (stop_strings (stop params))
         | None \<Rightarrow> False)
     then Inr (Inr ''stop'', proc')
     else if Some (lp_token next_token) = token_to_id ext EOS_TOKEN then Inr (Inr ''stop'', proc')
     else if max_tokens params \<le> tokens_generated then Inr (Inr ''length'', proc')
     else Inr (Inl next_token, proc')))))))))"

fun sample_loop ::
    "(LogitsProcessor \<Rightarrow> nat \<times> seq_addr \<Rightarrow> ((Logprobs + string) \<times> LogitsProcessor) res) \<Rightarrow> LogitsProcessor
     \<Rightarrow> (nat \<times> seq_addr) list \<Rightarrow> (Logprobs + string) list res" where
  "sample_loop f proc [] = Inr []"
| "sample_loop f proc (x # xs) =
     bindE (f proc x) (\<lambda>(r, proc'). bindE (sample_loop f proc' xs) (\<lambda>rs. Inr (r # rs)))"

definition sample ::
    "'t candle \<Rightarrow> 't externals \<Rightarrow> bool \<Rightarrow> SamplingParams \<Rightarrow> nat \<Rightarrow> 't \<Rightarrow> seq_store \<Rightarrow> seq_addr list
     \<Rightarrow> (Logprobs + string) list res" where
  "sample cd ext chk params last_n logits st arcs =
     bindE (get_logits_processor SAMPLING_SEED (unwrap_or (logprobs params) 1) params) (\<lambda>proc.
     bindE (dims_at cd logits 0) (\<lambda>n_seqs.
     sample_loop (sample_one cd ext chk params last_n logits st) proc (zip [0..<n_seqs] arcs)))"

end
