(* ===== verification/Llama_Pipeline.thy ===== *)
theory Llama_Pipeline
  imports Llama_Model Llm_Engine "HOL-Library.Sublist"
begin

section \<open>The llama pipeline\<close>

text \<open>
  \<open>LlamaLoader\<close> and \<open>LlamaPipeline\<close> of \<open>src/openai/pipelines/llama.rs\<close>, \<open>get_token\<close> of \<open>pipelines/mod.rs\<close> and the models of
  \<open>src/lib.rs\<close>.  Files, environment variables, the model hub and the parsers of configuration, weights and tokenizer are the fields of
  \<open>host\<close>, over arbitrary types of repositories, variables and tokenizers.  Progress messages are left out.
\<close>

record ('h, 'v, 'k) host =
  env_var :: "string \<Rightarrow> string res"
  read_to_string :: "string \<Rightarrow> string res"
  read_bytes :: "string \<Rightarrow> string res"
  home_dir :: "string option"
  build_api :: "string option \<Rightarrow> 'h res"
  api_repo :: "'h \<Rightarrow> string \<Rightarrow> string \<Rightarrow> 'h"
  repo_get :: "'h \<Rightarrow> string \<Rightarrow> string res"
  repo_siblings :: "'h \<Rightarrow> string list res"
  parse_config :: "f32 \<Rightarrow> string \<Rightarrow> LlamaConfig res"
  load_safetensors :: "string list \<Rightarrow> DType \<Rightarrow> Device \<Rightarrow> 'v res"
  tokenizer_from_file :: "string \<Rightarrow> 'k res"

record LlamaSpecificConfig =
  spec_repeat_last_n :: nat

record LlamaLoader =
  ld_config :: LlamaSpecificConfig
  ld_name :: string

definition LlamaSpecificConfig_new :: "nat \<Rightarrow> LlamaSpecificConfig" where
  [simp]: "LlamaSpecificConfig_new k = \<lparr>spec_repeat_last_n = k\<rparr>"

definition LlamaLoader_new :: "LlamaSpecificConfig \<Rightarrow> string \<Rightarrow> LlamaLoader" where
  [simp]: "LlamaLoader_new cfg nm = \<lparr>ld_config = cfg, ld_name = nm\<rparr>"

record LlamaModelPaths =
  tokenizer_filename :: string
  config_filename :: string
  filenames :: "string list"

record ('t, 'l, 'n, 'k) LlamaPipeline =
  pl_llama :: "('t, 'l, 'n) Llama"
  pl_args :: LlamaSpecificConfig
  pl_tokenizer :: 'k
  pl_conversation :: DefaultConversation
  pl_name :: string

subsection \<open>Downloading\<close>

definition get_token :: "('h, 'v, 'k) host \<Rightarrow> string option \<Rightarrow> string option \<Rightarrow> string res" where
  "get_token host hf_token hf_token_path =
     (case (hf_token, hf_token_path) of
        (Some envvar, None) \<Rightarrow> env_var host envvar
      | (None, Some path) \<Rightarrow> read_to_string host path
      | (None, None) \<Rightarrow>
          (case home_dir host of
             None \<Rightarrow> Inl (Err [Txt ''No home directory''])
           | Some home \<Rightarrow> read_to_string host (home @ ''/.cache/huggingface/token''))
      | (Some _, Some _) \<Rightarrow> Inl (Err [Txt ''Do not specify `hf_token` and `hf_token_path` at the same time.'']))"

definition ends_with :: "string \<Rightarrow> string \<Rightarrow> bool" where
  "ends_with s ending = suffix ending s"

definition download_model ::
    "('h, 'v, 'k) host \<Rightarrow> string \<Rightarrow> string option \<Rightarrow> string option \<Rightarrow> string option \<Rightarrow> LlamaModelPaths res" where
  "download_model host model_id revision hf_token hf_token_path =
     bindE (get_token host hf_token hf_token_path) (\<lambda>token.
     bindE (build_api host (Some token)) (\<lambda>api0.
     let api = api_repo host api0 model_id (unwrap_or revision ''main'') in
     bindE (repo_get host api ''tokenizer.json'') (\<lambda>tok.
     bindE (repo_get host api ''config.json'') (\<lambda>cfg.
     bindE (repo_siblings host api) (\<lambda>siblings.
     bindE (mapE (repo_get host api) (filter (\<lambda>x. ends_with x ''.safetensors'') siblings)) (\<lambda>files.
     Inr \<lparr>tokenizer_filename = tok, config_filename = cfg, filenames = files\<rparr>))))))"

subsection \<open>Loading\<close>

text \<open>\<open>default_rope\<close>, which \<open>serde\<close> uses for a configuration without \<open>rope_theta\<close>.\<close>

definition default_rope :: f32 where
  "default_rope = Fin 10000"

definition llama_conversation :: DefaultConversation where
  "llama_conversation = DefaultConversation_new ''llama-2''
     (''[INST] <<SYS>>'' @ newline @ ''{}'' @ newline @ ''<</SYS>>'' @ newline @ newline) [] 0 Llama2 '''' []
     (''[INST]'', ''[/INST]'') ('' '', Some '' </s></s>'')"

definition load_model ::
    "'t candle \<Rightarrow> 't tensor_ops \<Rightarrow> ('t, 'v, 'l, 'n) nn_ops \<Rightarrow> bool \<Rightarrow> ('h, 'v, 'k) host \<Rightarrow> LlamaLoader \<Rightarrow> LlamaModelPaths \<Rightarrow> DType \<Rightarrow> Device
     \<Rightarrow> (('t, 'l, 'n, 'k) LlamaPipeline \<times> nat) res" where
  "load_model cd ops nn chk host ld paths dt dev =
     bindE (read_bytes host (config_filename paths)) (\<lambda>bytes.
     bindE (parse_config host default_rope bytes) (\<lambda>lc.
     let cfg = into_config lc in
     bindE (load_safetensors host (filenames paths) dt dev) (\<lambda>vb.
     bindE (Llama_load cd ops nn chk vb cfg dt dev) (\<lambda>llama.
     bindE (tokenizer_from_file host (tokenizer_filename paths)) (\<lambda>tok.
     Inr (\<lparr>pl_llama = llama, pl_args = ld_config ld, pl_tokenizer = tok, pl_conversation = llama_conversation, pl_name = ld_name ld\<rparr>,
          4096))))))"

subsection \<open>The pipeline\<close>

definition LlamaPipeline_forward ::
    "'t candle \<Rightarrow> 't tensor_ops \<Rightarrow> ('t, 'v, 'l, 'n) nn_ops \<Rightarrow> bool \<Rightarrow> bool \<Rightarrow> ('t, 'l, 'n, 'k) LlamaPipeline \<Rightarrow> 't \<Rightarrow> 't
     \<Rightarrow> ('t \<times> 't) list option \<Rightarrow> 't InputMetadata \<Rightarrow> 't res" where
  "LlamaPipeline_forward cd ops nn cuda chk pl input_tokens input_positions kv_cache input_metadata =
     Llama_forward cd ops nn cuda chk (pl_llama pl) input_tokens input_positions kv_cache input_metadata"

definition LlamaPipeline_tokenizer :: "('t, 'l, 'n, 'k) LlamaPipeline \<Rightarrow> 'k" where
  [simp]: "LlamaPipeline_tokenizer pl = pl_tokenizer pl"

definition get_conversation :: "('t, 'l, 'n, 'k) LlamaPipeline \<Rightarrow> DefaultConversation" where
  [simp]: "get_conversation pl = pl_conversation pl"

definition LlamaPipeline_name :: "('t, 'l, 'n, 'k) LlamaPipeline \<Rightarrow> string" where
  [simp]: "LlamaPipeline_name pl = pl_name pl"

definition get_model_config :: "('t, 'l, 'n, 'k) LlamaPipeline \<Rightarrow> ConfigLike" where
  "get_model_config pl = dyn_Config (get_config (pl_llama pl))"

subsection \<open>The models\<close>

datatype ModelSelected = Llama7b nat | Llama13b nat | Llama70b nat

fun ModelSelected_to_string :: "ModelSelected \<Rightarrow> string" where
  "ModelSelected_to_string (Llama7b _) = ''llama7b''"
| "ModelSelected_to_string (Llama13b _) = ''llama13b''"
| "ModelSelected_to_string (Llama70b _) = ''llama70b''"

fun get_model_loader :: "ModelSelected \<Rightarrow> LlamaLoader \<times> string" where
  "get_model_loader (Llama7b k) = (LlamaLoader_new (LlamaSpecificConfig_new k) ''llama7b'', ''meta-llama/Llama-2-7b-chat-hf'')"
| "get_model_loader (Llama13b k) = (LlamaLoader_new (LlamaSpecificConfig_new k) ''llama13b'', ''meta-llama/Llama-2-13b-chat-hf'')"
| "get_model_loader (Llama70b k) = (LlamaLoader_new (LlamaSpecificConfig_new k) ''llama70b'', ''meta-llama/Llama-2-70b-chat-hf'')"

end
