(* ===== verification/Attention_Properties.thy ===== *)
theory Attention_Properties
  imports Paged_Attention Cache_Engine
begin

section \<open>What the attention guarantees\<close>

text \<open>
  The intervals of a batch, the arguments of \<open>reshape_and_cache\<close>, and the masks.  \<open>checks_shapes\<close> lists what the tensor
  library documents about shapes: a constructor gives the dimensions it is asked for, a conversion of the data type keeps them, an
  elementwise product needs equal dimensions and an assignment to a slice needs equal ranks.
\<close>

definition checks_shapes :: "'t candle \<Rightarrow> 't tensor_ops \<Rightarrow> bool" where
  "checks_shapes cd ops \<longleftrightarrow>
     (\<forall>ds dt dev t. zeros cd ds dt dev = Inr t \<longrightarrow> dims cd t = ds)
     \<and> (\<forall>xs ds dev t. from_vec_u8 ops xs ds dev = Inr t \<longrightarrow> dims cd t = ds)
     \<and> (\<forall>t dt t'. to_dtype ops t dt = Inr t' \<longrightarrow> dims cd t' = dims cd t)
     \<and> (\<forall>t l s. dims2 ops t = Inr (l, s) \<longrightarrow> dims cd t = [l, s])
     \<and> (\<forall>a b t. mul ops a b = Inr t \<longrightarrow> dims cd a = dims cd b)
     \<and> (\<forall>a rs b t. slice_assign ops a rs b = Inr t \<longrightarrow> length (dims cd a) = length (dims cd b))"

lemma checks_shapesD:
  assumes "checks_shapes cd ops"
  shows "\<And>ds dt dev t. zeros cd ds dt dev = Inr t \<Longrightarrow> dims cd t = ds"
    "\<And>xs ds dev t. from_vec_u8 ops xs ds dev = Inr t \<Longrightarrow> dims cd t = ds"
    "\<And>t dt t'. to_dtype ops t dt = Inr t' \<Longrightarrow> dims cd t' = dims cd t"
    "\<And>t l s. dims2 ops t = Inr (l, s) \<Longrightarrow> dims cd t = [l, s]"
    "\<And>a b t. mul ops a b = Inr t \<Longrightarrow> dims cd a = dims cd b"
    "\<And>a rs b t. slice_assign ops a rs b = Inr t \<Longrightarrow> length (dims cd a) = length (dims cd b)"
  by (atomize (full)) (insert assms [unfolded checks_shapes_def], elim conjE, intro conjI; assumption)

subsection \<open>The intervals of a batch\<close>

text \<open>The sum of the first \<open>k\<close> lengths.\<close>

definition prefix_sum :: "nat list \<Rightarrow> nat \<Rightarrow> nat" where
  "prefix_sum ls k = sum_list (take k ls)"

lemma prefix_sum_Suc: "k < length ls \<Longrightarrow> prefix_sum ls (Suc k) = prefix_sum ls k + ls ! k"
  by (simp add: prefix_sum_def take_Suc_conv_app_nth)

lemma prefix_sum_mono: "i \<le> j \<Longrightarrow> prefix_sum ls i \<le> prefix_sum ls j"
proof -
  assume "i \<le> j"
  then obtain d where "j = i + d" using le_Suc_ex by blast
  then show ?thesis by (simp add: prefix_sum_def take_add)
qed

lemma from_seqlens_loop:
  "sum_list ls < 2 ^ 32 \<Longrightarrow>
   foldE (\<lambda>starts seqlen. bindE (u32_add chk (last starts) seqlen) (\<lambda>next. Inr (starts @ [next]))) [0] ls
   = Inr (map (prefix_sum ls) [0..<Suc (length ls)])"
proof (induction ls rule: rev_induct)
  case Nil
  then show ?case by (simp add: prefix_sum_def)
next
  case (snoc x ls)
  have "map (prefix_sum (ls @ [x])) [0..<Suc (length ls)] = map (prefix_sum ls) [0..<Suc (length ls)]"
    by (simp add: prefix_sum_def)
  then show ?case
    using snoc by (simp add: foldE_append u32_add_def prefix_sum_def)
qed

lemma from_seqlens_length:
  "SeqLenInfo_from_seqlens chk ls = Inr info \<Longrightarrow> length (seqstart_py info) = Suc (length ls)"
proof -
  have "foldE (\<lambda>starts seqlen. bindE (u32_add chk (last starts) seqlen) (\<lambda>next. Inr (starts @ [next]))) st ls = Inr r
      \<Longrightarrow> length r = length st + length ls" for st r
    by (induction ls arbitrary: st) (auto simp: bindE_Inr_iff)
  then show "SeqLenInfo_from_seqlens chk ls = Inr info \<Longrightarrow> length (seqstart_py info) = Suc (length ls)"
    by (auto simp: SeqLenInfo_from_seqlens_def SeqLenInfo_new_def bindE_Inr_iff)
qed

lemma intervals_nth:
  "zip (map f [0..<Suc n]) (tl (map f [0..<Suc n])) = map (\<lambda>i. (f i, f (Suc i))) [0..<n]"
  by (rule nth_equalityI) (simp_all add: nth_tl del: upt_Suc)

lemma unique_interval:
  assumes "pos < prefix_sum ls (length ls)"
  shows "\<exists>!i. i < length ls \<and> prefix_sum ls i \<le> pos \<and> pos < prefix_sum ls (Suc i)"
proof -
  let ?k = "LEAST k. pos < prefix_sum ls k"
  have k: "pos < prefix_sum ls ?k" using LeastI [of "\<lambda>k. pos < prefix_sum ls k", OF assms] .
  then obtain i where i: "?k = Suc i" by (cases ?k) (simp_all add: prefix_sum_def)
  have below: "prefix_sum ls i \<le> pos" using not_less_Least [of i "\<lambda>k. pos < prefix_sum ls k"] i by simp
  have len: "i < length ls" using Least_le [of "\<lambda>k. pos < prefix_sum ls k", OF assms] i by simp
  show ?thesis
  proof (rule ex1I [of _ i])
    show "i < length ls \<and> prefix_sum ls i \<le> pos \<and> pos < prefix_sum ls (Suc i)" using k i below len by simp
    fix j
    assume j: "j < length ls \<and> prefix_sum ls j \<le> pos \<and> pos < prefix_sum ls (Suc j)"
    have "\<not> Suc i \<le> j" using prefix_sum_mono [of "Suc i" j ls] k [unfolded i] j by (metis leD le_trans)
    moreover have "\<not> Suc j \<le> i" using prefix_sum_mono [of "Suc j" i ls] below j by (metis leD le_trans)
    ultimately show "j = i" by simp
  qed
qed

text \<open>
  C26: the intervals of a batch.  For lengths whose sum fits a \<open>u32\<close>, \<open>from_seqlens\<close> and \<open>intervals\<close> return one interval per
  sequence, each as long as its sequence, and every position of the batch lies in exactly one of them.
\<close>

theorem seqlen_intervals_partition:
  assumes "sum_list ls < 2 ^ 32"
  shows "\<exists>info ivs. SeqLenInfo_from_seqlens chk ls = Inr info \<and> intervals info = Inr ivs
     \<and> map (\<lambda>(a, b). b - a) ivs = ls
     \<and> (\<forall>pos < sum_list ls. \<exists>!i. i < length ivs \<and> fst (ivs ! i) \<le> pos \<and> pos < snd (ivs ! i))"
proof -
  let ?starts = "map (prefix_sum ls) [0..<Suc (length ls)]"
  let ?ivs = "map (\<lambda>i. (prefix_sum ls i, prefix_sum ls (Suc i))) [0..<length ls]"
  have "SeqLenInfo_from_seqlens chk ls = Inr \<lparr>seqstart_py = ?starts\<rparr>"
    using from_seqlens_loop [OF assms, of chk] by (simp add: SeqLenInfo_from_seqlens_def SeqLenInfo_new_def del: upt_Suc)
  moreover have "intervals \<lparr>seqstart_py = ?starts\<rparr> = Inr ?ivs"
    using intervals_nth [of "prefix_sum ls" "length ls"] by (simp add: intervals_def del: upt_Suc)
  moreover have "map (\<lambda>(a, b). b - a) ?ivs = ls"
    by (rule nth_equalityI) (simp_all add: prefix_sum_Suc)
  moreover have "\<exists>!i. i < length ?ivs \<and> fst (?ivs ! i) \<le> pos \<and> pos < snd (?ivs ! i)" if "pos < sum_list ls" for pos
  proof -
    have "(i < length ?ivs \<and> fst (?ivs ! i) \<le> pos \<and> pos < snd (?ivs ! i))
        = (i < length ls \<and> prefix_sum ls i \<le> pos \<and> pos < prefix_sum ls (Suc i))" for i by auto
    then show ?thesis using unique_interval [of pos ls] that by (simp add: prefix_sum_def [of ls "length ls"])
  qed
  ultimately show ?thesis by blast
qed

theorem seqlen_intervals_partition_witness:
  "\<exists>info ivs. SeqLenInfo_from_seqlens True [3, 0, 5] = Inr info \<and> intervals info = Inr ivs
     \<and> map (\<lambda>(a, b). b - a) ivs = [3, 0, 5]
     \<and> (\<exists>!i. i < length ivs \<and> fst (ivs ! i) \<le> 4 \<and> 4 < snd (ivs ! i))"
proof -
  obtain info ivs where "SeqLenInfo_from_seqlens True [3, 0, 5] = Inr info" "intervals info = Inr ivs"
      "map (\<lambda>(a, b). b - a) ivs = [3, 0, 5]"
      "\<forall>pos < sum_list [3, 0, 5]. \<exists>!i. i < length ivs \<and> fst (ivs ! i) \<le> pos \<and> pos < snd (ivs ! i)"
    using seqlen_intervals_partition [of "[3, 0, 5]" True] by auto
  then show ?thesis by (intro exI [of _ info] exI [of _ ivs]) simp
qed

subsection \<open>Masks\<close>

lemma concat_rows:
  assumes "\<And>i. i < l \<Longrightarrow> length (f i) = s"
  shows "length (concat (map f [0..<l])) = l * s" "i < l \<Longrightarrow> j < s \<Longrightarrow> concat (map f [0..<l]) ! (i * s + j) = f i ! j"
proof -
  have "length (concat (map f [0..<l])) = l * s
      \<and> (\<forall>i j. i < l \<longrightarrow> j < s \<longrightarrow> concat (map f [0..<l]) ! (i * s + j) = f i ! j)"
    using assms
  proof (induction l)
    case (Suc l)
    then have IH: "length (concat (map f [0..<l])) = l * s"
        "\<And>i j. i < l \<Longrightarrow> j < s \<Longrightarrow> concat (map f [0..<l]) ! (i * s + j) = f i ! j"
      by simp_all
    have "i * s + j < l * s" if "i < l" "j < s" for i j
    proof -
      have "i * s + j < Suc i * s" using that(2) by simp
      also have "\<dots> \<le> l * s" using that(1) by (intro mult_le_mono1) simp
      finally show ?thesis .
    qed
    then show ?case using IH Suc.prems by (auto simp: nth_append less_Suc_eq)
  qed simp
  then show "length (concat (map f [0..<l])) = l * s"
      "i < l \<Longrightarrow> j < s \<Longrightarrow> concat (map f [0..<l]) ! (i * s + j) = f i ! j"
    by simp_all
qed

text \<open>
  The cells of the triangles that \<open>materialize_causal_mask\<close> multiplies, as \<open>apply_triangular\<close> computes them: the lower triangle lets a query see the keys up to
  its own position plus the shift, and a second one, for a window of \<open>w\<close> at most the shift, keeps of these the keys at least a window behind, less one.  In the
  program the shift is always 0, so that the diagonal of the window underflows, and \<open>apply_triangular\<close> fails on the product (\<open>apply_triangular_fails\<close>).
\<close>

lemma causal_mask_cells:
  assumes "i < l" "j < s" "w \<le> shift"
  shows "length (triangle_cells l s (int shift) False) = l * s
    \<and> triangle_cells l s (int shift) False ! (i * s + j) = (if j \<le> i + shift then 1 else 0)
    \<and> triangle_cells l s (int shift) False ! (i * s + j) * triangle_cells l s (int (shift - w + 1)) False ! (i * s + j)
        = (if j \<le> i + shift \<and> j + w \<le> i + shift + 1 then 1 else 0)"
proof -
  have cells: "triangle_cells l s d False ! (i * s + j) = (if int j \<le> int i + d then 1 else 0)"
      "length (triangle_cells l s d False) = l * s" for d
    using concat_rows [of l "\<lambda>i. map (\<lambda>j. if int i + d < int j then 0 else (1 :: nat)) [0..<s]" s] assms(1,2)
    by (simp_all add: triangle_cells_def)
  have "int j \<le> int i + int (shift - w + 1) \<longleftrightarrow> j + w \<le> i + shift + 1" using assms(3) by auto
  then show ?thesis using cells by auto
qed

text \<open>A product of a matrix with the flat list of its cells is refused, so no triangle is ever applied.\<close>

lemma apply_triangular_fails:
  assumes "checks_shapes cd ops"
  shows "apply_triangular cd ops xs d up \<noteq> Inr t"
proof
  assume "apply_triangular cd ops xs d up = Inr t"
  then obtain l s tri tri' where "dims2 ops xs = Inr (l, s)"
      "from_vec_u8 ops (triangle_cells l s d up) [l * s] (device cd xs) = Inr tri"
      "to_dtype ops tri (dtype cd xs) = Inr tri'" "mul ops xs tri' = Inr t"
    by (auto simp: apply_triangular_def bindE_Inr_iff)
  then have "dims cd xs = [l, s]" "dims cd xs = [l * s]"
    using checks_shapesD [OF assms] by metis+
  then show False by simp
qed

lemma causal_mask_fails: "checks_shapes cd ops \<Longrightarrow> materialize_causal_mask cd ops chk shape dt dev w br \<noteq> Inr t"
  by (auto simp: materialize_causal_mask_def bindE_Inr_iff try_api_Inr apply_triangular_fails)

lemma block_mask_rank:
  "checks_shapes cd ops \<Longrightarrow> create_block_mask cd ops chk m [l, s] dt dev = Inr t \<Longrightarrow> length (dims cd t) = 2"
  by (cases m) (auto simp: mask_methods create_block_mask_def causal_mask_fails dest: checks_shapesD(1))

text \<open>A mask of a batch that is not empty: the first assignment to a slice fails.\<close>

lemma materialize_fails:
  assumes lib: "checks_shapes cd ops"
    and q: "get_q_seqinfo m = Inr qi" "length (seqstart_py qi) = Suc (Suc b)"
    and k: "get_k_seqinfo m = Inr ki" "length (seqstart_py ki) = Suc (Suc b)"
  shows "materialize_blocks cd ops chk m [l, s] dt dev \<noteq> Inr t"
proof
  assume "materialize_blocks cd ops chk m [l, s] dt dev = Inr t"
  then obtain zero mk qs ks mk' where r: "zeros cd [] dt dev = Inr zero" "to_dtype ops zero dt = Inr mk"
      "intervals qi = Inr qs" "intervals ki = Inr ks"
      "foldE (\<lambda>mask ((q_start, q_end), (k_start, k_end)).
         bindE (u32_sub chk q_end q_start) (\<lambda>ql.
         bindE (u32_sub chk k_end k_start) (\<lambda>kl.
         bindE (create_block_mask cd ops chk m [ql, kl] dt dev) (\<lambda>block.
         bindE (slice_assign ops mask [(q_start, q_end), (k_start, k_end)] block) (\<lambda>_.
         Inr mask))))) mk (zip qs ks) = Inr mk'"
    using q(1) k(1) by (auto simp: materialize_blocks_def bindE_Inr_iff)
  have rank: "dims cd mk = []" using checks_shapesD(1,3) [OF lib] r(1,2) by metis
  have "length qs = Suc b" "length ks = Suc b" using r(3,4) q(2) k(2) by (auto simp: intervals_def split: if_splits)
  then obtain a a' c d rest where "zip qs ks = ((a, a'), (c, d)) # rest" by (cases qs; cases ks) auto
  then obtain ql kl block t' where "create_block_mask cd ops chk m [ql, kl] dt dev = Inr block"
      "slice_assign ops mk [(a, a'), (c, d)] block = Inr t'"
    using r(5) by (auto simp: bindE_Inr_iff)
  then show False using block_mask_rank [OF lib] checks_shapesD(6) [OF lib] rank by (metis list.size(3) zero_neq_numeral)
qed

lemma make_bias_cases:
  assumes "make_bias cd ops chk pa seq_len (Suc b) dev dt = Inr m"
  obtains (tensor) x where "m = TensorBias x"
  | (blocks) info where "get_q_seqinfo m = Inr info" "get_k_seqinfo m = Inr info"
      "length (seqstart_py info) = Suc (Suc b)" "\<And>x. m \<noteq> TensorBias x"
proof (cases "pa_alibi_slopes pa")
  case (Some slopes)
  then show ?thesis using assms tensor by (auto simp: make_bias_def alibi_bias_def bindE_Inr_iff Let_def)
next
  case None
  then obtain l info where "SeqLenInfo_from_seqlens chk (replicate (Suc b) l) = Inr info"
      "m = CausalMask \<lparr>cm_q_seqinfo = info, cm_k_seqinfo = info, cm_batch_sizes = None\<rparr>
       \<or> (\<exists>w. m = LocalMask \<lparr>lm_q_seqinfo = info, lm_k_seqinfo = info, lm_batch_sizes = None, lm_window_size = w\<rparr>)"
    using assms
    by (auto simp: make_bias_def BlockDiagonalCausalMask_from_seqlens_def mask_methods make_local_attention_def bindE_Inr_iff try_api_Inr
        split: option.splits)
  then show ?thesis
    using from_seqlens_length by (intro blocks [of info]) (auto simp: mask_methods get_q_seqinfo_def get_k_seqinfo_def)
qed

lemma prompt_attention_fails:
  assumes lib: "checks_shapes cd ops" and fresh: "attn_bias md = None"
  shows "memory_efficient_attention cd ops cuda chk pa q k v md seq_len (Suc b) dev dt \<noteq> Inr r"
proof
  assume "memory_efficient_attention cd ops cuda chk pa q k v md seq_len (Suc b) dev dt = Inr r"
  then obtain m dt' l s t where m: "make_bias cd ops chk pa seq_len (Suc b) dev dt = Inr m"
      and t: "materialize cd ops chk m [l, s] dt' dev = Inr t"
    using fresh by (auto simp: memory_efficient_attention_def masked_attention_def bindE_Inr_iff try_api_Inr Let_def)
  from m show False
  proof (cases rule: make_bias_cases)
    case (tensor x)
    then show ?thesis using t by (auto simp: mask_methods materialize_def bindE_Inr_iff try_api_Inr causal_mask_fails [OF lib])
  next
    case (blocks info)
    then have "materialize_blocks cd ops chk m [l, s] dt' dev = Inr t"
      using t by (cases m) (auto simp: mask_methods materialize_def)
    then show ?thesis using materialize_fails [OF lib blocks(1,3,2,3)] by blast
  qed
qed

lemma decode_attention_fails: "paged_attention cd ops chk pa q kc vc md \<noteq> Inr r"
  by (auto simp: paged_attention_def paged_attention_v1_def paged_attention_v1_launcher_def paged_attention_v2_def
      bindE_Inr_iff Let_def split: if_splits)

subsection \<open>A concrete tensor library\<close>

text \<open>The operations on tensors that are a device, a data type and dimensions, with the library's checks of shapes.\<close>

type_synonym shape_tensor = "Device \<times> DType \<times> nat list"

definition with_dims :: "shape_tensor \<Rightarrow> nat list \<Rightarrow> shape_tensor" where
  "with_dims t ds = (fst t, fst (snd t), ds)"

definition mismatch :: "'a res" where
  "mismatch = Inl (Err [Txt ''shape mismatch''])"

definition same_dims :: "shape_tensor \<Rightarrow> shape_tensor \<Rightarrow> shape_tensor res" where
  "same_dims a b = (if snd (snd a) = snd (snd b) then Inr a else mismatch)"

definition shape_ops :: "shape_tensor tensor_ops" where
  "shape_ops = \<lparr>ones = (\<lambda>ds dt dev. Inr (dev, dt, ds)), from_vec_u8 = (\<lambda>xs ds dev. Inr (dev, U8, ds)),
     new_f64 = (\<lambda>xs dev. Inr (dev, F64, [length xs])), arange = (\<lambda>k dev. Inr (dev, F64, [k])),
     to_dtype = (\<lambda>t dt. Inr (fst t, dt, snd (snd t))),
     slice_assign = (\<lambda>a rs b. if length (snd (snd a)) = length (snd (snd b)) then Inr a else mismatch),
     assign_all = (\<lambda>a b. Inr a), index_all = (\<lambda>t k. if k \<le> length (snd (snd t)) then Inr t else mismatch),
     index_last_upto = (\<lambda>t k. Inr (with_dims t (butlast (snd (snd t)) @ [k]))),
     unsqueeze = (\<lambda>t i. Inr (with_dims t (take i (snd (snd t)) @ 1 # drop i (snd (snd t))))),
     expand = (\<lambda>t ds. Inr (with_dims t ds)), reshape = (\<lambda>t ds. if prod_list ds = prod_list (snd (snd t)) then Inr (with_dims t ds) else mismatch),
     reshape_rest = (\<lambda>t ds. if prod_list ds dvd prod_list (snd (snd t))
                        then Inr (with_dims t (prod_list (snd (snd t)) div prod_list ds # ds)) else mismatch),
     flatten = (\<lambda>t i j. if i \<le> j \<and> j < length (snd (snd t)) then Inr (with_dims t [prod_list (snd (snd t))]) else mismatch),
     dim_minus2 = (\<lambda>t. if 2 \<le> length (snd (snd t)) then Inr (snd (snd t) ! (length (snd (snd t)) - 2)) else mismatch),
     dims2 = (\<lambda>t. case snd (snd t) of [a, b] \<Rightarrow> Inr (a, b) | _ \<Rightarrow> mismatch),
     dims3 = (\<lambda>t. case snd (snd t) of [a, b, c] \<Rightarrow> Inr (a, b, c) | _ \<Rightarrow> mismatch),
     mul = same_dims, add = same_dims, sub = same_dims, log = Inr,
     stride = (\<lambda>t. map (\<lambda>i. prod_list (drop (Suc i) (snd (snd t)))) [0..<length (snd (snd t))]),
     zeros_like = Inr, transpose_last = Inr, contiguous = Inr, matmul = (\<lambda>a b. Inr (with_dims a (butlast (snd (snd a)) @ [last (snd (snd b))]))), mul_scalar = (\<lambda>t k. Inr t),
     broadcast_as = (\<lambda>t ds. Inr (with_dims t ds)), softmax_last_dim = Inr, dropout = (\<lambda>t k. Inr t),
     flash_attn = (\<lambda>q k v sc. Inr q), cuda_slice_ptr = (\<lambda>t. Inr 0),
     launch_reshape = (\<lambda>kn g b ptrs xs kc vc. Inr (kc, vc)), launch_rotary = (\<lambda>kn g b ptrs xs q k. Inr (q, k))\<rparr>"

lemma checks_shapes_shape_ops: "checks_shapes shape_candle shape_ops"
  by (auto simp: checks_shapes_def shape_candle_def shape_ops_def same_dims_def mismatch_def split: list.splits if_splits)

subsection \<open>Properties\<close>

lemma reshape_ignores_slots:
  "dtype cd a = dtype cd b \<Longrightarrow> reshape_and_cache cd ops key val kc vc a = reshape_and_cache cd ops key val kc vc b"
  by (cases "device cd key") (simp_all add: reshape_and_cache_def Let_def)

lemma reshape_checks:
  assumes "reshape_and_cache cd ops key val kc vc slots = Inr r"
  shows "(\<exists>ord. device cd key = Cuda ord) \<and> device cd val = device cd key \<and> device cd kc = device cd key \<and> device cd vc = device cd key
     \<and> dtype cd val = dtype cd key \<and> dtype cd kc = dtype cd key \<and> dtype cd vc = dtype cd key \<and> dtype cd slots = I64"
  using assms by (auto simp: reshape_and_cache_def differ_def Let_def split: Device.splits if_splits)

text \<open>
  The arguments of \<open>reshape_and_cache\<close>.  It returns only when keys, values and both caches have one data type and one CUDA
  device and the slots are of type \<open>I64\<close>.  The slots themselves are never used: two tensors of slots with the same data type give the
  same result, so new keys and values are not stored at the slots the engine computed.
\<close>

lemma reshape_and_cache_arguments:
  assumes "reshape_and_cache cd ops key val kc vc slots = Inr r"
  shows "(\<exists>ord. device cd key = Cuda ord) \<and> device cd val = device cd key \<and> device cd kc = device cd key \<and> device cd vc = device cd key
     \<and> dtype cd val = dtype cd key \<and> dtype cd kc = dtype cd key \<and> dtype cd vc = dtype cd key \<and> dtype cd slots = I64
     \<and> (\<forall>slots'. dtype cd slots' = I64 \<longrightarrow> reshape_and_cache cd ops key val kc vc slots' = Inr r)"
  using reshape_checks [OF assms] reshape_ignores_slots [of cd _ slots] assms by metis

text \<open>
  C33: no attention.  \<open>PagedAttention::forward\<close> returns no output for any batch that is not empty, when
  the metadata comes without a mask (\<open>attn_bias\<close> is \<open>None\<close>), as all metadata that the engine prepares does.  For prompts the mask cannot be built: a
  mask by blocks assigns a matrix to a slice of a tensor without dimensions, and a triangular mask multiplies a matrix with a flat vector of its
  cells.  For decoding both paged attention kernels are unfinished.
\<close>

theorem forward_never_attends:
  assumes "checks_shapes cd ops" "attn_bias md = None" "dims3 ops query = Inr (Suc b, l, h)"
  shows "\<exists>ending. PagedAttention_forward cd ops cuda chk pa query key val kc vc md dt dev = Inl ending"
proof (cases "PagedAttention_forward cd ops cuda chk pa query key val kc vc md dt dev")
  case (Inr r)
  then have False
    using assms(3)
    by (auto simp: PagedAttention_forward_def bindE_Inr_iff decode_attention_fails prompt_attention_fails [OF assms(1,2)]
        split: if_splits)
  then show ?thesis ..
qed simp

theorem forward_never_attends_witness:
  "\<exists>ending. PagedAttention_forward shape_candle shape_ops False True
      \<lparr>pa_num_attention_heads = 32, pa_head_dim = 128, pa_num_key_value_heads = 32, pa_scale = Fin 1, pa_sliding_window = None,
       pa_num_queries_per_kv = 1, pa_alibi_slopes = None\<rparr>
      (Cuda 0, F16, [1, 5, 4096]) (Cuda 0, F16, [1, 5, 4096]) (Cuda 0, F16, [1, 5, 4096]) None None
      (InputMetadata_new [5] None None None (Cuda 0, I64, [5]) ''auto'') F16 (Cuda 0) = Inl ending"
  by (rule forward_never_attends [OF checks_shapes_shape_ops, where b = 0 and l = 5 and h = 4096])
    (simp_all add: InputMetadata_new_def shape_ops_def)

end
