(* ===== verification/Generate.thy ===== *)
theory Generate
  imports Llm_Engine
begin

section \<open>Generation\<close>

text \<open>
  \<open>LLMEngine::generate\<close>.  One round of its loop is \<open>gen_round\<close>; the loop is a partial function, whose value is
  \<open>None\<close> when it runs for ever.
\<close>

subsection \<open>The answer of a finished group\<close>

text \<open>
  \<open>slice::sort_by\<close> with a comparison that may panic: a stable sort, here by insertion.  The result of a stable sort by a total preorder does
  not depend on the algorithm; a comparison without an answer is unwrapped and panics.
\<close>

fun insert_by :: "('a \<Rightarrow> 'a \<Rightarrow> Ordering res) \<Rightarrow> 'a \<Rightarrow> 'a list \<Rightarrow> 'a list res" where
  "insert_by compare x [] = Inr [x]"
| "insert_by compare x (y # ys) =
     bindE (compare x y) (\<lambda>ordering.
     if ordering = Greater then bindE (insert_by compare x ys) (\<lambda>zs. Inr (y # zs)) else Inr (x # y # ys))"

fun sort_by :: "('a \<Rightarrow> 'a \<Rightarrow> Ordering res) \<Rightarrow> 'a list \<Rightarrow> 'a list res" where
  "sort_by compare [] = Inr []"
| "sort_by compare (x # xs) = bindE (sort_by compare xs) (insert_by compare x)"

definition compare_seqs :: "seq_store \<Rightarrow> seq_addr \<Rightarrow> seq_addr \<Rightarrow> Ordering res" where
  "compare_seqs st seq_a seq_b = unwrap (partial_cmp (get_cumulative_logprob (st seq_b)) (get_cumulative_logprob (st seq_a)))"

definition top_seqs :: "SamplingParams \<Rightarrow> seq_store \<Rightarrow> SequenceGroup \<Rightarrow> seq_addr list res" where
  "top_seqs params st g =
     bindE (sort_by (compare_seqs st) (vals (get_seqs g))) (\<lambda>sorted.
     if n params \<le> length sorted then Inr (take (n params) sorted) else Inl (Panic UnwrapNone))"

definition make_choice :: "'t externals \<Rightarrow> string \<Rightarrow> seq_store \<Rightarrow> nat \<times> seq_addr \<Rightarrow> ChatChoice res" where
  "make_choice ext role st = (\<lambda>(ix, a).
     let outputs = get_output_tokens (st a) in
     bindE (mapE (\<lambda>x. try_into_u32 (lp_token x)) outputs) (\<lambda>ids.
     bindE (detokenize ext ids) (\<lambda>text.
     bindE (get_finish_reason (st a)) (\<lambda>reason.
     Inr \<lparr>ch_message = \<lparr>cd_content = Some text, cd_role = role\<rparr>, ch_finish_reason = Some reason, ch_index = ix,
          ch_logprobs = Some outputs\<rparr>))))"

definition group_choices :: "'t externals \<Rightarrow> string \<Rightarrow> seq_store \<Rightarrow> seq_addr list \<Rightarrow> ChatChoice list res" where
  "group_choices ext role st top_n = mapE (make_choice ext role st) (enumerate 0 top_n)"

text \<open>
  \<open>seq.deref_mut().get_len() - seq.deref_mut().get_prompt_len()\<close>, summed over the sequences.  The guard of the sequence lives to the end of the
  expression, so the second \<open>deref_mut\<close> would wait for it, had \<open>get_len\<close> returned.
\<close>

definition generated_tokens :: "bool \<Rightarrow> seq_store \<Rightarrow> seq_addr list \<Rightarrow> nat res" where
  "generated_tokens chk st arcs =
     bindE (mapE (\<lambda>a.
         bindE (spin_lock False) (\<lambda>held.
         bindE (get_len (st a)) (\<lambda>len.
         bindE (spin_lock held) (\<lambda>_.
         usize_sub chk len (Sequence_get_prompt_len (st a)))))) arcs) (\<lambda>ks.
     Inr (sum_list ks))"

definition group_response ::
    "'t externals \<Rightarrow> bool \<Rightarrow> SamplingParams \<Rightarrow> string \<Rightarrow> seq_store \<Rightarrow> SequenceGroup
     \<Rightarrow> (ChatChoice list \<times> ChatCompletionUsageResponse) res" where
  "group_response ext chk params role st g =
     bindE (top_seqs params st g) (\<lambda>top_n.
     bindE (group_choices ext role st top_n) (\<lambda>choices.
     bindE (generated_tokens chk st top_n) (\<lambda>completion.
     bindE (unwrap (first_of top_n)) (\<lambda>a.
     bindE (generated_tokens chk st top_n) (\<lambda>completion'.
     Inr (choices, \<lparr>completion_tokens = completion, prompt_tokens = Sequence_get_prompt_len (st a),
                   total_tokens = completion' + Sequence_get_prompt_len (st a)\<rparr>))))))"

definition add_response ::
    "'t externals \<Rightarrow> bool \<Rightarrow> SamplingParams \<Rightarrow> string \<Rightarrow> seq_store \<Rightarrow> responses \<Rightarrow> SequenceGroup \<Rightarrow> responses res" where
  "add_response ext chk params role st resps g =
     (if SequenceGroup_is_finished st g \<and> map_of resps (SequenceGroup_get_id g) = None
      then bindE (group_response ext chk params role st g) (\<lambda>r. Inr (AList.update (SequenceGroup_get_id g) r resps))
      else Inr resps)"

subsection \<open>The loop\<close>

definition apply_result :: "seq_store \<Rightarrow> (Logprobs + string) \<times> seq_addr \<Rightarrow> seq_store res" where
  "apply_result st = (\<lambda>(r, a).
     case r of
       Inl lp \<Rightarrow> bindE (add_token (st a) lp) (\<lambda>q. Inr (st(a := q)))
     | Inr reason \<Rightarrow> Inr (st(a := set_finish_reason (st a) reason)))"

definition gen_round ::
    "'t candle \<Rightarrow> 't externals \<Rightarrow> bool \<Rightarrow> SamplingParams \<Rightarrow> 't LLMEngine \<Rightarrow> responses \<Rightarrow> ('t LLMEngine \<times> responses) res" where
  "gen_round cd ext chk params e resps =
     bindE (schedule (scheduler e)) (\<lambda>(out, sch).
     if ignored_seq_groups out \<noteq> [] then Inl (Panic NotImplemented)
     else
     bindE (try_api (execute_scheduler_ops cd out (e\<lparr>scheduler := sch\<rparr>))) (\<lambda>e1.
     bindE (unwrap (first_of (scheduled out))) (\<lambda>front.
     bindE (unwrap (first_of (vals (seqs front)))) (\<lambda>a.
     bindE (if is_prompt (sequences (scheduler e1) a) then prepare_prompt cd chk (scheduled out) e1
            else prepare_decode cd chk (scheduled out) e1) (\<lambda>inputs.
     bindE (get_kv_cache False (cache_engine e1)) (\<lambda>kv_cache.
     bindE (forward ext (tokens inputs) (positions inputs) kv_cache (metadata inputs)) (\<lambda>logits.
     bindE (sample cd ext chk params (repeat_last_n e1) logits (sequences (scheduler e1)) (group_arcs (scheduled out))) (\<lambda>result.
     bindE (foldE apply_result (sequences (scheduler e1)) (zip result (group_arcs (scheduled out)))) (\<lambda>st.
     bindE (free_finished_sequence_groups ((scheduler e1)\<lparr>sequences := st\<rparr>)) (\<lambda>sch2.
     bindE (foldE (add_response ext chk params (fst (get_roles (conversation e1))) (sequences sch2)) resps (scheduled out)) (\<lambda>resps'.
     Inr (e1\<lparr>scheduler := sch2\<rparr>, resps'))))))))))))"

partial_function (option) gen_loop ::
    "'t candle \<Rightarrow> 't externals \<Rightarrow> bool \<Rightarrow> SamplingParams \<Rightarrow> 't LLMEngine \<Rightarrow> responses
     \<Rightarrow> ('t LLMEngine \<times> responses) res option" where
  "gen_loop cd ext chk params e resps =
     (if has_unfinished_sequences (scheduler e)
      then (case gen_round cd ext chk params e resps of
              Inl ending \<Rightarrow> Some (Inl ending)
            | Inr (e', resps') \<Rightarrow> gen_loop cd ext chk params e' resps')
      else Some (Inr (e, resps)))"

definition generate ::
    "'t candle \<Rightarrow> 't externals \<Rightarrow> bool \<Rightarrow> nat \<Rightarrow> nat list \<Rightarrow> string \<Rightarrow> nat \<Rightarrow> SamplingParams \<Rightarrow> 't LLMEngine
     \<Rightarrow> ('t LLMEngine \<times> (ChatChoice list \<times> ChatCompletionUsageResponse) list) res option" where
  "generate cd ext chk now prompt request_id' created' params e =
     (case add_request now prompt request_id' created' e of
        Inl ending \<Rightarrow> Some (Inl ending)
      | Inr e1 \<Rightarrow>
          (case gen_loop cd ext chk params e1 [] of
             None \<Rightarrow> None
           | Some (Inl ending) \<Rightarrow> Some (Inl ending)
           | Some (Inr (e2, resps)) \<Rightarrow> Some (Inr (e2, vals resps))))"

subsection \<open>The order of the choices\<close>

text \<open>The order of \<open>compare_seqs\<close>: a sequence that is not greater may come first.\<close>

abbreviation best_first :: "seq_store \<Rightarrow> seq_addr list \<Rightarrow> bool" where
  "best_first st \<equiv> sorted_wrt (\<lambda>a b. f32_le (get_cumulative_logprob (st b)) (get_cumulative_logprob (st a)))"

abbreviation not_a_number :: "seq_store \<Rightarrow> seq_addr \<Rightarrow> bool" where
  "not_a_number st a \<equiv> get_cumulative_logprob (st a) = NaN"

lemma compare_seqs_NaN: "not_a_number st a \<or> not_a_number st b \<Longrightarrow> compare_seqs st a b = Inl (Panic UnwrapNone)"
  using partial_cmp_None_iff [of "get_cumulative_logprob (st b)" "get_cumulative_logprob (st a)"] by (auto simp: compare_seqs_def)

lemma compare_seqs_ok:
  assumes "\<not> not_a_number st a" "\<not> not_a_number st b"
  obtains ordering where "compare_seqs st a b = Inr ordering"
    "ordering = Greater \<Longrightarrow> f32_le (get_cumulative_logprob (st a)) (get_cumulative_logprob (st b))"
    "ordering \<noteq> Greater \<Longrightarrow> f32_le (get_cumulative_logprob (st b)) (get_cumulative_logprob (st a))"
proof -
  let ?a = "get_cumulative_logprob (st a)" and ?b = "get_cumulative_logprob (st b)"
  obtain ordering where o: "partial_cmp ?b ?a = Some ordering" using assms partial_cmp_None_iff by (cases "partial_cmp ?b ?a") auto
  moreover have "f32_le ?b ?a" if "ordering \<noteq> Greater" using o that partial_cmp_not_Greater [of ?b ?a] by (cases ordering) auto
  moreover have "f32_le ?a ?b" if "ordering = Greater" using o that by (auto simp: partial_cmp_def f32_le_def split: if_splits)
  ultimately show thesis using that [of ordering] by (simp add: compare_seqs_def)
qed

lemma insert_seq_ok:
  assumes "best_first st ys" "\<forall>a \<in> set (x # ys). \<not> not_a_number st a"
  shows "\<exists>zs. insert_by (compare_seqs st) x ys = Inr zs \<and> mset zs = add_mset x (mset ys) \<and> best_first st zs"
  using assms
proof (induction ys)
  case (Cons y ys)
  obtain ordering where o: "compare_seqs st x y = Inr ordering"
      "ordering = Greater \<Longrightarrow> f32_le (get_cumulative_logprob (st x)) (get_cumulative_logprob (st y))"
      "ordering \<noteq> Greater \<Longrightarrow> f32_le (get_cumulative_logprob (st y)) (get_cumulative_logprob (st x))"
    using compare_seqs_ok [of st x y] Cons.prems(2) by auto
  show ?case
  proof (cases "ordering = Greater")
    case True
    obtain zs where zs: "insert_by (compare_seqs st) x ys = Inr zs" "mset zs = add_mset x (mset ys)" "best_first st zs"
      using Cons by auto
    have "set zs = insert x (set ys)" using zs(2) by (metis set_mset_add_mset_insert set_mset_mset)
    then show ?thesis using Cons.prems(1) o True zs by auto
  next
    case False
    then show ?thesis using Cons.prems(1) o f32_le_trans by auto
  qed
qed simp

lemma sort_seqs_ok:
  "\<forall>a \<in> set xs. \<not> not_a_number st a \<Longrightarrow> \<exists>ys. sort_by (compare_seqs st) xs = Inr ys \<and> mset ys = mset xs \<and> best_first st ys"
proof (induction xs)
  case (Cons x xs)
  then obtain ys where ys: "sort_by (compare_seqs st) xs = Inr ys" "mset ys = mset xs" "best_first st ys" by auto
  then have "set ys = set xs" by (metis set_mset_mset)
  then show ?case using insert_seq_ok [OF ys(3), of x] Cons.prems ys(1,2) by auto
qed simp

lemma insert_by_length: "insert_by compare x ys = Inr zs \<Longrightarrow> length zs = Suc (length ys)"
  by (induction ys arbitrary: zs) (auto simp: bindE_Inr_iff split: if_splits)

lemma sort_by_length: "sort_by compare xs = Inr ys \<Longrightarrow> length ys = length xs"
  by (induction xs arbitrary: ys) (auto simp: bindE_Inr_iff dest: insert_by_length)

text \<open>With two or more sequences every one of them is compared, so a NaN panics.\<close>

lemma sort_seqs_NaN:
  "2 \<le> length xs \<Longrightarrow> \<exists>a \<in> set xs. not_a_number st a \<Longrightarrow> sort_by (compare_seqs st) xs = Inl (Panic UnwrapNone)"
proof (induction xs)
  case (Cons x xs)
  show ?case
  proof (cases "2 \<le> length xs \<and> (\<exists>a \<in> set xs. not_a_number st a)")
    case True
    then show ?thesis using Cons.IH by simp
  next
    case few: False
    show ?thesis
    proof (cases "2 \<le> length xs")
      case True
      then obtain y ys where "sort_by (compare_seqs st) xs = Inr (y # ys)"
        using few sort_seqs_ok [of xs st] sort_by_length [of "compare_seqs st" xs] by (metis list.size(3) neq_Nil_conv not_numeral_le_zero)
      moreover have "not_a_number st x" using Cons.prems(2) True few by auto
      ultimately show ?thesis by (simp add: compare_seqs_NaN)
    next
      case False
      then obtain y where "xs = [y]" using Cons.prems(1) by (cases xs; cases "tl xs") auto
      then show ?thesis using Cons.prems(2) by (auto simp: compare_seqs_NaN)
    qed
  qed
qed simp

lemma make_choice_iff:
  "make_choice ext role st (ix, a) = Inr c \<longleftrightarrow> (\<forall>x \<in> set (get_output_tokens (st a)). lp_token x < 2 ^ 32)
     \<and> (\<exists>text reason. detokenize ext (map lp_token (get_output_tokens (st a))) = Inr text \<and> get_finish_reason (st a) = Inr reason
          \<and> c = \<lparr>ch_message = \<lparr>cd_content = Some text, cd_role = role\<rparr>, ch_finish_reason = Some reason, ch_index = ix,
                 ch_logprobs = Some (get_output_tokens (st a))\<rparr>)"
proof -
  have "mapE (\<lambda>x. try_into_u32 (lp_token x)) xs = Inr ids \<longleftrightarrow> (\<forall>x \<in> set xs. lp_token x < 2 ^ 32) \<and> ids = map lp_token xs"
    for xs :: "Logprobs list" and ids
    by (induction xs arbitrary: ids) (auto simp: try_into_u32_def bindE_Inr_iff)
  then show ?thesis by (auto simp: make_choice_def Let_def bindE_Inr_iff)
qed

end
