(* ===== verification/Generate_Properties.thy ===== *)
theory Generate_Properties
  imports Generate
begin

section \<open>What the engine guarantees\<close>

text \<open>
  The slots of the prompt tokens, the tensors of the inputs, and how far \<open>generate\<close> gets.
\<close>

subsection \<open>Slots\<close>

lemma block_numbers_gpu:
  assumes "be_inv be" "set t \<subseteq> gpu_range be"
  shows "block_numbers be t = Inr t"
proof -
  have "mapE (\<lambda>a. bindE (deref_block (blocks be) a) (\<lambda>b. Inr (block_id b))) t = Inr (map (\<lambda>a. a) t)"
    by (rule mapE_all_Inr)
      (use assms be_invD(2,7) [OF assms(1)] in \<open>auto simp: deref_block_def ids_ok_def subset_iff\<close>)
  then show ?thesis by (simp add: block_numbers_def)
qed

definition slot_number :: "nat list \<Rightarrow> nat \<Rightarrow> nat \<Rightarrow> nat" where
  "slot_number table bs i = table ! (i div bs) * bs + i mod bs"

lemma slot_number_bound:
  assumes "0 < bs" "i < length table * bs" "\<forall>b \<in> set table. b < m"
  shows "slot_number table bs i < m * bs"
proof -
  have "i div bs < length table" using assms(1,2) by (simp add: div_less_iff_less_mult)
  then have "table ! (i div bs) + 1 \<le> m" using assms(3) by (metis nth_mem Suc_eq_plus1 Suc_leI)
  then have "(table ! (i div bs) + 1) * bs \<le> m * bs" by (rule mult_le_mono1)
  moreover have "i mod bs < bs" using assms(1) by simp
  ultimately show ?thesis by (simp add: slot_number_def)
qed

lemma slot_of_ok:
  assumes "0 < bs" "i < length table * bs" "\<forall>b \<in> set table. b < m" "m * bs \<le> 2 ^ 63"
  shows "slot_of table bs i = Inr (int (slot_number table bs i))"
proof -
  have "i div bs < length table" using assms(1,2) by (simp add: div_less_iff_less_mult)
  then show ?thesis
    using slot_number_bound [OF assms(1-3)] assms(1,4)
    by (simp add: slot_of_def try_into_i64_def slot_number_def)
qed

lemma prompt_slots_ok:
  assumes "0 < bs" "len \<le> length table * bs" "\<forall>b \<in> set table. b < m" "m * bs \<le> 2 ^ 63"
  shows "prompt_slots table bs 0 len = Inr (map (\<lambda>i. int (slot_number table bs i)) [0..<len])"
proof -
  have "foldE (\<lambda>slots i. let slots' = (if i < 0 then slots @ [PAD_SLOT_ID] else slots)
          in bindE (slot_of table bs i) (\<lambda>slot. Inr (slots' @ [slot]))) acc is =
      Inr (acc @ map (\<lambda>i. int (slot_number table bs i)) is)" if "\<forall>i \<in> set is. i < length table * bs" for acc "is"
    using that by (induction "is" arbitrary: acc) (auto simp: slot_of_ok [OF assms(1) _ assms(3,4)])
  from this [of "[0..<len]" "[]"] show ?thesis using assms(2) by (simp add: prompt_slots_def)
qed

text \<open>A slot determines its block and the offset in it.\<close>

lemma slot_number_eq:
  assumes "0 < bs" "slot_number t bs i = slot_number t' bs j"
  shows "t ! (i div bs) = t' ! (j div bs) \<and> i mod bs = j mod bs"
proof -
  have "(a * bs + r) div bs = a \<and> (a * bs + r) mod bs = r" if "r < bs" for a r
    using that by simp
  then show ?thesis
    using assms by (metis slot_number_def mod_less_divisor)
qed

lemma slots_distinct:
  assumes "0 < bs" "len \<le> length t * bs" "distinct t"
  shows "distinct (map (\<lambda>i. int (slot_number t bs i)) [0..<len])"
proof -
  have "i = j" if ij: "i < len" "j < len" "slot_number t bs i = slot_number t bs j" for i j
  proof -
    have "i div bs < length t" "j div bs < length t"
      using ij assms(1,2) by (auto simp: div_less_iff_less_mult)
    then have "i div bs = j div bs" "i mod bs = j mod bs"
      using slot_number_eq [OF assms(1) ij(3)] assms(3) by (auto simp: nth_eq_iff_index_eq)
    then show ?thesis by (metis div_mult_mod_eq)
  qed
  then show ?thesis by (auto simp: distinct_map inj_on_def)
qed

lemma slots_disjoint:
  assumes "0 < bs" "len \<le> length t * bs" "len' \<le> length t' * bs" "set t \<inter> set t' = {}"
  shows "set (map (\<lambda>i. int (slot_number t bs i)) [0..<len]) \<inter> set (map (\<lambda>i. int (slot_number t' bs i)) [0..<len']) = {}"
proof -
  have False if ij: "i < len" "j < len'" "slot_number t bs i = slot_number t' bs j" for i j
  proof -
    have "i div bs < length t" "j div bs < length t'"
      using ij assms(1-3) by (auto simp: div_less_iff_less_mult)
    then show False
      using slot_number_eq [OF assms(1) ij(3)] assms(4) by (metis disjoint_iff nth_mem)
  qed
  then show ?thesis by auto
qed

lemma prompt_row_running:
  assumes inv: "sched_inv (scheduler e)" and g: "g \<in> set (running (scheduler e))"
    and bs: "0 < block_size (cache_config e)" and win: "sliding_window e = None"
    and cap: "num_gpu_blocks (block_engine (scheduler e)) * block_size (cache_config e) \<le> 2 ^ 63"
    and len: "length (get_token_ids (sequences (scheduler e) (arc g)))
       \<le> length (table_of (block_engine (scheduler e)) (sid g)) * block_size (cache_config e)"
  shows "prompt_row chk e (arc g) = Inr (get_token_ids (sequences (scheduler e) (arc g)),
     map (\<lambda>i. int (slot_number (table_of (block_engine (scheduler e)) (sid g)) (block_size (cache_config e)) i))
       [0..<length (get_token_ids (sequences (scheduler e) (arc g)))])"
proof -
  let ?s = "scheduler e" and ?be = "block_engine (scheduler e)"
  have gi: "ginv ?s (running ?s)" using inv by (simp add: sched_inv_def)
  obtain t where t: "map_of (block_tables ?be) (sid g) = Some t" "set t \<subseteq> gpu_range ?be"
    using running_table [OF gi g] by metis
  have tt: "table_of ?be (sid g) = t" using t(1) by (simp add: table_of_def)
  have sg: "seq_id (sequences ?s (arc g)) = sid g"
    using group_invD(3) [OF gi, of g] g by (simp add: single_ok_def)
  have "\<forall>b \<in> set t. b < num_gpu_blocks ?be" using t(2) by auto
  from prompt_slots_ok [OF bs _ this cap] show ?thesis
    using t sg win tt len block_numbers_gpu [OF group_invD(1) [OF gi] t(2)]
    by (simp add: prompt_row_def prompt_start_idx_def Let_def)
qed

lemma table_distinct:
  assumes inv: "group_inv be st ws rs" and tab: "map_of (block_tables be) k = Some t"
  shows "distinct t"
proof -
  obtain xs ys where "block_tables be = xs @ (k, t) # ys" using map_of_split [OF tab] by blast
  then show ?thesis using group_invD(2) [OF inv] by (simp add: all_refs_def)
qed

lemma tables_disjoint:
  assumes inv: "group_inv be st ws rs" and tab: "map_of (block_tables be) k = Some t" "map_of (block_tables be) k' = Some t'"
    and ne: "k \<noteq> k'"
  shows "set t \<inter> set t' = {}"
proof -
  obtain xs ys where m: "block_tables be = xs @ (k, t) # ys" using map_of_split [OF tab(1)] by blast
  have "(k', t') \<in> set (xs @ ys)" using map_of_SomeD [OF tab(2)] ne m by auto
  then have "set t' \<subseteq> set (concat (vals (xs @ ys)))" by force
  moreover have "set t \<inter> set (concat (vals (xs @ ys))) = {}"
    using group_invD(2) [OF inv] m by (auto simp: all_refs_def)
  ultimately show ?thesis by blast
qed

text \<open>
  C11: no two prompt tokens share a slot of the cache.  In a state that satisfies the scheduler's invariant, for
  running sequences whose tables cover their tokens, \<open>prepare_prompt\<close> computes for every token a slot inside the
  cache; the slots of one sequence are all different, and two sequences have no slot in common.
\<close>

theorem prompt_slots_never_overlap:
  assumes inv: "sched_inv (scheduler e)" and g: "g \<in> set (running (scheduler e))" "g' \<in> set (running (scheduler e))"
    and bs: "0 < block_size (cache_config e)" and win: "sliding_window e = None"
    and cap: "num_gpu_blocks (block_engine (scheduler e)) * block_size (cache_config e) \<le> 2 ^ 63"
    and len: "length (get_token_ids (sequences (scheduler e) (arc g)))
       \<le> length (table_of (block_engine (scheduler e)) (sid g)) * block_size (cache_config e)"
      "length (get_token_ids (sequences (scheduler e) (arc g')))
       \<le> length (table_of (block_engine (scheduler e)) (sid g')) * block_size (cache_config e)"
  shows "\<exists>ids slots ids' slots'. prompt_row chk e (arc g) = Inr (ids, slots) \<and> prompt_row chk e (arc g') = Inr (ids', slots')
     \<and> length slots = length ids \<and> distinct slots
     \<and> set slots \<subseteq> {0..<int (num_gpu_blocks (block_engine (scheduler e)) * block_size (cache_config e))}
     \<and> (g \<noteq> g' \<longrightarrow> set slots \<inter> set slots' = {})"
proof -
  let ?s = "scheduler e" and ?be = "block_engine (scheduler e)" and ?bs = "block_size (cache_config e)"
  have gi: "ginv ?s (running ?s)" using inv by (simp add: sched_inv_def)
  obtain t where t: "map_of (block_tables ?be) (sid g) = Some t" "set t \<subseteq> gpu_range ?be"
    using running_table [OF gi g(1)] by metis
  obtain t' where t': "map_of (block_tables ?be) (sid g') = Some t'" using running_table [OF gi g(2)] by metis
  have tt: "table_of ?be (sid g) = t" "table_of ?be (sid g') = t'" using t(1) t' by (simp_all add: table_of_def)
  note r = prompt_row_running [OF inv g(1) bs win cap len(1), of chk] prompt_row_running [OF inv g(2) bs win cap len(2), of chk]
  let ?sl = "map (\<lambda>i. int (slot_number t ?bs i)) [0..<length (get_token_ids (sequences ?s (arc g)))]"
  let ?sl' = "map (\<lambda>i. int (slot_number t' ?bs i)) [0..<length (get_token_ids (sequences ?s (arc g')))]"
  have "distinct ?sl" using slots_distinct [OF bs _ table_distinct [OF gi t(1)]] len(1) tt(1) by simp
  moreover have "set ?sl \<subseteq> {0..<int (num_gpu_blocks ?be * ?bs)}"
  proof
    fix x assume "x \<in> set ?sl"
    then obtain i where i: "x = int (slot_number t ?bs i)" "i < length t * ?bs" using len(1) tt(1) by auto
    have "slot_number t ?bs i < num_gpu_blocks ?be * ?bs"
      using slot_number_bound [OF bs i(2)] t(2) by auto
    then show "x \<in> {0..<int (num_gpu_blocks ?be * ?bs)}" using i(1) by (simp del: of_nat_mult)
  qed
  moreover have "set ?sl \<inter> set ?sl' = {}" if "g \<noteq> g'"
  proof -
    have "sid g \<noteq> sid g'" using group_invD(4) [OF gi] g that by (auto simp: distinct_map inj_on_def)
    then show ?thesis
      using slots_disjoint [OF bs _ _ tables_disjoint [OF gi t(1) t']] len tt by simp
  qed
  ultimately show ?thesis using r unfolding tt by (intro exI conjI) (assumption | simp)+
qed

lemma prompt_row_ids: "prompt_row chk e a = Inr (ids, slots) \<Longrightarrow> ids = get_token_ids (sequences (scheduler e) a)"
  by (auto simp: prompt_row_def Let_def bindE_Inr_iff split: option.splits)

definition sample_externals :: "(Device \<times> DType \<times> nat list) externals" where
  "sample_externals = \<lparr>forward = (\<lambda>toks _ _ _. Inr (Cuda 0, F32, [1, 1, 32000])), encode = (\<lambda>_. Inr [1]),
     decode = (\<lambda>_. Inr ''text''), token_to_id = (\<lambda>_. Some 2), id_to_token = (\<lambda>_. None),
     sample_logits = (\<lambda>p _. Inr (\<lparr>lp_token = 5, lp_logprob = Fin 0\<rparr>, p)), apply_repeat_penalty = (\<lambda>t _ _. Inr t)\<rparr>"

definition sample_engine :: "Scheduler \<Rightarrow> (Device \<times> DType \<times> nat list) LLMEngine" where
  "sample_engine sch = \<lparr>scheduler = sch, eng_seq_id = 7, cache_config = sample_cache, eng_group_id = 7,
     cache_engine = \<lparr>gpu_cache = [], cpu_cache = [], num_layers = 0\<rparr>, sliding_window = None, pipeline_name = ''config_7b_v2'',
     conversation = DefaultConversation_new ''llama-2'' ''[INST] {}'' [] 0 Llama2 [] [] (''[INST]'', ''[/INST]'') ('' '', None),
     repeat_last_n = 64\<rparr>"

theorem prompt_slots_never_overlap_witness:
  "\<exists>slots slots'. prompt_row True (sample_engine busy_scheduler) 5 = Inr ([7], slots)
     \<and> prompt_row True (sample_engine busy_scheduler) 6 = Inr ([7], slots') \<and> set slots \<inter> set slots' = {}"
proof -
  let ?e = "sample_engine busy_scheduler"
  have c: "num_gpu_blocks two_owners = 3" "table_of two_owners 5 = [0]" "table_of two_owners 6 = [1]"
    by (simp_all add: two_owners_def table_of_def)
  have ids: "get_token_ids (full_seq k 1) = [7]" for k
    by (simp add: full_seq_def get_token_ids_def SequenceData_new_def)
  have sched: "scheduler ?e = busy_scheduler" "cache_config ?e = sample_cache" "sliding_window ?e = None"
    by (simp_all add: sample_engine_def)
  have g: "sample_group [5] 10 \<noteq> sample_group [6] 20" "arc (sample_group [5] 10) = 5" "arc (sample_group [6] 20) = 6"
      "sid (sample_group [5] 10) = 5" "sid (sample_group [6] 20) = 6"
    by (simp_all add: arc_def sid_def sample_group_def)
  obtain ids1 slots ids2 slots' where w: "prompt_row True ?e 5 = Inr (ids1, slots)" "prompt_row True ?e 6 = Inr (ids2, slots')"
      "set slots \<inter> set slots' = {}"
    using prompt_slots_never_overlap [of ?e "sample_group [5] 10" "sample_group [6] 20" True] sched_inv_busy c ids g(1)
    unfolding sched g by (auto simp: busy_scheduler_def sample_cache_def)
  have "ids1 = [7]" "ids2 = [7]"
    using prompt_row_ids [OF w(1)] prompt_row_ids [OF w(2)] ids unfolding sched by (simp_all add: busy_scheduler_def)
  then show ?thesis using w by blast
qed

subsection \<open>The input tensors\<close>

text \<open>
  What the library documents about vectors: \<open>Tensor::from_vec\<close> gives a tensor of the shape asked for, and
  \<open>Tensor::cat\<close> along dimension 0 of vectors gives a vector.
\<close>

definition vector_shapes :: "'t candle \<Rightarrow> bool" where
  "vector_shapes cd \<longleftrightarrow>
     (\<forall>xs ds dev t. from_vec cd xs ds dev = Inr t \<longrightarrow> dims cd t = ds)
     \<and> (\<forall>ts t. cat cd ts 0 = Inr t \<longrightarrow> (\<forall>u \<in> set ts. length (dims cd u) = 1) \<longrightarrow>
          dims cd t = [sum_list (map (\<lambda>u. hd (dims cd u)) ts)])"

text \<open>
  \<open>_make_tensor_with_pad\<close> returns, whenever it returns, a vector of \<open>rows * max_len\<close> elements, not a matrix with
  a row per sequence.
\<close>

lemma make_tensor_is_flat:
  assumes lib: "vector_shapes cd" and "make_tensor_with_pad cd x max_len pad = Inr t"
  shows "dims cd t = [length x * max_len]"
proof -
  obtain ts where ts: "list_all2 (\<lambda>x_i u.
        bindE (assertE (length x_i \<le> max_len)) (\<lambda>_.
        let padded = x_i @ replicate (max_len - length x_i) pad in
        bindE (new_cuda cd 0) (\<lambda>dev. from_vec cd padded [length padded] dev)) = Inr u) x ts" "cat cd ts 0 = Inr t"
    using assms(2) by (auto simp: make_tensor_with_pad_def bindE_Inr_iff mapE_Inr_iff)
  have row: "dims cd u = [max_len]" if "u \<in> set ts" for u
  proof -
    obtain x_i where "bindE (assertE (length x_i \<le> max_len)) (\<lambda>_.
        let padded = x_i @ replicate (max_len - length x_i) pad in
        bindE (new_cuda cd 0) (\<lambda>dev. from_vec cd padded [length padded] dev)) = Inr u"
      using list_all2_nthD2 [OF ts(1)] \<open>u \<in> set ts\<close> by (metis in_set_conv_nth)
    then show ?thesis using lib by (auto simp: bindE_Inr_iff Let_def vector_shapes_def)
  qed
  then have "map (\<lambda>u. hd (dims cd u)) ts = replicate (length ts) max_len" by (simp add: map_replicate_const [symmetric])
  moreover have "dims cd t = [sum_list (map (\<lambda>u. hd (dims cd u)) ts)]"
    using lib ts(2) row unfolding vector_shapes_def by simp
  ultimately show ?thesis using list_all2_lengthD [OF ts(1)] by (simp add: sum_list_replicate)
qed

lemma vector_shapes_shape_candle: "vector_shapes shape_candle"
proof -
  have "(snd (snd u))[0 := s] = [s]" if "length (snd (snd u)) = 1" for u :: "Device \<times> DType \<times> nat list" and s
    using that by (cases "snd (snd u)") auto
  then show ?thesis by (auto simp: vector_shapes_def shape_candle_def split: list.splits)
qed

subsection \<open>How far \<open>generate\<close> gets\<close>

text \<open>
  \<open>prepare_decode\<close> never returns.  For every batch whose first sequence has a token it computes the length of that
  sequence, and \<open>get_len\<close> waits for a lock it holds itself.
\<close>

lemma prepare_decode_deadlocks:
  assumes "group_arcs groups = a # rest" "get_token_ids (sequences (scheduler e) a) \<noteq> []"
  shows "prepare_decode cd chk groups e = Inl Deadlock"
proof -
  have "\<exists>t. get_last_token_id (sequences (scheduler e) a) = Inr t"
    using assms(2) by (auto simp: get_last_token_id_def get_token_ids_def)
  then show ?thesis
    using assms(1) by (auto simp: prepare_decode_def decode_row_def get_len_deadlocks Let_def)
qed

lemma add_request_panics: "prompt \<noteq> [] \<Longrightarrow> add_request now prompt rid crt e = Inl (Panic UnwrapNone)"
  by (cases prompt) (simp_all add: add_request_def Sequence_new_def append_tokens_to_blocks_def append_token_to_blocks_Nil)

lemma sample_never_returns:
  assumes "dims cd lg = Suc d # ds" "arcs \<noteq> []"
  shows "sample cd ext chk params k lg st arcs \<noteq> Inr r"
proof -
  obtain a rest where a: "arcs = a # rest" using assms(2) by (cases arcs) auto
  have "sample_one cd ext chk params k lg st proc (0, a) \<noteq> Inr u" for proc u
    by (auto simp: sample_one_def get_len_deadlocks bindE_Inr_iff Let_def)
  moreover have "zip [0..<Suc d] arcs = (0, a) # zip [1..<Suc d] rest"
    by (simp add: a upt_conv_Cons del: upt_Suc)
  ultimately show ?thesis
    using assms(1) by (auto simp: sample_def dims_at_def bindE_Inr_iff simp del: upt_Suc)
qed

text \<open>What the engine relies on: the forward pass returns a row of logits per sequence, so at least one.\<close>

definition logits_have_rows :: "'t candle \<Rightarrow> 't externals \<Rightarrow> bool" where
  "logits_have_rows cd ext \<longleftrightarrow> (\<forall>t p kv md lg. forward ext t p kv md = Inr lg \<longrightarrow> (\<exists>d ds. dims cd lg = Suc d # ds))"

lemma gen_round_never_returns:
  fixes cd :: "'t candle"
  assumes "logits_have_rows cd ext"
  shows "gen_round cd ext chk params e resps \<noteq> Inr r"
proof
  assume "gen_round cd ext chk params e resps = Inr r"
  then obtain out :: SchedulerOutput and e1 :: "'t LLMEngine" and front :: SequenceGroup and a
      and inputs :: "'t PreparedInputs" and lg res where
      f: "first_of (scheduled out) = Some front" "first_of (vals (seqs front)) = Some a"
      "forward ext (tokens inputs) (positions inputs) (gpu_cache (cache_engine e1)) (metadata inputs) = Inr lg"
      "sample cd ext chk params (repeat_last_n e1) lg (sequences (scheduler e1)) (group_arcs (scheduled out)) = Inr res"
    by (auto simp: gen_round_def bindE_Inr_iff split: if_split_asm)
  obtain d ds where "dims cd lg = Suc d # ds" using assms f(3) unfolding logits_have_rows_def by blast
  moreover have "group_arcs (scheduled out) \<noteq> []"
    using f(1,2) by (auto simp: first_of_def group_arcs_def split: list.splits)
  ultimately show False using sample_never_returns [of cd lg d ds "group_arcs (scheduled out)"] f(4) by simp
qed

lemma add_request_running:
  "add_request now prompt rid crt e = Inr e1 \<Longrightarrow> running (scheduler e1) = running (scheduler e)"
  unfolding add_request_def Let_def add_sequence_def
  by (cases "Sequence_new prompt (eng_seq_id e) (block_size (cache_config e))") (simp, fastforce)

lemma generate_cases:
  assumes "logits_have_rows cd ext"
  shows "\<exists>r. generate cd ext chk now prompt rid crt params e = Some r
     \<and> (prompt \<noteq> [] \<longrightarrow> r = Inl (Panic UnwrapNone))
     \<and> (\<forall>e' answers. r = Inr (e', answers) \<longrightarrow> prompt = [] \<and> answers = [] \<and> running (scheduler e) = [])"
proof (cases "add_request now prompt rid crt e")
  case (Inl s)
  then show ?thesis using add_request_panics [of prompt now rid crt e] by (auto simp: generate_def)
next
  case (Inr e1)
  then have p: "prompt = []" using add_request_panics [of prompt now rid crt e] by (cases "prompt = []") simp_all
  have run: "running (scheduler e1) = running (scheduler e)"
    using add_request_running [OF Inr] .
  show ?thesis
  proof (cases "gen_round cd ext chk params e1 []")
    case rl: (Inl s)
    then show ?thesis
      using Inr p run by (auto simp: generate_def gen_loop.simps [of cd ext chk params e1] has_unfinished_sequences_def)
  next
    case (Inr r)
    then show ?thesis using gen_round_never_returns [OF assms, of chk params e1] by simp
  qed
qed

text \<open>
  C30: \<open>generate\<close> never produces an answer.  If the forward pass returns logits with at least one row, \<open>generate\<close>
  stops after at most one round of its loop, by a panic, an error, a deadlock or an empty answer; it panics for every prompt that has a token, and when it does return \<open>Ok\<close>
  the list of answers is empty.
\<close>

theorem generate_never_answers:
  assumes "logits_have_rows cd ext"
  shows "\<exists>r. generate cd ext chk now prompt rid crt params e = Some r
     \<and> (prompt \<noteq> [] \<longrightarrow> r = Inl (Panic UnwrapNone))
     \<and> (\<forall>e' answers. r = Inr (e', answers) \<longrightarrow> prompt = [] \<and> answers = [] \<and> running (scheduler e) = [])"
  by (rule generate_cases [OF assms])

theorem generate_never_answers_witness:
  "generate shape_candle sample_externals True 0 [1, 15043] ''cmpl-1'' 0 (default_params (Fin 1) (- 1)) (sample_engine busy_scheduler)
   = Some (Inl (Panic UnwrapNone))"
proof -
  have "logits_have_rows shape_candle sample_externals"
    by (auto simp: logits_have_rows_def sample_externals_def shape_candle_def)
  from generate_never_answers [OF this] show ?thesis by (metis list.distinct(1))
qed

subsection \<open>The answer of a group\<close>

text \<open>
  C29: the choices of a response are the best sequences.  The sequences are sorted by descending cumulative log probability and the first \<open>n\<close> are taken: \<open>n\<close> sequences of the group,
  in descending order, none of the others better than any of them; the sort panics when two or more sequences are compared and one
  of them has NaN, and the slice when there are fewer than \<open>n\<close>.  The choices are returned exactly when the tokens of the chosen sequences fit 32 bits and can be decoded and all have a finish
  reason; then the choice at position \<open>i\<close> has the index \<open>i\<close> and the text, tokens and finish reason of the sequence at that position.  (\<open>generate\<close> goes on to
  compute the usage, which never returns.)
\<close>

theorem choices_are_best:
  fixes best :: "seq_addr list"
  shows "(if 2 \<le> length (vals (get_seqs g)) \<and> (\<exists>a \<in> set (vals (get_seqs g)). not_a_number st a) \<or> length (vals (get_seqs g)) < n params
    then top_seqs params st g = Inl (Panic UnwrapNone)
    else \<exists>best rest. top_seqs params st g = Inr best \<and> mset (best @ rest) = mset (vals (get_seqs g)) \<and> length best = n params
       \<and> best_first st (best @ rest))
   \<and> (group_choices ext role st best = Inr choices \<longleftrightarrow> length choices = length best \<and> (\<forall>i < length best.
        (\<forall>x \<in> set (get_output_tokens (st (best ! i))). lp_token x < 2 ^ 32)
        \<and> (\<exists>text reason. detokenize ext (map lp_token (get_output_tokens (st (best ! i)))) = Inr text
             \<and> get_finish_reason (st (best ! i)) = Inr reason
             \<and> choices ! i = \<lparr>ch_message = \<lparr>cd_content = Some text, cd_role = role\<rparr>, ch_finish_reason = Some reason, ch_index = i,
                             ch_logprobs = Some (get_output_tokens (st (best ! i)))\<rparr>)))"
proof
  let ?as = "vals (get_seqs g)"
  have sorted: "\<exists>ys. sort_by (compare_seqs st) ?as = Inr ys \<and> mset ys = mset ?as \<and> best_first st ys"
    if "\<not> (2 \<le> length ?as \<and> (\<exists>a \<in> set ?as. not_a_number st a))"
  proof (cases "2 \<le> length ?as")
    case True
    then show ?thesis using that sort_seqs_ok by blast
  next
    case False
    then show ?thesis by (cases ?as; cases "tl ?as") auto
  qed
  show "if 2 \<le> length ?as \<and> (\<exists>a \<in> set ?as. not_a_number st a) \<or> length ?as < n params
    then top_seqs params st g = Inl (Panic UnwrapNone)
    else \<exists>best rest. top_seqs params st g = Inr best \<and> mset (best @ rest) = mset ?as \<and> length best = n params \<and> best_first st (best @ rest)"
  proof (cases "2 \<le> length ?as \<and> (\<exists>a \<in> set ?as. not_a_number st a)")
    case True
    then show ?thesis using sort_seqs_NaN [of ?as st] by (simp add: top_seqs_def)
  next
    case False
    then obtain ys where ys: "sort_by (compare_seqs st) ?as = Inr ys" "mset ys = mset ?as" "best_first st ys" using sorted by blast
    have len: "length ys = length ?as" using ys(2) by (rule mset_eq_length)
    show ?thesis
    proof (cases "n params \<le> length ?as")
      case True
      then show ?thesis
        using False ys len by (auto simp: top_seqs_def intro!: exI [of _ "drop (n params) ys"] simp flip: mset_append)
    next
      case few: False
      then show ?thesis using ys(1) len by (simp add: top_seqs_def)
    qed
  qed
  show "group_choices ext role st best = Inr choices \<longleftrightarrow> length choices = length best \<and> (\<forall>i < length best.
        (\<forall>x \<in> set (get_output_tokens (st (best ! i))). lp_token x < 2 ^ 32)
        \<and> (\<exists>text reason. detokenize ext (map lp_token (get_output_tokens (st (best ! i)))) = Inr text
             \<and> get_finish_reason (st (best ! i)) = Inr reason
             \<and> choices ! i = \<lparr>ch_message = \<lparr>cd_content = Some text, cd_role = role\<rparr>, ch_finish_reason = Some reason, ch_index = i,
                             ch_logprobs = Some (get_output_tokens (st (best ! i)))\<rparr>))"
    unfolding group_choices_def mapE_Inr_iff list_all2_conv_all_nth by (auto simp: nth_enumerate_eq make_choice_iff)
qed

definition scored_store :: seq_store where
  "scored_store = (\<lambda>a. set_finish_reason ((full_seq a 1)\<lparr>seq_data := (seq_data (full_seq a 1))\<lparr>output_token_ids := [\<lparr>lp_token = a, lp_logprob = Fin 0\<rparr>],
     cumulative_logprob := Fin (if a = 6 then - 1 else - 2)\<rparr>\<rparr>) ''stop'')"

theorem choices_are_best_witness:
  "(\<exists>best rest. top_seqs (default_params (Fin 1) (- 1)) scored_store (sample_group [5, 6, 7] 0) = Inr best \<and> length best = 1
      \<and> best_first scored_store (best @ rest))
   \<and> top_seqs (default_params (Fin 1) (- 1)) scored_store (sample_group [5, 6, 7] 0) = Inr [6]
   \<and> group_choices sample_externals ''user'' scored_store [6] = Inr [\<lparr>ch_message = \<lparr>cd_content = Some ''text'', cd_role = ''user''\<rparr>,
        ch_finish_reason = Some ''stop'', ch_index = 0, ch_logprobs = Some [\<lparr>lp_token = 6, lp_logprob = Fin 0\<rparr>]\<rparr>]"
proof -
  have "vals (get_seqs (sample_group [5, 6, 7] 0)) = [5, 6, 7]" by (simp add: get_seqs_def)
  moreover have "\<not> not_a_number scored_store a" for a
    by (simp add: scored_store_def get_cumulative_logprob_def SequenceData_get_cumulative_logprob_def set_finish_reason_def SequenceData_set_status_def)
  moreover have "n (default_params (Fin 1) (- 1)) = 1" by (simp add: default_params_def)
  ultimately have "\<exists>best rest. top_seqs (default_params (Fin 1) (- 1)) scored_store (sample_group [5, 6, 7] 0) = Inr best \<and> length best = 1
      \<and> best_first scored_store (best @ rest)"
    using choices_are_best [of "sample_group [5, 6, 7] 0" scored_store "default_params (Fin 1) (- 1)" sample_externals "''user''" "[]" "[]"]
    by (auto split: if_splits)
  moreover have "top_seqs (default_params (Fin 1) (- 1)) scored_store (sample_group [5, 6, 7] 0) = Inr [6]"
    by (simp add: top_seqs_def get_seqs_def compare_seqs_def partial_cmp_def scored_store_def get_cumulative_logprob_def
        SequenceData_get_cumulative_logprob_def set_finish_reason_def SequenceData_set_status_def default_params_def)
  moreover have "group_choices sample_externals ''user'' scored_store [6] = Inr [\<lparr>ch_message = \<lparr>cd_content = Some ''text'', cd_role = ''user''\<rparr>,
        ch_finish_reason = Some ''stop'', ch_index = 0, ch_logprobs = Some [\<lparr>lp_token = 6, lp_logprob = Fin 0\<rparr>]\<rparr>]"
    using choices_are_best [of undefined scored_store undefined sample_externals "''user''" "[6]"]
    by (simp add: scored_store_def get_output_tokens_def get_finish_reason_def set_finish_reason_def SequenceData_set_status_def sample_externals_def)
  ultimately show ?thesis by blast
qed

end
