(* ===== verification/Llama_Properties.thy ===== *)
theory Llama_Properties
  imports Llama_Model Attention_Properties Generate_Properties
begin

section \<open>What the network guarantees\<close>

text \<open>
  The shapes of a loaded network, and what its forward pass does with the batches the engine prepares.  \<open>network_shapes\<close> lists what the
  tensor library documents about the calls of the network.
\<close>

definition network_shapes :: "'t candle \<Rightarrow> 't tensor_ops \<Rightarrow> ('t, 'v, 'l, 'n) nn_ops \<Rightarrow> bool" where
  "network_shapes cd ops nn \<longleftrightarrow>
     (\<forall>t ds t'. reshape ops t ds = Inr t' \<longrightarrow> dims cd t' = ds)
     \<and> (\<forall>t i j t'. transpose nn t i j = Inr t' \<longrightarrow> length (dims cd t') = length (dims cd t))
     \<and> (\<forall>t a b c. dims3 ops t = Inr (a, b, c) \<longrightarrow> dims cd t = [a, b, c])
     \<and> (\<forall>kn g b ps xs q k q' k'. launch_rotary ops kn g b ps xs q k = Inr (q', k') \<longrightarrow> dims cd q' = dims cd q)
     \<and> (\<forall>a b t m k n. matmul ops a b = Inr t \<longrightarrow> dims cd a = [m, k] \<longrightarrow> dims cd b = [k, n] \<longrightarrow> dims cd t = [m, n])
     \<and> (\<forall>xs dev t. new_f32 nn xs dev = Inr t \<longrightarrow> dims cd t = [length xs])
     \<and> (\<forall>a b t m k n. cat_last nn [a, b] = Inr t \<longrightarrow> dims cd a = [m, k] \<longrightarrow> dims cd b = [m, n] \<longrightarrow> dims cd t = [m, k + n])
     \<and> (\<forall>a b t m k n. cat cd [a, b] 1 = Inr t \<longrightarrow> dims cd a = [m, k] \<longrightarrow> dims cd b = [m, n] \<longrightarrow> dims cd t = [m, k + n])
     \<and> (\<forall>t t'. cos_of nn t = Inr t' \<longrightarrow> dims cd t' = dims cd t)
     \<and> (\<forall>t t'. sin_of nn t = Inr t' \<longrightarrow> dims cd t' = dims cd t)"

lemma network_shapesD:
  assumes "network_shapes cd ops nn"
  shows "\<And>t ds t'. reshape ops t ds = Inr t' \<Longrightarrow> dims cd t' = ds"
    "\<And>t i j t'. transpose nn t i j = Inr t' \<Longrightarrow> length (dims cd t') = length (dims cd t)"
    "\<And>t a b c. dims3 ops t = Inr (a, b, c) \<Longrightarrow> dims cd t = [a, b, c]"
    "\<And>kn g b ps xs q k q' k'. launch_rotary ops kn g b ps xs q k = Inr (q', k') \<Longrightarrow> dims cd q' = dims cd q"
    "\<And>a b t m k n. matmul ops a b = Inr t \<Longrightarrow> dims cd a = [m, k] \<Longrightarrow> dims cd b = [k, n] \<Longrightarrow> dims cd t = [m, n]"
    "\<And>xs dev t. new_f32 nn xs dev = Inr t \<Longrightarrow> dims cd t = [length xs]"
    "\<And>a b t m k n. cat_last nn [a, b] = Inr t \<Longrightarrow> dims cd a = [m, k] \<Longrightarrow> dims cd b = [m, n] \<Longrightarrow> dims cd t = [m, k + n]"
    "\<And>a b t m k n. cat cd [a, b] 1 = Inr t \<Longrightarrow> dims cd a = [m, k] \<Longrightarrow> dims cd b = [m, n] \<Longrightarrow> dims cd t = [m, k + n]"
    "\<And>t t'. cos_of nn t = Inr t' \<Longrightarrow> dims cd t' = dims cd t" "\<And>t t'. sin_of nn t = Inr t' \<Longrightarrow> dims cd t' = dims cd t"
  by (atomize (full)) (insert assms [unfolded network_shapes_def], elim conjE, intro conjI; assumption)

subsection \<open>The rotary cache\<close>

lemma length_evens: "length (filter even [0..<k]) = (k + 1) div 2"
  by (induction k) auto

lemma cos_sin_cache_dims:
  assumes lib: "checks_shapes cd ops" "network_shapes cd ops nn" and r: "compute_cos_sin_cache cd ops nn chk cfg dev dt = Inr t"
  shows "dims cd t = [MAX_SEQ_LEN, 4 * ((hidden_size cfg div num_attention_heads cfg + 1) div 2)]"
proof -
  let ?k = "(hidden_size cfg div num_attention_heads cfg + 1) div 2"
  obtain theta ar col row it it2 c0 c s0 s lst where st:
      "new_f32 nn (inv_freqs nn (rope_theta cfg) (hidden_size cfg div num_attention_heads cfg)) dev = Inr theta"
      "reshape ops ar [MAX_SEQ_LEN, 1] = Inr col" "reshape ops theta [1, prod_list (dims cd theta)] = Inr row"
      "matmul ops col row = Inr it" "cat_last nn [it, it] = Inr it2" "cos_of nn it2 = Inr c0" "to_dtype ops c0 dt = Inr c"
      "sin_of nn it2 = Inr s0" "to_dtype ops s0 dt = Inr s" "usize_sub chk (length (dims cd c)) 1 = Inr lst" "cat cd [c, s] lst = Inr t"
    using r by (auto simp: compute_cos_sin_cache_def usize_div_def bindE_Inr_iff split: if_splits)
  have "dims cd theta = [?k]" using network_shapesD(6) [OF lib(2) st(1)] by (simp add: inv_freqs_def length_evens)
  then have "dims cd row = [1, ?k]" using network_shapesD(1) [OF lib(2) st(3)] by simp
  then have "dims cd it = [MAX_SEQ_LEN, ?k]"
    using network_shapesD(5) [OF lib(2) st(4)] network_shapesD(1) [OF lib(2) st(2)] by simp
  then have it2: "dims cd it2 = [MAX_SEQ_LEN, ?k + ?k]" using network_shapesD(7) [OF lib(2) st(5)] by simp
  have cs: "dims cd c = [MAX_SEQ_LEN, ?k + ?k]" "dims cd s = [MAX_SEQ_LEN, ?k + ?k]"
    using it2 network_shapesD(9) [OF lib(2) st(6)] network_shapesD(10) [OF lib(2) st(8)]
      checks_shapesD(3) [OF lib(1) st(7)] checks_shapesD(3) [OF lib(1) st(9)] by simp_all
  then have "lst = 1" using st(10) by simp
  then show ?thesis using network_shapesD(8) [OF lib(2)] st(11) cs by fastforce
qed

subsection \<open>The layers of a loaded network\<close>

text \<open>The layers fit together and to the configuration; a projection is known by the call that made it.\<close>

definition attention_typed :: "'t candle \<Rightarrow> ('t, 'v, 'l, 'n) nn_ops \<Rightarrow> Config \<Rightarrow> ('t, 'l) CausalSelfAttention \<Rightarrow> bool" where
  "attention_typed cd nn cfg sa \<longleftrightarrow>
     (let heads = num_attention_heads cfg; kv = num_key_value_heads cfg; hd = hidden_size cfg div heads; pa = sa_attn sa in
      sa_num_attention_heads sa = heads \<and> sa_num_key_value_heads sa = kv \<and> sa_head_dim sa = hd
      \<and> pa_num_attention_heads pa = heads \<and> pa_num_key_value_heads pa = kv \<and> pa_head_dim pa = hd
      \<and> 0 < kv \<and> pa_num_queries_per_kv pa = heads div kv \<and> pa_sliding_window pa = None \<and> pa_alibi_slopes pa = None
      \<and> (\<exists>v. linear_no_bias nn (hidden_size cfg) (hd * heads) v = Inr (q_proj sa))
      \<and> (\<exists>v. linear_no_bias nn (hidden_size cfg) (hd * kv) v = Inr (k_proj sa))
      \<and> (\<exists>v. linear_no_bias nn (hidden_size cfg) (hd * kv) v = Inr (v_proj sa))
      \<and> (\<exists>v. linear_no_bias nn (hd * heads) (hidden_size cfg) v = Inr (o_proj sa))
      \<and> dims cd (cos_sin_cache sa) = [MAX_SEQ_LEN, 4 * ((hd + 1) div 2)])"

definition mlp_typed :: "('t, 'v, 'l, 'n) nn_ops \<Rightarrow> Config \<Rightarrow> 'l Mlp \<Rightarrow> bool" where
  "mlp_typed nn cfg m \<longleftrightarrow>
     (\<exists>v. linear_no_bias nn (hidden_size cfg) (intermediate_size cfg) v = Inr (c_fc1 m))
     \<and> (\<exists>v. linear_no_bias nn (hidden_size cfg) (intermediate_size cfg) v = Inr (c_fc2 m))
     \<and> (\<exists>v. linear_no_bias nn (intermediate_size cfg) (hidden_size cfg) v = Inr (c_proj m))"

lemma attention_load_typed:
  assumes "checks_shapes cd ops" "network_shapes cd ops nn" "CausalSelfAttention_load cd ops nn chk vb cfg dt dev = Inr sa"
  shows "attention_typed cd nn cfg sa"
  using assms(3) cos_sin_cache_dims [OF assms(1,2)]
  by (auto simp: CausalSelfAttention_load_def PagedAttention_new_def attention_typed_def bindE_Inr_iff try_api_Inr usize_div_def
      unwrap_or_def Let_def split: if_splits)

lemma mlp_load_typed: "Mlp_load nn vb cfg = Inr m \<Longrightarrow> mlp_typed nn cfg m"
  by (auto simp: Mlp_load_def mlp_typed_def bindE_Inr_iff Let_def)

lemma Llama_load_shapes:
  assumes lib: "checks_shapes cd ops" "network_shapes cd ops nn" and r: "Llama_load cd ops nn chk vb cfg dt dev = Inr m"
  shows "llama_cfg m = cfg \<and> length (llama_blocks m) = num_hidden_layers cfg
     \<and> (\<exists>v. linear_no_bias nn (hidden_size cfg) (vocab_size cfg) v = Inr (lm_head m))
     \<and> (\<forall>bl \<in> set (llama_blocks m). attention_typed cd nn cfg (bl_attn bl) \<and> mlp_typed nn cfg (mlp bl))"
proof -
  obtain emb head ln bls where m: "linear_no_bias nn (hidden_size cfg) (vocab_size cfg) (pp nn vb ''lm_head'') = Inr head"
      "mapE (\<lambda>i. unwrap_err (Block_load cd ops nn chk (pp nn vb (''model.layers.'' @ show_nat i)) cfg dt dev))
         [0..<num_hidden_layers cfg] = Inr bls"
      "m = \<lparr>wte = emb, llama_blocks = bls, ln_f = ln, lm_head = head, llama_cfg = cfg\<rparr>"
    using r by (auto simp: Llama_load_def bindE_Inr_iff)
  have all: "list_all2 (\<lambda>i bl. Block_load cd ops nn chk (pp nn vb (''model.layers.'' @ show_nat i)) cfg dt dev = Inr bl)
      [0..<num_hidden_layers cfg] bls"
    using m(2) by (simp add: mapE_Inr_iff unwrap_err_Inr)
  have "attention_typed cd nn cfg (bl_attn bl) \<and> mlp_typed nn cfg (mlp bl)" if bl: "bl \<in> set bls" for bl
  proof -
    obtain i where i: "i < length bls" "bl = bls ! i" using bl by (auto simp: in_set_conv_nth)
    define vb' where "vb' = pp nn vb (''model.layers.'' @ show_nat ([0..<num_hidden_layers cfg] ! i))"
    have "Block_load cd ops nn chk vb' cfg dt dev = Inr bl"
      unfolding vb'_def i(2) by (rule list_all2_nthD2 [OF all i(1)])
    then show ?thesis
      using attention_load_typed [OF lib] mlp_load_typed by (auto simp: Block_load_def bindE_Inr_iff try_api_Inr)
  qed
  then show ?thesis using m(1,3) list_all2_lengthD [OF all] by auto
qed

text \<open>
  C24: a loaded network is well typed.  When \<open>Llama::load\<close> returns, there is a block per hidden layer; the head count, the key and
  value heads and the head size of every attention agree with the configuration and with its \<open>PagedAttention\<close>; the projections map
  the hidden size to the heads and back and the feed-forward layer maps it to the intermediate size and back.  The rotary cache of every attention has two
  full head sizes per position (for an even head size), although the kernel takes its width as the number of rotated elements of a head.
\<close>

theorem Llama_load_typed:
  assumes lib: "checks_shapes cd ops" "network_shapes cd ops nn" and r: "Llama_load cd ops nn chk vb cfg dt dev = Inr m"
  shows "llama_cfg m = cfg \<and> length (llama_blocks m) = num_hidden_layers cfg
     \<and> (\<exists>v. linear_no_bias nn (hidden_size cfg) (vocab_size cfg) v = Inr (lm_head m))
     \<and> (\<forall>bl \<in> set (llama_blocks m). attention_typed cd nn cfg (bl_attn bl) \<and> mlp_typed nn cfg (mlp bl))"
  by (rule Llama_load_shapes [OF assms])

subsection \<open>A concrete library for the network\<close>

text \<open>Projections are known by their two sizes, variables by their path.\<close>

definition shape_nn :: "(shape_tensor, string, nat \<times> nat, nat) nn_ops" where
  "shape_nn = \<lparr>pp = (\<lambda>v s. v @ ''.'' @ s), vb_device = (\<lambda>_. Cuda 0), vb_get = (\<lambda>v ds _. Inr (Cuda 0, F16, ds)),
     linear_no_bias = (\<lambda>i o' _. Inr (i, o')),
     linear_forward = (\<lambda>l t. if last (snd (snd t)) = fst l then Inr (with_dims t (butlast (snd (snd t)) @ [snd l])) else mismatch),
     rms_norm = (\<lambda>k _ _. Inr k), rms_forward = (\<lambda>_ t. Inr t),
     embedding_forward = (\<lambda>w h t. Inr (fst w, fst (snd w), snd (snd t) @ [h])), silu = Inr,
     new_f32 = (\<lambda>xs dev. Inr (dev, F32, [length xs])), arange_u32 = (\<lambda>k dev. Inr (dev, U32, [k])),
     cat_last = (\<lambda>ts. cat shape_candle ts 1), cos_of = Inr, sin_of = Inr,
     transpose = (\<lambda>t i j. Inr (with_dims t ((snd (snd t))[i := snd (snd t) ! j, j := snd (snd t) ! i]))),
     index_middle = (\<lambda>t i. Inr (with_dims t (hd (snd (snd t)) # tl (tl (snd (snd t)))))),
     powf = (\<lambda>a b. a), sqrtf = (\<lambda>a. a)\<rparr>"

lemma network_shapes_shape_nn: "network_shapes shape_candle shape_ops shape_nn"
  by (auto simp: network_shapes_def shape_candle_def shape_ops_def shape_nn_def with_dims_def mismatch_def
      split: list.splits if_splits)

definition tiny_config :: Config where
  "tiny_config = \<lparr>hidden_size = 8, intermediate_size = 16, vocab_size = 10, num_hidden_layers = 1, num_attention_heads = 2,
     num_key_value_heads = 1, rms_norm_eps = Fin 0, rope_theta = Fin 1\<rparr>"

lemma tiny_network_loads: "\<exists>m. Llama_load shape_candle shape_ops shape_nn True ''llama'' tiny_config F16 dev = Inr m"
  by (simp add: Llama_load_def Llama_embedding_def Block_load_def CausalSelfAttention_load_def PagedAttention_new_def
      compute_cos_sin_cache_def Mlp_load_def tiny_config_def shape_nn_def shape_ops_def shape_candle_def with_dims_def
      MAX_SEQ_LEN_def try_api_def unwrap_err_def Let_def)

theorem Llama_load_typed_witness:
  "\<exists>m sa. Llama_load shape_candle shape_ops shape_nn True ''llama'' tiny_config F16 (Cuda 0) = Inr m
     \<and> map bl_attn (llama_blocks m) = [sa] \<and> q_proj sa = (8, 8) \<and> k_proj sa = (8, 4) \<and> o_proj sa = (8, 8)
     \<and> dims shape_candle (cos_sin_cache sa) = [4096, 8]"
proof -
  obtain m where m: "Llama_load shape_candle shape_ops shape_nn True ''llama'' tiny_config F16 (Cuda 0) = Inr m"
    using tiny_network_loads by blast
  note t = Llama_load_typed [OF checks_shapes_shape_ops network_shapes_shape_nn m]
  then obtain bl where bl: "llama_blocks m = [bl]" by (auto simp: tiny_config_def length_Suc_conv)
  then have "attention_typed shape_candle shape_nn tiny_config (bl_attn bl)" using t by simp
  then show ?thesis
    using m bl by (auto simp: attention_typed_def tiny_config_def shape_nn_def MAX_SEQ_LEN_def Let_def)
qed

subsection \<open>The forward pass\<close>

text \<open>The heads are split off before the attention, which then gets a tensor of rank four where it expects three dimensions.\<close>

lemma rotary_keeps_dims:
  assumes "network_shapes cd ops nn" "rotary_embedding cd ops chk pos q k dim1 cs neox = Inr (q', k')"
  shows "dims cd q' = dims cd q"
  using assms(2) network_shapesD(4) [OF assms(1)]
  by (auto simp: rotary_embedding_def differ_def Let_def bindE_Inr_iff split: Device.splits if_splits)

lemma self_attention_fails:
  assumes lib: "network_shapes cd ops nn"
  shows "CausalSelfAttention_forward cd ops nn cuda chk sa x pos md cache \<noteq> Inr r"
proof
  assume "CausalSelfAttention_forward cd ops nn cuda chk sa x pos md cache = Inr r"
  then obtain b_sz seq_len q0 q1 k1 q2 k2 v1 out where s:
      "split_heads ops nn b_sz seq_len (sa_num_attention_heads sa) (sa_head_dim sa) q0 = Inr q1"
      "apply_rotary_emb cd ops chk sa q1 k1 pos = Inr (q2, k2)"
      "PagedAttention_forward cd ops cuda chk (sa_attn sa) q2 k2 v1 (map_option fst cache) (map_option snd cache) md
         (dtype cd q2) (device cd q2) = Inr out"
    by (auto simp: CausalSelfAttention_forward_def bindE_Inr_iff)
  have "length (dims cd q1) = 4"
    using s(1) network_shapesD(1,2) [OF lib] by (fastforce simp: split_heads_def bindE_Inr_iff)
  then have "length (dims cd q2) = 4" using rotary_keeps_dims [OF lib] s(2) by (auto simp: apply_rotary_emb_def)
  moreover obtain a b c where "dims3 ops q2 = Inr (a, b, c)" using s(3) by (auto simp: PagedAttention_forward_def bindE_Inr_iff)
  ultimately show False using network_shapesD(3) [OF lib] by fastforce
qed

lemma Llama_forward_fails:
  assumes "network_shapes cd ops nn" "llama_blocks m \<noteq> []" "kvs \<noteq> Some []"
  shows "Llama_forward cd ops nn cuda chk m x pos kvs md \<noteq> Inr r"
proof -
  have block: "Block_forward cd ops nn cuda chk bl x' pos cache md' \<noteq> Inr r'" for bl x' cache md' r'
    using self_attention_fails [OF assms(1)] by (auto simp: Block_forward_def bindE_Inr_iff try_api_Inr)
  obtain bl bls where "llama_blocks m = bl # bls" using assms(2) by (cases "llama_blocks m") auto
  then obtain cache rest where "(case kvs of Some caches \<Rightarrow> zip (map Some caches) (llama_blocks m) | None \<Rightarrow> map (Pair None) (llama_blocks m))
      = (cache, bl) # rest"
    using assms(3) by (cases kvs; cases "the kvs") auto
  then show ?thesis by (auto simp: Llama_forward_def blocks_forward_def bindE_Inr_iff block)
qed

end
