(* ===== verification/Server.thy ===== *)
theory Server
  imports Generate_Properties
begin

section \<open>The server\<close>

text \<open>
  \<open>src/openai/openai_server.rs\<close>.  The engine sits behind a standard mutex: a handler that panics while it holds
  the guard poisons it, and every later \<open>lock().unwrap()\<close> panics; a handler that never returns keeps it.  When
  \<open>generate\<close> ends with an \<open>Err\<close> the engine is left in the middle of a round; the state of the server after that is
  \<open>None\<close>.  The thread of a streaming request is run to its end before the reply; its interleaving with the client is the subject of
  theory Streaming.  \<open>fmt\<close> fills templates, \<open>rid\<close> is the fresh request id and \<open>now\<close> the time.
\<close>

datatype lock_state = Free | Poisoned | Stuck

record 't Server =
  engine :: "'t LLMEngine"
  lock_of :: lock_state
  max_model_len :: nat

definition lock_engine :: "'t Server \<Rightarrow> 't LLMEngine res" where
  "lock_engine sv = (case lock_of sv of
     Free \<Rightarrow> Inr (engine sv) | Poisoned \<Rightarrow> Inl (Panic UnwrapErr) | Stuck \<Rightarrow> Inl Deadlock)"

definition verify_model :: "'t Server \<Rightarrow> string \<Rightarrow> unit res" where
  "verify_model sv model_name =
     bindE (lock_engine sv) (\<lambda>e.
     if pipeline_name e \<noteq> model_name
     then Inl (Err [Txt ''Model name `'', Txt model_name, Txt ''` is invalid.''])
     else Inr ())"

text \<open>The loop over the messages of a request; an error leaves the messages before it in the conversation.\<close>

fun feed_messages :: "(string, string) hash_map list \<Rightarrow> DefaultConversation \<Rightarrow> unit res \<times> DefaultConversation" where
  "feed_messages [] c = (Inr (), c)"
| "feed_messages (m # ms) c =
     (case map_of m ''role'' of
        None \<Rightarrow> (Inl (Err [Txt ''Message key `role` not found.'']), c)
      | Some role \<Rightarrow>
          (case map_of m ''content'' of
             None \<Rightarrow> (Inl (Err [Txt ''Message key `content` not found.'']), c)
           | Some content \<Rightarrow>
               if role = ''system'' then feed_messages ms (set_system_message content c)
               else if role = ''user'' then feed_messages ms (append_message (fst (get_roles c)) content c)
               else if role = ''assistant'' then feed_messages ms (append_message (snd (get_roles c)) content c)
               else (Inl (Err [Txt ''Unknown role: '', Txt role]), c)))"

definition get_gen_prompt :: "formatter \<Rightarrow> Messages \<Rightarrow> DefaultConversation \<Rightarrow> string res \<times> DefaultConversation" where
  "get_gen_prompt fmt msgs c =
     (case msgs of
        Literal msg \<Rightarrow> (Inr msg, c)
      | MapMessages ms \<Rightarrow>
          (case feed_messages ms c of
             (Inl e, c') \<Rightarrow> (Inl e, c')
           | (Inr _, c') \<Rightarrow>
               (let c'' = append_none_message (snd (get_roles c')) c' in (Inr (get_prompt fmt c''), c''))))"

definition check_length :: "'t externals \<Rightarrow> bool \<Rightarrow> nat \<Rightarrow> nat option \<Rightarrow> string \<Rightarrow> nat list res" where
  "check_length ext chk max_len req_max_tokens prompt =
     bindE (tokenize ext prompt) (\<lambda>token_ids.
     bindE (case req_max_tokens of Some m \<Rightarrow> Inr m | None \<Rightarrow> usize_sub chk max_len (length token_ids)) (\<lambda>max_toks.
     bindE (usize_add chk (length token_ids) max_toks) (\<lambda>total.
     if max_len < total
     then bindE (usize_add chk max_toks (length token_ids)) (\<lambda>total'.
          Inl (Err [Txt ''This model's maximum context length is '', Num (int max_len),
                    Txt '' tokens. However, you requested '', Num (int total'), Txt '' tokens ('', Num (int (length token_ids)),
                    Txt '' in the messages, '', Num (int max_toks),
                    Txt '' in the completion). Please reduce the length of the messages or completion.'']))
     else Inr token_ids)))"

record ChatCompletionResponse =
  rs_id :: string
  rs_choices :: "ChatChoice list"
  rs_created :: nat
  rs_model :: string
  rs_object :: string
  rs_usage :: ChatCompletionUsageResponse

text \<open>The answer: a JSON body, or a stream with the chunks that are sent on it.\<close>

datatype reply = Json ChatCompletionResponse | Streaming "message list"

definition request_params :: "ChatCompletionRequest \<Rightarrow> SamplingParams res" where
  "request_params rq =
     SamplingParams_new (unwrap_or (rq_n rq) 1) (rq_best_of rq) (unwrap_or (rq_presence_penalty rq) (Fin 0))
       (unwrap_or (rq_frequency_penalty rq) (Fin 0)) (Fin 1) (unwrap_or (rq_temperature rq) (Fin (11744051 / 16777216)))
       (unwrap_or (rq_top_p rq) (Fin 1)) (unwrap_or (rq_top_k rq) (- 1)) (unwrap_or (rq_use_beam_search rq) False)
       (Fin 1) UnlikelyBetterCandidates (rq_stop rq) (unwrap_or (rq_stop_token_ids rq) []) (unwrap_or (rq_ignore_eos rq) False)
       (unwrap_or (rq_max_tokens rq) 16) None None (unwrap_or (rq_skip_special_tokens rq) True)"

definition collect_usage :: "(ChatChoice list \<times> ChatCompletionUsageResponse) list \<Rightarrow> ChatCompletionUsageResponse" where
  "collect_usage result = \<lparr>completion_tokens = sum_list (map (completion_tokens \<circ> snd) result),
     prompt_tokens = sum_list (map (prompt_tokens \<circ> snd) result), total_tokens = sum_list (map (total_tokens \<circ> snd) result)\<rparr>"

text \<open>What becomes of the server and its lock when \<open>generate\<close> ends, or does not.\<close>

definition after_generate ::
    "'t Server \<Rightarrow> ('t LLMEngine \<times> (ChatChoice list \<times> ChatCompletionUsageResponse) list) res option \<Rightarrow> 't Server option" where
  "after_generate sv r = (case r of
     Some (Inr (e, _)) \<Rightarrow> Some (sv\<lparr>engine := e\<rparr>)
   | Some (Inl (Panic _)) \<Rightarrow> Some (sv\<lparr>lock_of := Poisoned\<rparr>)
   | Some (Inl Deadlock) \<Rightarrow> Some (sv\<lparr>lock_of := Stuck\<rparr>)
   | Some (Inl (Err _)) \<Rightarrow> None
   | None \<Rightarrow> Some (sv\<lparr>lock_of := Stuck\<rparr>))"

text \<open>The tokenizer runs with the lock held: a panic in it poisons the lock.\<close>

definition after_tokenize :: "'t externals \<Rightarrow> string \<Rightarrow> 't Server \<Rightarrow> 't Server" where
  "after_tokenize ext prompt sv = (case tokenize ext prompt of Inl (Panic _) \<Rightarrow> sv\<lparr>lock_of := Poisoned\<rparr> | _ \<Rightarrow> sv)"

text \<open>What the thread of a streaming request sends: the error of \<open>generate\<close>, if it returns one.\<close>

definition stream_chunks :: "'a res option \<Rightarrow> message list" where
  "stream_chunks g = (case g of Some (Inl (Err m)) \<Rightarrow> [m] | _ \<Rightarrow> [])"

definition chat_completions ::
    "'t candle \<Rightarrow> 't externals \<Rightarrow> formatter \<Rightarrow> bool \<Rightarrow> string \<Rightarrow> nat \<Rightarrow> ChatCompletionRequest \<Rightarrow> 't Server
     \<Rightarrow> reply res option \<times> 't Server option" where
  "chat_completions cd ext fmt chk rid now rq sv =
     (case verify_model sv (rq_model rq) of
        Inl e \<Rightarrow> (Some (Inl e), Some sv)
      | Inr _ \<Rightarrow>
        if (case rq_logit_bias rq of Some m \<Rightarrow> m \<noteq> [] | None \<Rightarrow> False)
        then (Some (Inl (Err [Txt ''`logit_bias` is not currently supported.''])), Some sv)
        else
        (case get_gen_prompt fmt (rq_messages rq) (conversation (engine sv)) of
           (r, conv) \<Rightarrow>
             (let sv1 = sv\<lparr>engine := (engine sv)\<lparr>conversation := conv\<rparr>\<rparr> in
              case r of
                Inl e \<Rightarrow> (Some (Inl e), Some sv1)
              | Inr prompt \<Rightarrow>
              case bindE (check_length ext chk (max_model_len sv) (rq_max_tokens rq) prompt) (\<lambda>ids.
                   bindE (request_params rq) (\<lambda>params. Inr (ids, params))) of
                Inl e \<Rightarrow> (Some (Inl e), Some (after_tokenize ext prompt sv1))
              | Inr (ids, params) \<Rightarrow>
                  (let g = generate cd ext chk now ids (''cmpl-'' @ rid) now params (engine sv1) in
                   if rq_stream rq = Some True
                   then (Some (Inr (Streaming (stream_chunks g))), after_generate sv1 g)
                   else (case g of
                           None \<Rightarrow> None
                         | Some (Inl e) \<Rightarrow> Some (Inl e)
                         | Some (Inr (_, result)) \<Rightarrow>
                             Some (Inr (Json \<lparr>rs_id = ''cmpl-'' @ rid, rs_choices = concat (map fst result), rs_created = now,
                                             rs_model = rq_model rq, rs_object = ''chat.completion'',
                                             rs_usage = collect_usage result\<rparr>)),
                         after_generate sv1 g)))))"

subsection \<open>Properties\<close>

lemma feed_messages_ok:
  assumes "\<forall>m \<in> set ms. map_of m ''role'' = Some ''user'' \<or> map_of m ''role'' = Some ''assistant''"
    "\<forall>m \<in> set ms. map_of m ''content'' \<noteq> None"
  shows "\<exists>turns. feed_messages ms c = (Inr (), fold (\<lambda>(role, msg). append_message role msg) turns c)"
  using assms
proof (induction ms arbitrary: c)
  case (Cons m ms)
  obtain content where ct: "map_of m ''content'' = Some content" using Cons.prems(2) by auto
  obtain role where r: "feed_messages (m # ms) c = feed_messages ms (append_message role content c)"
    using Cons.prems(1) ct by auto
  obtain turns where "feed_messages ms (append_message role content c) =
      (Inr (), fold (\<lambda>(role, msg). append_message role msg) turns (append_message role content c))"
    using Cons.IH [of "append_message role content c"] Cons.prems by (meson list.set_intros(2))
  then show ?case using r by (intro exI [of _ "(role, content) # turns"]) simp
qed (auto intro: exI [of _ "[]"])

lemma roles_append [simp]: "roles (append_message r m c) = roles c" "roles (append_none_message r c) = roles c"
  by (simp_all add: append_message_def append_none_message_def)

text \<open>
  C35: conversations leak between requests.  The conversation belongs to the engine and is never reset, so the
  prompt of a request whose messages are by users and assistants starts with the whole prompt of the request served
  before it, when that one gave its messages as a list of maps, whoever sent it.
\<close>

theorem prompts_accumulate:
  assumes "get_gen_prompt fmt (MapMessages ms) c = (Inr prompt, c1)"
    "\<forall>m \<in> set ms'. map_of m ''role'' = Some ''user'' \<or> map_of m ''role'' = Some ''assistant''"
    "\<forall>m \<in> set ms'. map_of m ''content'' \<noteq> None"
  shows "\<exists>rest c2. get_gen_prompt fmt (MapMessages ms') c1 = (Inr (prompt @ rest), c2)"
proof -
  have p: "prompt = get_prompt fmt c1"
    using assms(1) by (auto simp: get_gen_prompt_def Let_def split: prod.splits sum.splits)
  obtain turns where "feed_messages ms' c1 = (Inr (), fold (\<lambda>(role, msg). append_message role msg) turns c1)"
    using feed_messages_ok [OF assms(2,3)] by blast
  then show ?thesis
    using default_conversation.prompt_request [of fmt _ turns c1] p by (auto simp: get_gen_prompt_def Let_def)
qed

theorem prompts_accumulate_witness:
  "\<exists>prompt c1 rest c2.
     get_gen_prompt (\<lambda>t args. t) (MapMessages [[(''role'', ''user''), (''content'', ''secret'')]])
       (conversation (sample_engine busy_scheduler)) = (Inr prompt, c1)
   \<and> get_gen_prompt (\<lambda>t args. t) (MapMessages [[(''role'', ''user''), (''content'', ''hi'')]]) c1 = (Inr (prompt @ rest), c2)"
proof -
  obtain prompt c1 where first: "get_gen_prompt (\<lambda>t args. t) (MapMessages [[(''role'', ''user''), (''content'', ''secret'')]])
       (conversation (sample_engine busy_scheduler)) = (Inr prompt, c1)"
    by (simp add: get_gen_prompt_def Let_def)
  show ?thesis
    using first prompts_accumulate [OF first, of "[[(''role'', ''user''), (''content'', ''hi'')]]"] by auto
qed

text \<open>
  C20: the length check.  With an explicit \<open>max_tokens\<close> whose sum with the length of the prompt fits the machine word, a prompt passes exactly when
  prompt and completion fit the context, and is refused with an error otherwise.  A \<open>max_tokens\<close> so large that the sum overflows
  makes the handler panic with overflow checks; without them the sum wraps around, and the prompt passes whenever the wrapped sum is at most the context length, although it does
  not fit.  Without \<open>max_tokens\<close>, a prompt that fits passes, and for a prompt that is too long the subtraction underflows: with
  overflow checks the handler panics, without them the sum wraps around to the context length and the prompt passes.
\<close>

theorem check_length_correct:
  assumes "encode ext prompt = Inr ids" "length ids < 2 ^ 64" "max_len < 2 ^ 64"
  shows "(length ids + m < 2 ^ 64 \<longrightarrow>
            (if length ids + m \<le> max_len then check_length ext chk max_len (Some m) prompt = Inr ids
             else \<exists>msg. check_length ext chk max_len (Some m) prompt = Inl (Err msg)))
    \<and> (2 ^ 64 \<le> length ids + m \<and> m < 2 ^ 64 \<longrightarrow>
         (if chk then check_length ext chk max_len (Some m) prompt = Inl (Panic ArithmeticOverflow)
          else check_length ext chk max_len (Some m) prompt = Inr ids \<longleftrightarrow> length ids + m - 2 ^ 64 \<le> max_len))
    \<and> (length ids \<le> max_len \<longrightarrow> check_length ext chk max_len None prompt = Inr ids)
    \<and> (max_len < length ids \<longrightarrow> check_length ext chk max_len None prompt =
         (if chk then Inl (Panic ArithmeticOverflow) else Inr ids))"
proof (intro conjI impI)
  assume "length ids + m < 2 ^ 64"
  then show "if length ids + m \<le> max_len then check_length ext chk max_len (Some m) prompt = Inr ids
      else \<exists>msg. check_length ext chk max_len (Some m) prompt = Inl (Err msg)"
    using assms(1) by (auto simp: check_length_def usize_add_def add.commute)
next
  assume a: "2 ^ 64 \<le> length ids + m \<and> m < 2 ^ 64"
  then have "length ids + m - 2 ^ 64 < 2 ^ 64" using assms(2) by linarith
  then have "(length ids + m) mod 2 ^ 64 = length ids + m - 2 ^ 64" "\<not> length ids + m < 2 ^ 64"
    using a by (simp_all only: le_mod_geq mod_less not_less)
  then show "if chk then check_length ext chk max_len (Some m) prompt = Inl (Panic ArithmeticOverflow)
      else check_length ext chk max_len (Some m) prompt = Inr ids \<longleftrightarrow> length ids + m - 2 ^ 64 \<le> max_len"
    using assms(1) by (auto simp: check_length_def usize_add_def add.commute)
next
  assume "length ids \<le> max_len"
  then show "check_length ext chk max_len None prompt = Inr ids"
    using assms by (simp add: check_length_def usize_add_def)
next
  assume lt: "max_len < length ids"
  have "length ids + (2 ^ 64 - (length ids - max_len)) = max_len + 2 ^ 64" using lt assms(2) by simp
  moreover from this have "\<not> length ids + (2 ^ 64 - (length ids - max_len)) < 2 ^ 64" by simp
  ultimately show "check_length ext chk max_len None prompt = (if chk then Inl (Panic ArithmeticOverflow) else Inr ids)"
    using lt assms(1,3) by (simp add: check_length_def usize_sub_def usize_add_def del: add_diff_assoc)
qed

theorem check_length_correct_witness:
  "check_length sample_externals True 4096 (Some 16) ''hello'' = Inr [1]
   \<and> check_length sample_externals False 4096 (Some 18446744073709551615) ''hello'' = Inr [1]
   \<and> check_length (sample_externals\<lparr>encode := (\<lambda>_. Inr [1, 2, 3])\<rparr>) False 2 None ''hello'' = Inr [1, 2, 3]"
proof -
  have e: "encode sample_externals ''hello'' = Inr [1]" by (simp add: sample_externals_def)
  have "check_length sample_externals True 4096 (Some 16) ''hello'' = Inr [1]"
    using check_length_correct [OF e, of 4096 16 True] by simp
  moreover have "check_length sample_externals False 4096 (Some 18446744073709551615) ''hello'' = Inr [1]"
    using check_length_correct [OF e, of 4096 18446744073709551615 False] by simp
  moreover have e': "encode (sample_externals\<lparr>encode := (\<lambda>_. Inr [1, 2, 3])\<rparr>) ''hello'' = Inr [1, 2, 3]" by simp
  ultimately show ?thesis
    using check_length_correct [OF e', of 2 0 False] by simp
qed

lemma poisoned_panics:
  assumes "lock_of sv = Poisoned"
  shows "chat_completions cd ext fmt chk rid now rq sv = (Some (Inl (Panic UnwrapErr)), Some sv)"
  using assms by (simp add: chat_completions_def verify_model_def lock_engine_def)

text \<open>
  C34: the first request that reaches the model takes the server down.  A request for the right model, without logit
  bias, whose prompt has a token and passes the checks of length and sampling parameters, panics in \<open>generate\<close> and poisons
  the lock of the engine; every later request, whatever it asks, panics on that lock.  When it asks for a stream it
  gets an empty one; the thread of the stream is run to its end before the reply here (theory Streaming has the interleavings).
\<close>

theorem first_request_poisons_server:
  assumes free: "lock_of sv = Free" and model: "rq_model rq = pipeline_name (engine sv)"
    and bias: "rq_logit_bias rq = None \<or> rq_logit_bias rq = Some []"
    and prompt: "get_gen_prompt fmt (rq_messages rq) (conversation (engine sv)) = (Inr prompt, conv)"
    and len: "check_length ext chk (max_model_len sv) (rq_max_tokens rq) prompt = Inr ids" "ids \<noteq> []"
    and params: "request_params rq = Inr params"
  shows "\<exists>reply sv'. chat_completions cd ext fmt chk rid now rq sv = (Some reply, Some sv')
     \<and> reply = (if rq_stream rq = Some True then Inr (Streaming []) else Inl (Panic UnwrapNone))
     \<and> lock_of sv' = Poisoned
     \<and> (\<forall>rid' now' rq'. chat_completions cd ext fmt chk rid' now' rq' sv' = (Some (Inl (Panic UnwrapErr)), Some sv'))"
proof -
  let ?e1 = "(engine sv)\<lparr>conversation := conv\<rparr>"
  let ?sv' = "sv\<lparr>engine := ?e1, lock_of := Poisoned\<rparr>"
  have gen: "generate cd ext chk now ids (''cmpl-'' @ rid) now params ?e1 = Some (Inl (Panic UnwrapNone))"
    using add_request_panics [OF len(2), of now "''cmpl-'' @ rid" now ?e1] by (simp add: generate_def)
  have "chat_completions cd ext fmt chk rid now rq sv =
      (Some (if rq_stream rq = Some True then Inr (Streaming []) else Inl (Panic UnwrapNone)), Some ?sv')"
    using free model bias prompt len(1) params gen
    by (auto simp: chat_completions_def verify_model_def lock_engine_def after_generate_def stream_chunks_def Let_def)
  then show ?thesis using poisoned_panics [of ?sv'] by auto
qed

definition sample_server :: "(Device \<times> DType \<times> nat list) Server" where
  "sample_server = \<lparr>engine = sample_engine busy_scheduler, lock_of = Free, max_model_len = 4096\<rparr>"

definition sample_request :: ChatCompletionRequest where
  "sample_request = \<lparr>rq_model = ''config_7b_v2'', rq_messages = Literal ''hello'', rq_temperature = Some (Fin 1), rq_top_p = None,
     rq_n = None, rq_max_tokens = Some 16, rq_stop = None, rq_stream = None, rq_presence_penalty = None,
     rq_frequency_penalty = None, rq_logit_bias = None, rq_user = None, rq_top_k = None, rq_best_of = None,
     rq_use_beam_search = None, rq_ignore_eos = None, rq_skip_special_tokens = None, rq_stop_token_ids = None\<rparr>"

theorem first_request_poisons_server_witness:
  "\<exists>sv'. chat_completions shape_candle sample_externals (\<lambda>t args. t) True ''1'' 0 sample_request sample_server
       = (Some (Inl (Panic UnwrapNone)), Some sv')
     \<and> chat_completions shape_candle sample_externals (\<lambda>t args. t) True ''2'' 1 sample_request sv'
       = (Some (Inl (Panic UnwrapErr)), Some sv')"
proof -
  have "get_gen_prompt (\<lambda>t args. t) (rq_messages sample_request) (conversation (engine sample_server)) =
      (Inr ''hello'', conversation (engine sample_server))"
    by (simp add: get_gen_prompt_def sample_request_def)
  moreover have "check_length sample_externals True (max_model_len sample_server) (rq_max_tokens sample_request) ''hello'' = Inr [1]"
    by (simp add: check_length_def usize_add_def sample_externals_def sample_server_def sample_request_def)
  moreover have "request_params sample_request = verify_params (default_params (Fin 1) (- 1))"
    by (simp add: request_params_def sample_request_def SamplingParams_new_def default_params_def)
  moreover have "params_ok (default_params (Fin 1) (- 1))"
    by (simp add: default_params_def params_ok_def SAMPLING_EPS_def)
  then obtain q where "verify_params (default_params (Fin 1) (- 1)) = Inr q" using verify_params_iff by blast
  moreover have "lock_of sample_server = Free" "rq_model sample_request = pipeline_name (engine sample_server)"
      "rq_logit_bias sample_request = None" "rq_stream sample_request = None"
    by (simp_all add: sample_server_def sample_request_def sample_engine_def)
  ultimately show ?thesis
    using first_request_poisons_server [of sample_server sample_request "\<lambda>t args. t" "''hello''" "conversation (engine sample_server)"
        sample_externals True "[1]" q shape_candle "''1''" 0]
    by auto
qed

end
