(* ===== verification/Startup.thy ===== *)
theory Startup
  imports Llama_Pipeline Llama_Properties Server
begin

section \<open>Starting the server\<close>

text \<open>
  \<open>src/main.rs\<close> after the parsing of the arguments, and the composition of the loader, the network, the engine and the server.  Binding
  the port and serving requests are parameters: \<open>bind_port\<close> and \<open>run_server\<close> stand for the \<open>actix\<close> calls, the latter with the flag for the
  logger.
\<close>

record Args =
  hf_token :: "string option"
  hf_token_path :: "string option"
  port :: nat
  verbose :: bool
  arg_command :: ModelSelected
  arg_max_num_seqs :: nat
  arg_block_size :: nat

definition main_cache_config :: "Args \<Rightarrow> CacheConfig" where
  "main_cache_config args = \<lparr>block_size = arg_block_size args, cc_num_gpu_blocks = None, cc_num_cpu_blocks = None, fully_init = False\<rparr>"

text \<open>\<open>LLMEngine::new\<close> of a pipeline.\<close>

definition pipeline_engine ::
    "'t candle \<Rightarrow> ('t, 'l, 'n, 'k) LlamaPipeline \<Rightarrow> SchedulerConfig \<Rightarrow> CacheConfig \<Rightarrow> seq_store \<Rightarrow> 't LLMEngine res" where
  "pipeline_engine cd pl scfg ccfg st =
     LLMEngine_new cd (get_model_config pl) LlamaPipeline_get_dtype (LlamaPipeline_name pl) (get_conversation pl)
       (spec_repeat_last_n (pl_args pl)) scfg ccfg st"

definition main ::
    "'t candle \<Rightarrow> 't tensor_ops \<Rightarrow> ('t, 'v, 'l, 'n) nn_ops \<Rightarrow> bool \<Rightarrow> ('h, 'v, 'k) host \<Rightarrow> (nat \<Rightarrow> unit res) \<Rightarrow> (bool \<Rightarrow> 't Server \<Rightarrow> unit res)
     \<Rightarrow> seq_store \<Rightarrow> Args \<Rightarrow> unit res" where
  "main cd ops nn chk host bind_port run_server st args =
     (let (loader, model_id) = get_model_loader (arg_command args) in
      bindE (download_model host model_id None (hf_token args) (hf_token_path args)) (\<lambda>paths.
      bindE (load_model cd ops nn chk host loader paths F16 Cpu) (\<lambda>(pl, max_len).
      bindE (pipeline_engine cd pl \<lparr>max_num_seqs = arg_max_num_seqs args\<rparr> (main_cache_config args) st) (\<lambda>e.
      bindE (bind_port (port args)) (\<lambda>_.
      run_server (verbose args) \<lparr>engine = e, lock_of = Free, max_model_len = max_len\<rparr>)))))"

subsection \<open>Loading a model\<close>

text \<open>
  The trait \<open>ModelLoader\<close> of \<open>src/openai/pipelines/mod.rs\<close>, with what \<open>main\<close> relies on: downloading takes one way to find the token and returns files of the
  given revision of the given model; loading builds a pipeline from the files it is given.
\<close>

locale model_loader =
  fixes download :: "string \<Rightarrow> string option \<Rightarrow> string option \<Rightarrow> string option \<Rightarrow> 'p res"
    and load :: "'p \<Rightarrow> DType \<Rightarrow> Device \<Rightarrow> ('m \<times> nat) res"
    and files_of :: "string \<Rightarrow> string \<Rightarrow> string option \<Rightarrow> string option \<Rightarrow> 'p \<Rightarrow> bool"
    and built_from :: "'p \<Rightarrow> DType \<Rightarrow> Device \<Rightarrow> 'm \<Rightarrow> nat \<Rightarrow> bool"
  assumes download_one_token: "download model_id revision (Some a) (Some b) \<noteq> Inr paths"
    and download_files: "download model_id revision tok path = Inr paths \<Longrightarrow> files_of model_id (unwrap_or revision ''main'') tok path paths"
    and load_built: "load paths dt dev = Inr (pl, max_len) \<Longrightarrow> built_from paths dt dev pl max_len"
begin

lemma loaded_pipeline:
  assumes "bindE (download model_id revision tok path) (\<lambda>paths. load paths dt dev) = Inr (pl, max_len)"
  shows "(tok = None \<or> path = None)
     \<and> (\<exists>paths. files_of model_id (unwrap_or revision ''main'') tok path paths \<and> built_from paths dt dev pl max_len)"
proof -
  obtain paths where d: "download model_id revision tok path = Inr paths" and l: "load paths dt dev = Inr (pl, max_len)"
    using assms by (auto simp: bindE_Inr_iff)
  have "\<not> (tok \<noteq> None \<and> path \<noteq> None)" using d download_one_token by (cases tok; cases path) auto
  then show ?thesis using download_files [OF d] load_built [OF l] by blast
qed

end

text \<open>The files of a revision of a model on the hub: configuration, tokenizer, and every file of weights.\<close>

definition hub_files ::
    "('h, 'v, 'k) host \<Rightarrow> string \<Rightarrow> string \<Rightarrow> string option \<Rightarrow> string option \<Rightarrow> LlamaModelPaths \<Rightarrow> bool" where
  "hub_files host model_id revision tok path paths \<longleftrightarrow>
     (\<exists>token api0 siblings. get_token host tok path = Inr token \<and> build_api host (Some token) = Inr api0
       \<and> (let api = api_repo host api0 model_id revision in
          repo_get host api ''config.json'' = Inr (config_filename paths)
        \<and> repo_get host api ''tokenizer.json'' = Inr (tokenizer_filename paths)
        \<and> repo_siblings host api = Inr siblings
        \<and> list_all2 (\<lambda>name file. repo_get host api name = Inr file) (filter (suffix ''.safetensors'') siblings) (filenames paths)))"

text \<open>A pipeline that was built from files: its configuration is that of the configuration file, its network that of the weights.\<close>

definition built_of ::
    "'t candle \<Rightarrow> 't tensor_ops \<Rightarrow> ('t, 'v, 'l, 'n) nn_ops \<Rightarrow> bool \<Rightarrow> ('h, 'v, 'k) host \<Rightarrow> LlamaLoader \<Rightarrow> LlamaModelPaths \<Rightarrow> DType \<Rightarrow> Device
     \<Rightarrow> ('t, 'l, 'n, 'k) LlamaPipeline \<Rightarrow> nat \<Rightarrow> bool" where
  "built_of cd ops nn chk host ld paths dt dev pl max_len \<longleftrightarrow>
     (\<exists>bytes lc vb. read_bytes host (config_filename paths) = Inr bytes \<and> parse_config host default_rope bytes = Inr lc
       \<and> load_safetensors host (filenames paths) dt dev = Inr vb
       \<and> Llama_load cd ops nn chk vb (into_config lc) dt dev = Inr (pl_llama pl)
       \<and> get_config (pl_llama pl) = into_config lc \<and> get_model_config pl = dyn_LlamaConfig lc)
   \<and> tokenizer_from_file host (tokenizer_filename paths) = Inr (pl_tokenizer pl)
   \<and> pl_name pl = ld_name ld \<and> pl_args pl = ld_config ld \<and> pl_conversation pl = llama_conversation \<and> max_len = MAX_SEQ_LEN"

lemma download_two_tokens: "download_model host model_id revision (Some a) (Some b) \<noteq> Inr paths"
  by (simp add: download_model_def get_token_def)

lemma download_hub_files:
  assumes "download_model host model_id revision tok path = Inr paths"
  shows "hub_files host model_id (unwrap_or revision ''main'') tok path paths"
proof -
  obtain token api0 siblings where "get_token host tok path = Inr token" "build_api host (Some token) = Inr api0"
      "repo_siblings host (api_repo host api0 model_id (unwrap_or revision ''main'')) = Inr siblings"
      "mapE (repo_get host (api_repo host api0 model_id (unwrap_or revision ''main'')))
         (filter (\<lambda>x. ends_with x ''.safetensors'') siblings) = Inr (filenames paths)"
      "repo_get host (api_repo host api0 model_id (unwrap_or revision ''main'')) ''tokenizer.json'' = Inr (tokenizer_filename paths)"
      "repo_get host (api_repo host api0 model_id (unwrap_or revision ''main'')) ''config.json'' = Inr (config_filename paths)"
    using assms by (auto simp: download_model_def bindE_Inr_iff Let_def)
  then show ?thesis
    unfolding hub_files_def Let_def
    by (intro exI [of _ token] exI [of _ api0] exI [of _ siblings]) (simp add: mapE_Inr_iff ends_with_def [abs_def])
qed

lemma Llama_load_config: "Llama_load cd ops nn chk vb cfg dt dev = Inr m \<Longrightarrow> get_config m = cfg"
  by (auto simp: Llama_load_def bindE_Inr_iff Let_def)

lemma load_model_built:
  assumes "load_model cd ops nn chk host ld paths dt dev = Inr (pl, max_len)"
  shows "built_of cd ops nn chk host ld paths dt dev pl max_len"
proof -
  obtain bytes lc vb where load: "read_bytes host (config_filename paths) = Inr bytes" "parse_config host default_rope bytes = Inr lc"
      "load_safetensors host (filenames paths) dt dev = Inr vb" "Llama_load cd ops nn chk vb (into_config lc) dt dev = Inr (pl_llama pl)"
    and rest: "tokenizer_from_file host (tokenizer_filename paths) = Inr (pl_tokenizer pl)" "pl_name pl = ld_name ld" "pl_args pl = ld_config ld"
      "pl_conversation pl = llama_conversation" "max_len = MAX_SEQ_LEN"
    using assms by (auto simp: load_model_def bindE_Inr_iff Let_def MAX_SEQ_LEN_def)
  have "get_config (pl_llama pl) = into_config lc" by (rule Llama_load_config [OF load(4)])
  then show ?thesis
    using load rest into_config_answers [of lc] unfolding built_of_def get_model_config_def by metis
qed

interpretation llama_loader: model_loader "download_model host" "load_model cd ops nn chk host ld" "hub_files host" "built_of cd ops nn chk host ld"
  for host cd ops nn chk ld
  by unfold_locales (simp_all add: download_two_tokens download_hub_files load_model_built)

text \<open>The size in the name of a model, and the window of its repeat penalty.\<close>

fun size_name :: "ModelSelected \<Rightarrow> string" where
  "size_name (Llama7b _) = ''7b''"
| "size_name (Llama13b _) = ''13b''"
| "size_name (Llama70b _) = ''70b''"

fun repeat_window :: "ModelSelected \<Rightarrow> nat" where
  "repeat_window (Llama7b k) = k"
| "repeat_window (Llama13b k) = k"
| "repeat_window (Llama70b k) = k"

lemma get_model_loader_named:
  "get_model_loader sel = (\<lparr>ld_config = \<lparr>spec_repeat_last_n = repeat_window sel\<rparr>, ld_name = ''llama'' @ size_name sel\<rparr>,
     ''meta-llama/Llama-2-'' @ size_name sel @ ''-chat-hf'')"
  by (cases sel) simp_all

text \<open>
  C25: a loaded model is the one that was selected.  When downloading and loading return, at most one way to find the token was given.  The files are those of the
  main revision of the hub repository \<open>meta-llama/Llama-2-<size>-chat-hf\<close> of the selected size: \<open>config.json\<close>, \<open>tokenizer.json\<close> and
  every file that ends in \<open>.safetensors\<close>.  The pipeline answers for its configuration as the parsed content of that \<open>config.json\<close>, its network was loaded from those weights and its tokenizer from
  that \<open>tokenizer.json\<close>; it has the name, the repeat window and the conversation of the selection.  The network has a
  well typed block for every hidden layer of that configuration, and the context length is the number of positions of every rotary cache.
\<close>

theorem loaded_model:
  assumes lib: "checks_shapes cd ops" "network_shapes cd ops nn"
    and r: "bindE (download_model host (snd (get_model_loader sel)) None tok path)
              (\<lambda>paths. load_model cd ops nn chk host (fst (get_model_loader sel)) paths dt dev) = Inr (pl, max_len)"
  shows "(tok = None \<or> path = None)
     \<and> (\<exists>paths bytes lc vb. hub_files host (''meta-llama/Llama-2-'' @ size_name sel @ ''-chat-hf'') ''main'' tok path paths
          \<and> read_bytes host (config_filename paths) = Inr bytes \<and> parse_config host default_rope bytes = Inr lc
          \<and> get_model_config pl = dyn_LlamaConfig lc
          \<and> load_safetensors host (filenames paths) dt dev = Inr vb
          \<and> Llama_load cd ops nn chk vb (into_config lc) dt dev = Inr (pl_llama pl)
          \<and> tokenizer_from_file host (tokenizer_filename paths) = Inr (LlamaPipeline_tokenizer pl))
     \<and> LlamaPipeline_name pl = ''llama'' @ size_name sel \<and> LlamaPipeline_name pl = ModelSelected_to_string sel
     \<and> spec_repeat_last_n (pl_args pl) = repeat_window sel \<and> get_conversation pl = llama_conversation
     \<and> length (llama_blocks (pl_llama pl)) = get_num_hidden_layers (get_model_config pl)
     \<and> (\<forall>bl \<in> set (llama_blocks (pl_llama pl)). attention_typed cd nn (get_config (pl_llama pl)) (bl_attn bl)
          \<and> hd (dims cd (cos_sin_cache (bl_attn bl))) = max_len)"
proof -
  let ?ld = "fst (get_model_loader sel)"
  obtain paths where tok: "tok = None \<or> path = None" and files: "hub_files host (snd (get_model_loader sel)) ''main'' tok path paths"
      and built: "built_of cd ops nn chk host ?ld paths dt dev pl max_len"
    using llama_loader.loaded_pipeline [OF r] by auto
  obtain bytes lc vb where load: "read_bytes host (config_filename paths) = Inr bytes" "parse_config host default_rope bytes = Inr lc"
      "load_safetensors host (filenames paths) dt dev = Inr vb" "Llama_load cd ops nn chk vb (into_config lc) dt dev = Inr (pl_llama pl)"
      "get_model_config pl = dyn_LlamaConfig lc"
    using built unfolding built_of_def by blast
  have pl: "tokenizer_from_file host (tokenizer_filename paths) = Inr (pl_tokenizer pl)" "pl_name pl = ''llama'' @ size_name sel"
      "spec_repeat_last_n (pl_args pl) = repeat_window sel" "pl_conversation pl = llama_conversation" "max_len = MAX_SEQ_LEN"
    using built unfolding built_of_def get_model_loader_named by auto
  have "hd (dims cd (cos_sin_cache sa)) = max_len" if "attention_typed cd nn (get_config (pl_llama pl)) sa" for sa
    using that pl(5) by (auto simp: attention_typed_def Let_def)
  moreover have "num_hidden_layers (into_config lc) = get_num_hidden_layers (get_model_config pl)"
    using load(5) by (simp add: into_config_def dyn_LlamaConfig_def)
  moreover have "''llama'' @ size_name sel = ModelSelected_to_string sel" by (cases sel) simp_all
  ultimately show ?thesis
    using tok files [unfolded get_model_loader_named snd_conv] load pl Llama_load_shapes [OF lib load(4)] by auto
qed

definition sample_host :: "(unit, string, unit) host" where
  "sample_host = \<lparr>env_var = (\<lambda>_. Inr ''hf_x''), read_to_string = (\<lambda>_. Inr ''hf_y''), read_bytes = (\<lambda>_. Inr ''{}''), home_dir = Some ''/root'',
     build_api = (\<lambda>_. Inr ()), api_repo = (\<lambda>h _ _. h), repo_get = (\<lambda>_ name. Inr (''cache/'' @ name)),
     repo_siblings = (\<lambda>_. Inr [''config.json'', ''a.safetensors'']),
     parse_config = (\<lambda>rope _. Inr \<lparr>lc_hidden_size = 8, lc_intermediate_size = 16, lc_vocab_size = 10, lc_num_hidden_layers = 1,
        lc_num_attention_heads = 2, lc_num_key_value_heads = Some 1, lc_rms_norm_eps = Fin 0, lc_rope_theta = Fin 1\<rparr>),
     load_safetensors = (\<lambda>_ _ _. Inr ''llama''), tokenizer_from_file = (\<lambda>_. Inr ())\<rparr>"

lemma sample_host_downloads:
  "download_model sample_host (snd (get_model_loader sel)) None None None =
     Inr \<lparr>tokenizer_filename = ''cache/tokenizer.json'', config_filename = ''cache/config.json'', filenames = [''cache/a.safetensors'']\<rparr>"
  by (simp add: download_model_def get_token_def sample_host_def ends_with_def suffix_def Let_def)

lemma sample_host_loads:
  "\<exists>pl. load_model shape_candle shape_ops shape_nn True sample_host ld paths F16 dev = Inr (pl, 4096)"
proof -
  obtain m where "Llama_load shape_candle shape_ops shape_nn True ''llama'' tiny_config F16 dev = Inr m" using tiny_network_loads by blast
  then show ?thesis by (simp add: load_model_def sample_host_def into_config_def tiny_config_def Let_def)
qed

theorem loaded_model_witness:
  "\<exists>pl :: (shape_tensor, nat \<times> nat, nat, unit) LlamaPipeline.
     bindE (download_model sample_host (snd (get_model_loader (Llama13b 64))) None None None)
       (\<lambda>paths. load_model shape_candle shape_ops shape_nn True sample_host (fst (get_model_loader (Llama13b 64))) paths F16 Cpu)
       = Inr (pl, 4096)
     \<and> (\<exists>paths. hub_files sample_host ''meta-llama/Llama-2-13b-chat-hf'' ''main'' None None paths)
     \<and> pl_name pl = ''llama13b'' \<and> spec_repeat_last_n (pl_args pl) = 64
     \<and> (\<forall>bl \<in> set (llama_blocks (pl_llama pl)). hd (dims shape_candle (cos_sin_cache (bl_attn bl))) = 4096)"
proof -
  obtain pl :: "(shape_tensor, nat \<times> nat, nat, unit) LlamaPipeline" where
      r: "bindE (download_model sample_host (snd (get_model_loader (Llama13b 64))) None None None)
       (\<lambda>paths. load_model shape_candle shape_ops shape_nn True sample_host (fst (get_model_loader (Llama13b 64))) paths F16 Cpu)
       = Inr (pl, 4096)"
    unfolding sample_host_downloads bindE.simps using sample_host_loads by blast
  from loaded_model [OF checks_shapes_shape_ops network_shapes_shape_nn r] r show ?thesis
    by (intro exI [of _ pl]) auto
qed

subsection \<open>Prepared batches and the network\<close>

lemma prompt_tokens_flat:
  assumes "vector_shapes cd" "prepare_prompt cd chk groups e = Inr inputs"
  shows "length (dims cd (tokens inputs)) = 1"
  using assms(2) make_tensor_is_flat [OF assms(1)] by (auto simp: prepare_prompt_def Let_def bindE_Inr_iff)

lemma decode_tokens_flat:
  assumes "vector_shapes cd" "prepare_decode cd chk groups e = Inr inputs"
  shows "length (dims cd (tokens inputs)) = 1"
  using assms(2) make_tensor_is_flat [OF assms(1)] by (auto simp: prepare_decode_def Let_def bindE_Inr_iff)

text \<open>
  C32: the network refuses every batch the engine prepares.  \<open>prepare_prompt\<close> and \<open>prepare_decode\<close> build their tokens as one flat vector, and
  \<open>Llama::forward\<close> begins by asking for two dimensions: it returns that error, before the embedding and whatever the weights are, the cache and the metadata.
  (Only prompts get that far in a run: \<open>prepare_decode\<close> asks a sequence for its length first, which is a deadlock.)
\<close>

theorem prepared_batch_rejected:
  assumes lib: "vector_shapes cd" "checks_shapes cd ops"
    and inputs: "prepare_prompt cd chk groups e = Inr inputs \<or> prepare_decode cd chk groups e = Inr inputs"
  shows "\<exists>ending. dims2 ops (tokens inputs) = Inl ending
     \<and> (\<forall>nn cuda pl kv md. LlamaPipeline_forward cd ops nn cuda chk pl (tokens inputs) (positions inputs) kv md = Inl ending)"
proof (cases "dims2 ops (tokens inputs)")
  case (Inl ending)
  then show ?thesis by (simp add: LlamaPipeline_forward_def Llama_forward_def)
next
  case (Inr ls)
  then have "length (dims cd (tokens inputs)) = 2"
    using checks_shapesD(4) [OF lib(2), of "tokens inputs" "fst ls" "snd ls"] by simp
  then show ?thesis using inputs prompt_tokens_flat [OF lib(1)] decode_tokens_flat [OF lib(1)] by fastforce
qed

theorem prepared_batch_rejected_witness:
  "\<exists>inputs. prepare_prompt shape_candle True [sample_group [5] 10] (sample_engine busy_scheduler) = Inr inputs
     \<and> (\<exists>ending. \<forall>(nn :: (shape_tensor, string, nat \<times> nat, nat) nn_ops) (pl :: (shape_tensor, nat \<times> nat, nat, unit) LlamaPipeline) kv md.
          LlamaPipeline_forward shape_candle shape_ops nn True True pl (tokens inputs) (positions inputs) kv md = Inl ending)"
proof -
  obtain inputs where i: "prepare_prompt shape_candle True [sample_group [5] 10] (sample_engine busy_scheduler) = Inr inputs"
    by (simp add: prepare_prompt_def prompt_row_def prompt_slots_def slot_of_def block_numbers_def prompt_start_idx_def group_arcs_def sample_group_def
        sample_engine_def busy_scheduler_def two_owners_def sample_cache_def full_seq_def get_token_ids_def SequenceData_new_def
        deref_block_def spin_lock_def try_into_i64_def max_of_def make_tensor_with_pad_def assertE_def shape_candle_def Let_def)
  then show ?thesis
    using prepared_batch_rejected [OF vector_shapes_shape_candle checks_shapes_shape_ops disjI1, OF i] by blast
qed

subsection \<open>The main function\<close>

lemma pipeline_engine_panics: "pipeline_engine cd pl scfg ccfg st = Inl (Panic NotImplemented)"
  by (simp add: pipeline_engine_def LLMEngine_new_def LlamaPipeline_get_dtype_def)

text \<open>
  The program never serves a request.  For no arguments does \<open>main\<close> return or reach the server: once the model is loaded
  \<open>LLMEngine::new\<close> panics in the unfinished \<open>get_dtype\<close>; and with any data type in its place it panics on the assertion of the cache engine, since
  \<open>main\<close> passes a cache configuration without block counts.
\<close>

lemma main_never_serves:
  "(\<forall>u. main cd ops nn chk host bind_port run_server st args \<noteq> Inr u)
   \<and> (\<forall>paths r. download_model host (snd (get_model_loader (arg_command args))) None (hf_token args) (hf_token_path args) = Inr paths
        \<longrightarrow> load_model cd ops nn chk host (fst (get_model_loader (arg_command args))) paths F16 Cpu = Inr r
        \<longrightarrow> main cd ops nn chk host bind_port run_server st args = Inl (Panic NotImplemented))
   \<and> (\<forall>cfg dt nm conv k scfg. LLMEngine_new cd cfg (Inr dt) nm conv k scfg (main_cache_config args) st = Inl (Panic AssertFailed))"
  by (auto simp: main_def split_def Let_def bindE_Inr_iff pipeline_engine_panics LLMEngine_new_def CacheEngine_new_def
      allocate_gpu_cache_def main_cache_config_def assertE_def)

end
