(* ===== verification/Build_Script.thy ===== *)
theory Build_Script
  imports Prelude
begin

section \<open>The build script\<close>

text \<open>
  \<open>build.rs\<close>: the compute capability is taken from the environment or from \<open>nvidia-smi\<close>, checked against the list of \<open>nvcc\<close>, and the kernels are compiled,
  in threads when there are many.  The tools are the fields of \<open>toolchain\<close>: their standard output, the entries of the kernel directory (\<open>None\<close> for one that
  cannot be read) and how a run of \<open>nvcc\<close> ends.  The lines printed for cargo are left out.
\<close>

datatype nvcc_exit = SpawnFailed | WaitFailed | ExitStatus bool

record toolchain =
  cuda_compute_cap :: "string option"
  nvidia_smi :: "string res"
  nvcc_list_gpu_code :: "string res"
  kernel_dir :: "string option list res"
  run_nvcc :: "string list \<Rightarrow> nvcc_exit"

definition WORKERS :: nat where
  "WORKERS = 4"

subsection \<open>Strings\<close>

text \<open>\<open>str::split\<close> at a character, \<open>str::lines\<close>, \<open>Path::extension\<close> and \<open>str::parse::<usize>\<close>.\<close>

fun split_on :: "char \<Rightarrow> string \<Rightarrow> string list" where
  "split_on c [] = [[]]"
| "split_on c (x # xs) = (if x = c then [] # split_on c xs else (x # hd (split_on c xs)) # tl (split_on c xs))"

definition strip_cr :: "string \<Rightarrow> string" where
  "strip_cr s = (if s \<noteq> [] \<and> last s = CHR 0x0D then butlast s else s)"

definition str_lines :: "string \<Rightarrow> string list" where
  "str_lines s = (let ls = split_on (CHR 0x0A) s in map strip_cr (butlast ls) @ (if last ls = [] then [] else [last ls]))"

definition path_extension :: "string \<Rightarrow> string option" where
  "path_extension file =
     (let parts = split_on (CHR ''.'') file in
      if length parts \<le> 1 \<or> (length parts = 2 \<and> hd parts = []) \<or> file = ''..'' then None else Some (last parts))"

definition char_digit :: "char \<Rightarrow> nat option" where
  "char_digit c = (if 48 \<le> (of_char c :: nat) \<and> (of_char c :: nat) \<le> 57 then Some (of_char c - 48) else None)"

fun parse_digits :: "nat \<Rightarrow> string \<Rightarrow> nat option" where
  "parse_digits acc [] = Some acc"
| "parse_digits acc (c # cs) =
     (case char_digit c of
        None \<Rightarrow> None
      | Some d \<Rightarrow> if acc * 10 + d < 2 ^ 64 then parse_digits (acc * 10 + d) cs else None)"

definition parse_usize :: "string \<Rightarrow> nat option" where
  "parse_usize s =
     (let digits = (if s \<noteq> [] \<and> hd s = CHR ''+'' then tl s else s) in if digits = [] then None else parse_digits 0 digits)"

subsection \<open>The compute capability\<close>

text \<open>The capability of the installed card, from the table that \<open>nvidia-smi\<close> prints.\<close>

definition detect_cap :: "string \<Rightarrow> nat res" where
  "detect_cap out =
     (case str_lines out of
        [] \<Rightarrow> Inl (Panic UnwrapNone)
      | header # rest \<Rightarrow>
          bindE (assertE (header = ''compute_cap'')) (\<lambda>_.
          case rest of
            [] \<Rightarrow> Inl (Panic UnwrapNone)
          | cap # _ \<Rightarrow>
              (case parse_usize (filter (\<lambda>c. c \<noteq> CHR ''.'') cap) of
                 Some k \<Rightarrow> Inr k
               | None \<Rightarrow> Inl (Panic (ExplicitPanic ''cannot parse as int'')))))"

definition requested_cap :: "toolchain \<Rightarrow> nat res" where
  "requested_cap tc =
     (case cuda_compute_cap tc of
        Some s \<Rightarrow> (case parse_usize s of Some k \<Rightarrow> Inr k | None \<Rightarrow> Inl (Panic UnwrapErr))
      | None \<Rightarrow> bindE (nvidia_smi tc) detect_cap)"

definition parse_code :: "string \<Rightarrow> nat list res" where
  "parse_code line =
     (let code = split_on (CHR ''_'') line in
      if code \<noteq> [] \<and> ''sm'' \<in> set code
      then bindE (vec_index code 1) (\<lambda>num. Inr (case parse_usize num of Some k \<Rightarrow> [k] | None \<Rightarrow> []))
      else Inr [])"

definition supported_nvcc_codes :: "string \<Rightarrow> nat list res" where
  "supported_nvcc_codes out = bindE (mapE parse_code (str_lines out)) (\<lambda>codes. Inr (sort (concat codes)))"

definition compute_cap :: "toolchain \<Rightarrow> nat res" where
  "compute_cap tc =
     bindE (requested_cap tc) (\<lambda>cap.
     bindE (nvcc_list_gpu_code tc) (\<lambda>out.
     bindE (supported_nvcc_codes out) (\<lambda>codes.
     bindE (unwrap (if codes = [] then None else Some (last codes))) (\<lambda>max_nvcc_code.
     if cap \<notin> set codes then Inl (Panic (ExplicitPanic ''nvcc cannot target gpu arch''))
     else if max_nvcc_code < cap then Inl (Panic (ExplicitPanic ''higher than the highest gpu code from nvcc''))
     else Inr cap))))"

subsection \<open>Compiling\<close>

definition nvcc_command :: "nat \<Rightarrow> string \<Rightarrow> string list" where
  "nvcc_command cap file =
     [''--gpu-architecture=sm_'' @ show_nat cap, ''--ptx'', ''--use_fast_math'', ''-std=c++17'', ''-O'', ''2'',
      ''--default-stream'', ''per-thread'', ''--output-directory'', ''kernels/'', ''kernels/'' @ file]"

text \<open>The commands that a call of \<open>compile_files\<close> starts, and how it ends.\<close>

fun compile_files :: "toolchain \<Rightarrow> nat \<Rightarrow> string list \<Rightarrow> string list list \<times> unit res" where
  "compile_files tc cap [] = ([], Inr ())"
| "compile_files tc cap (file # files) =
     (let cmd = nvcc_command cap file in
      case run_nvcc tc cmd of
        SpawnFailed \<Rightarrow> ([], Inl (Panic (ExplicitPanic ''nvcc failed'')))
      | WaitFailed \<Rightarrow> ([cmd], Inl (Panic (ExplicitPanic ''nvcc failed'')))
      | ExitStatus ok \<Rightarrow>
          if ok then (let (cmds, r) = compile_files tc cap files in (cmd # cmds, r))
          else ([cmd], Inl (Panic (ExplicitPanic ''nvcc failed with exit code''))))"

definition kernel_files :: "toolchain \<Rightarrow> string list res" where
  "kernel_files tc =
     bindE (kernel_dir tc) (\<lambda>entries.
     bindE (mapE (\<lambda>entry.
        bindE (case entry of Some file \<Rightarrow> Inr file | None \<Rightarrow> Inl (Panic UnwrapErr)) (\<lambda>file.
        case path_extension file of
          None \<Rightarrow> Inl (Panic (ExplicitPanic ''No valid extension''))
        | Some ext \<Rightarrow> Inr (if ext = ''cu'' then [file] else []))) entries) (\<lambda>files.
     Inr (concat files)))"

text \<open>\<open>slice::chunks\<close>; a size of zero panics.\<close>

function chunks :: "nat \<Rightarrow> 'a list \<Rightarrow> 'a list list" where
  "chunks k xs = (if k = 0 \<or> xs = [] then [] else take k xs # chunks k (drop k xs))"
  by pat_completeness auto
termination
  by (relation "measure (\<lambda>(k, xs). length xs)") auto

declare chunks.simps [simp del]

lemma chunks_Nil [simp]: "chunks k [] = []"
  by (simp add: chunks.simps)

text \<open>
  The script: the commands of each thread, and how the main thread ends.  It waits until every thread has finished and joins none,
  so a panic in a thread is not seen.
\<close>

definition build_main :: "toolchain \<Rightarrow> string list list list \<times> unit res" where
  "build_main tc =
     (case compute_cap tc of
        Inl e \<Rightarrow> ([], Inl e)
      | Inr cap \<Rightarrow>
        if cap < 70 then ([], Inl (Panic (ExplicitPanic ''GPUs with runtime capability below 7.0 (70) are not supported'')))
        else
        (case kernel_files tc of
           Inl e \<Rightarrow> ([], Inl e)
         | Inr files \<Rightarrow>
           if length files \<le> WORKERS
           then (let (cmds, r) = compile_files tc cap files in ([cmds], r))
           else if length files div WORKERS = 0 then ([], Inl (Panic (ExplicitPanic ''chunk size must be non-zero'')))
           else (map (\<lambda>fs. fst (compile_files tc cap fs)) (chunks (length files div WORKERS) files), Inr ())))"

subsection \<open>Numbers\<close>

lemma char_digit_of_digit: "d < 10 \<Longrightarrow> char_digit (char_of (48 + d)) = Some d"
  by (simp add: char_digit_def of_char_of)

lemma parse_digits_append: "parse_digits acc (xs @ ys) = (case parse_digits acc xs of None \<Rightarrow> None | Some a \<Rightarrow> parse_digits a ys)"
  by (induction xs arbitrary: acc) (auto split: option.splits)

lemma parse_show: "k < 2 ^ 64 \<Longrightarrow> parse_digits 0 (show_nat k) = Some k"
proof (induction k rule: show_nat.induct)
  case (1 k)
  show ?case
  proof (cases "k < 10")
    case True
    then show ?thesis by (simp add: show_nat.simps [of k] char_digit_of_digit)
  next
    case False
    then have "parse_digits 0 (show_nat (k div 10)) = Some (k div 10)" using 1 by simp
    moreover have "k div 10 * 10 + k mod 10 = k" by simp
    ultimately show ?thesis
      using False 1(2) by (simp add: show_nat.simps [of k] parse_digits_append char_digit_of_digit del: div_mult_mod_eq)
  qed
qed

lemma show_nat_digits: "show_nat k \<noteq> [] \<and> (\<forall>c \<in> set (show_nat k). char_digit c \<noteq> None)"
proof (induction k rule: show_nat.induct)
  case (1 k)
  then show ?case by (auto simp: show_nat.simps [of k] char_digit_of_digit)
qed

lemma parse_usize_show: "k < 2 ^ 64 \<Longrightarrow> parse_usize (show_nat k) = Some k"
proof -
  assume k: "k < 2 ^ 64"
  obtain c cs where c: "show_nat k = c # cs" "char_digit c \<noteq> None" using show_nat_digits [of k] by (cases "show_nat k") auto
  then have "hd (show_nat k) \<noteq> CHR ''+''" by (auto simp: char_digit_def)
  then show ?thesis using parse_show [OF k] c(1) by (simp add: parse_usize_def)
qed

text \<open>
  C28: the compute capability.  The script returns exactly the requested capability when \<open>nvcc\<close> lists it, so the comparison with the highest code never
  fires; and a capability in the environment is read back as the number that was written there.
\<close>

theorem compute_cap_correct:
  "(compute_cap tc = Inr cap \<longleftrightarrow>
      requested_cap tc = Inr cap
      \<and> (\<exists>out codes. nvcc_list_gpu_code tc = Inr out \<and> supported_nvcc_codes out = Inr codes \<and> cap \<in> set codes))
   \<and> (cuda_compute_cap tc = Some (show_nat k) \<and> k < 2 ^ 64 \<longrightarrow> requested_cap tc = Inr k)"
proof -
  have top: "\<not> last codes < cap" if "supported_nvcc_codes out = Inr codes" "cap \<in> set codes" for out codes
  proof -
    have "sorted codes" using that(1) by (auto simp: supported_nvcc_codes_def bindE_Inr_iff)
    then show ?thesis using that(2) by (cases codes rule: rev_cases) (auto simp: sorted_append)
  qed
  have "compute_cap tc = Inr cap \<longleftrightarrow>
      requested_cap tc = Inr cap
      \<and> (\<exists>out codes. nvcc_list_gpu_code tc = Inr out \<and> supported_nvcc_codes out = Inr codes \<and> cap \<in> set codes)"
  proof
    assume "compute_cap tc = Inr cap"
    then show "requested_cap tc = Inr cap
      \<and> (\<exists>out codes. nvcc_list_gpu_code tc = Inr out \<and> supported_nvcc_codes out = Inr codes \<and> cap \<in> set codes)"
      by (auto simp: compute_cap_def bindE_Inr_iff split: if_splits)
  next
    assume "requested_cap tc = Inr cap
      \<and> (\<exists>out codes. nvcc_list_gpu_code tc = Inr out \<and> supported_nvcc_codes out = Inr codes \<and> cap \<in> set codes)"
    then show "compute_cap tc = Inr cap" using top by (auto simp: compute_cap_def)
  qed
  then show ?thesis by (auto simp: requested_cap_def parse_usize_show)
qed

subsection \<open>Compilation\<close>

lemma concat_chunks: "0 < k \<Longrightarrow> concat (chunks k xs) = xs"
proof (induction k xs rule: chunks.induct)
  case (1 k xs)
  then show ?case by (cases "xs = []") (simp_all add: chunks.simps [of k xs])
qed

lemma length_chunks:
  assumes "0 < k" "xs \<noteq> []"
  shows "length xs \<le> k * length (chunks k xs)" "k * length (chunks k xs) < length xs + k"
proof -
  have "length xs \<le> k * length (chunks k xs) \<and> k * length (chunks k xs) < length xs + k"
    using assms
  proof (induction k xs rule: chunks.induct)
    case (1 k xs)
    have step: "length (chunks k xs) = Suc (length (chunks k (drop k xs)))" using 1(2,3) by (simp add: chunks.simps [of k xs])
    show ?case
    proof (cases "drop k xs = []")
      case True
      then show ?thesis using step 1(3) by simp
    next
      case False
      then show ?thesis using step 1 by auto
    qed
  qed
  then show "length xs \<le> k * length (chunks k xs)" "k * length (chunks k xs) < length xs + k" by simp_all
qed

lemma thread_bound:
  assumes "WORKERS < length files"
  shows "WORKERS \<le> length (chunks (length files div WORKERS) files) \<and> length (chunks (length files div WORKERS) files) \<le> 7"
proof -
  let ?q = "length files div 4"
  let ?t = "length (chunks ?q files)"
  have q: "0 < ?q" "4 * ?q \<le> length files" "length files < 4 * ?q + 4" using assms by (auto simp: WORKERS_def)
  have "files \<noteq> []" using assms by auto
  note b = length_chunks [OF q(1) this]
  have "?q * 4 \<le> ?q * ?t" using b(1) q(2) by linarith
  then have "4 \<le> ?t" using q(1) by (metis mult_le_cancel1)
  moreover have "?q * ?t < ?q * 8" using b(2) q by linarith
  then have "?t < 8" by (metis mult_less_cancel1)
  ultimately show ?thesis by (simp add: WORKERS_def)
qed

lemma compile_files_ok:
  "\<forall>f \<in> set files. run_nvcc tc (nvcc_command cap f) = ExitStatus True \<Longrightarrow>
   compile_files tc cap files = (map (nvcc_command cap) files, Inr ())"
  by (induction files) auto

lemma compile_files_result:
  "snd (compile_files tc cap files) = Inr () \<longleftrightarrow> (\<forall>f \<in> set files. run_nvcc tc (nvcc_command cap f) = ExitStatus True)"
  by (induction files) (auto simp: split_def Let_def split: nvcc_exit.splits)

lemma threads_compile_all:
  assumes "WORKERS < length files" "\<forall>f \<in> set files. run_nvcc tc (nvcc_command cap f) = ExitStatus True"
  shows "concat (map (\<lambda>fs. fst (compile_files tc cap fs)) (chunks (length files div WORKERS) files)) = map (nvcc_command cap) files"
proof -
  let ?k = "length files div WORKERS"
  have k: "0 < ?k" using assms(1) by (simp add: WORKERS_def div_greater_zero_iff)
  have sub: "set fs \<subseteq> set files" if "fs \<in> set (chunks ?k files)" for fs
    using that concat_chunks [OF k, of files] by (metis UN_upper set_concat)
  then have "map (\<lambda>fs. fst (compile_files tc cap fs)) (chunks ?k files) = map (map (nvcc_command cap)) (chunks ?k files)"
    using assms(2) by (intro map_cong) (auto simp: compile_files_ok subset_iff)
  then show ?thesis by (simp only: map_concat [symmetric] concat_chunks [OF k])
qed

text \<open>
  C27: every kernel is compiled once, and failures go unnoticed.  When \<open>nvcc\<close> succeeds on all \<open>.cu\<close> files, the commands of the threads together are one
  command for each file, in order and for the chosen capability.  At most \<open>WORKERS\<close> files are compiled by the main thread, and the script
  ends well exactly when \<open>nvcc\<close> succeeds on all of them.  More are spread over at least \<open>WORKERS\<close> threads and at most seven, more than the
  constant says, and the script ends well whatever \<open>nvcc\<close> does, since the threads are never joined.
\<close>

theorem build_main_correct:
  assumes "compute_cap tc = Inr cap" "70 \<le> cap" "kernel_files tc = Inr files"
  shows "\<exists>threads r. build_main tc = (threads, r)
     \<and> ((\<forall>f \<in> set files. run_nvcc tc (nvcc_command cap f) = ExitStatus True) \<longrightarrow> concat threads = map (nvcc_command cap) files)
     \<and> (if length files \<le> WORKERS
        then length threads = 1 \<and> (r = Inr () \<longleftrightarrow> (\<forall>f \<in> set files. run_nvcc tc (nvcc_command cap f) = ExitStatus True))
        else WORKERS \<le> length threads \<and> length threads \<le> 7 \<and> r = Inr ())"
proof (cases "length files \<le> WORKERS")
  case True
  obtain cmds r where c: "compile_files tc cap files = (cmds, r)" by (cases "compile_files tc cap files")
  then have "build_main tc = ([cmds], r)" using True assms by (simp add: build_main_def)
  moreover have "r = Inr () \<longleftrightarrow> (\<forall>f \<in> set files. run_nvcc tc (nvcc_command cap f) = ExitStatus True)"
    using compile_files_result [of tc cap files] c by simp
  moreover have "cmds = map (nvcc_command cap) files" if "\<forall>f \<in> set files. run_nvcc tc (nvcc_command cap f) = ExitStatus True"
    using compile_files_ok [OF that] c by simp
  ultimately show ?thesis using True by (intro exI [of _ "[cmds]"] exI [of _ r]) simp
next
  case False
  let ?threads = "map (\<lambda>fs. fst (compile_files tc cap fs)) (chunks (length files div WORKERS) files)"
  have "0 < length files div WORKERS" using False by (simp add: WORKERS_def div_greater_zero_iff)
  then have "build_main tc = (?threads, Inr ())" using False assms by (simp add: build_main_def)
  then show ?thesis
    using False thread_bound [of files] threads_compile_all [of files tc cap]
    by (intro exI [of _ ?threads] exI [of _ "Inr ()"]) simp
qed

subsection \<open>A concrete tool chain\<close>

definition sample_toolchain :: "bool \<Rightarrow> string list \<Rightarrow> toolchain" where
  "sample_toolchain ok files = \<lparr>cuda_compute_cap = Some ''80'', nvidia_smi = Inl (Panic UnwrapErr),
     nvcc_list_gpu_code = Inr (''sm_75'' @ [CHR 0x0A] @ ''sm_80'' @ [CHR 0x0A]), kernel_dir = Inr (map Some files),
     run_nvcc = (\<lambda>_. ExitStatus ok)\<rparr>"

lemma sample_toolchain_cap: "compute_cap (sample_toolchain ok files) = Inr 80"
  by (simp add: compute_cap_def requested_cap_def sample_toolchain_def parse_usize_def char_digit_def supported_nvcc_codes_def str_lines_def
      strip_cr_def parse_code_def vec_index_def Let_def)

lemma sample_toolchain_files:
  "kernel_files (sample_toolchain ok [''a.cu'', ''b.ptx'', ''c.cu'']) = Inr [''a.cu'', ''c.cu'']"
  "kernel_files (sample_toolchain ok [''a.cu'', ''b.cu'', ''c.cu'', ''d.cu'', ''e.cu'']) = Inr [''a.cu'', ''b.cu'', ''c.cu'', ''d.cu'', ''e.cu'']"
  by (simp_all add: kernel_files_def sample_toolchain_def path_extension_def Let_def)

theorem compute_cap_correct_witness:
  "requested_cap (sample_toolchain True []\<lparr>cuda_compute_cap := Some (show_nat 75)\<rparr>) = Inr 75
   \<and> compute_cap (sample_toolchain True []) = Inr 80
   \<and> (\<exists>codes. supported_nvcc_codes (''sm_75'' @ [CHR 0x0A] @ ''sm_80'' @ [CHR 0x0A]) = Inr codes \<and> 80 \<in> set codes)"
proof -
  have "requested_cap (sample_toolchain True []\<lparr>cuda_compute_cap := Some (show_nat 75)\<rparr>) = Inr 75"
    using compute_cap_correct [of "sample_toolchain True []\<lparr>cuda_compute_cap := Some (show_nat 75)\<rparr>" 0 75] by simp
  moreover have "nvcc_list_gpu_code (sample_toolchain True []) = Inr (''sm_75'' @ [CHR 0x0A] @ ''sm_80'' @ [CHR 0x0A])"
    by (simp add: sample_toolchain_def)
  ultimately show ?thesis
    using compute_cap_correct [of "sample_toolchain True []" 80 0] sample_toolchain_cap [of True "[]"] by auto
qed

theorem build_main_correct_witness:
  "\<exists>threads. build_main (sample_toolchain True [''a.cu'', ''b.cu'', ''c.cu'', ''d.cu'', ''e.cu'']) = (threads, Inr ())
     \<and> concat threads = map (nvcc_command 80) [''a.cu'', ''b.cu'', ''c.cu'', ''d.cu'', ''e.cu''] \<and> 4 \<le> length threads
     \<and> snd (build_main (sample_toolchain False [''a.cu'', ''b.cu'', ''c.cu'', ''d.cu'', ''e.cu''])) = Inr ()
     \<and> snd (build_main (sample_toolchain False [''a.cu'', ''b.ptx'', ''c.cu''])) \<noteq> Inr ()"
proof -
  have run: "run_nvcc (sample_toolchain ok files) cmd = ExitStatus ok" for ok files cmd by (simp add: sample_toolchain_def)
  have cap: "(70 :: nat) \<le> 80" by simp
  note many = build_main_correct [OF sample_toolchain_cap cap sample_toolchain_files(2)]
  note few = build_main_correct [OF sample_toolchain_cap cap sample_toolchain_files(1), of False]
  have "snd (build_main (sample_toolchain False [''a.cu'', ''b.ptx'', ''c.cu''])) \<noteq> Inr ()"
    using few by (auto simp: run WORKERS_def)
  moreover have "snd (build_main (sample_toolchain False [''a.cu'', ''b.cu'', ''c.cu'', ''d.cu'', ''e.cu''])) = Inr ()"
    using many [of False] by (auto simp: WORKERS_def)
  ultimately show ?thesis using many [of True] by (auto simp: run WORKERS_def)
qed

end
