(* ===== verification/Scheduling_Refinement.thy ===== *)
theory Scheduling_Refinement
  imports Scheduling_Runs
begin

section \<open>The scheduler as two queues and a number\<close>

text \<open>
  An abstract specification of the scheduler for groups of one sequence.  A task is a group with three numbers: the logical
  blocks of its sequence, the blocks its next token needs, and the blocks it holds.  The state is the two
  queues of tasks and the number of free blocks; there are no addresses, reference counts, tables or statuses.
  \<open>view\<close> abstracts a scheduler to it, and every operation of the scheduler is shown to be its abstract operation.
\<close>

record task =
  tk_group :: SequenceGroup
  tk_size :: nat
  tk_need :: nat
  tk_held :: nat

record queues =
  q_waiting :: "task list"
  q_running :: "task list"
  q_free :: nat
  q_total :: nat
  q_limit :: nat

subsection \<open>The specification\<close>

text \<open>Admission: first come first served, as long as the free and the wanted blocks together are at least all the blocks.\<close>

function spec_admit :: "SequenceGroup list \<Rightarrow> queues \<Rightarrow> (SequenceGroup list \<times> queues) option" where
  "spec_admit batch q = (case q_waiting q of
     [] \<Rightarrow> Some (batch, q)
   | t # ts \<Rightarrow>
       if q_limit q = length (q_running q) + 1 \<or> q_free q + tk_size t < q_total q then Some (batch, q)
       else if q_free q < tk_size t then None
       else spec_admit (batch @ [tk_group t])
              (q\<lparr>q_waiting := ts, q_running := q_running q @ [t\<lparr>tk_held := tk_size t\<rparr>], q_free := q_free q - tk_size t\<rparr>))"
  by pat_completeness auto
termination
  by (relation "measure (\<lambda>(_, q). length (q_waiting q))") auto

declare spec_admit.simps [simp del]

text \<open>
  Slots: the first task gets the block it needs when there is one; otherwise the last task, in the end the first itself, gives
  its blocks back and goes to the front of the waiting tasks.
\<close>

function spec_reserve :: "nat \<Rightarrow> task list \<Rightarrow> task list \<Rightarrow> task list \<Rightarrow> task list \<times> nat \<times> task list" where
  "spec_reserve free kept [] ws = (kept, free, ws)"
| "spec_reserve free kept (t # ts) ws =
     (if tk_need t \<le> free
      then spec_reserve (free - tk_need t) (kept @ [t\<lparr>tk_held := tk_held t + tk_need t\<rparr>]) ts ws
      else spec_reserve (free + tk_held (last (t # ts))) kept (butlast (t # ts)) ((last (t # ts))\<lparr>tk_held := 0\<rparr> # ws))"
  by pat_completeness auto
termination
  by (relation "measure (\<lambda>(_, _, ts, _). length ts)") auto

declare spec_reserve.simps(2) [simp del]

lemma spec_reserve_last:
  "\<not> tk_need t \<le> free \<Longrightarrow> spec_reserve free kept [t] ws = (kept, free + tk_held t, t\<lparr>tk_held := 0\<rparr> # ws)"
  "\<not> tk_need t \<le> free \<Longrightarrow> spec_reserve free kept (t # ts @ [v]) ws =
     spec_reserve (free + tk_held v) kept (t # ts) (v\<lparr>tk_held := 0\<rparr> # ws)"
  by (simp_all add: spec_reserve.simps(2) [of free kept t] butlast_append)

definition spec_decode :: "queues \<Rightarrow> SequenceGroup list \<times> queues" where
  "spec_decode q =
     (let (kept, free, ws) = spec_reserve (q_free q) [] (rev (sort_key (sg_arrival_time \<circ> tk_group) (q_running q))) (q_waiting q)
      in (map tk_group kept, q\<lparr>q_waiting := ws, q_running := kept, q_free := free\<rparr>))"

definition spec_schedule :: "queues \<Rightarrow> (SequenceGroup list \<times> queues) option" where
  "spec_schedule q = (case spec_admit [] q of
     None \<Rightarrow> None
   | Some (batch, q') \<Rightarrow> Some (if batch = [] then spec_decode q else (batch, q')))"

definition spec_enqueue :: "task \<Rightarrow> queues \<Rightarrow> queues" where
  "spec_enqueue t q = q\<lparr>q_waiting := q_waiting q @ [t]\<rparr>"

definition spec_token :: "SequenceGroup \<Rightarrow> nat \<Rightarrow> queues \<Rightarrow> queues" where
  "spec_token g need q = q\<lparr>q_running := map (\<lambda>t. if tk_group t = g
     then t\<lparr>tk_size := tk_size t + tk_need t, tk_need := need\<rparr> else t) (q_running q)\<rparr>"

definition spec_retire :: "(SequenceGroup \<Rightarrow> bool) \<Rightarrow> queues \<Rightarrow> queues" where
  "spec_retire fin q = q\<lparr>q_running := filter (\<lambda>t. \<not> fin (tk_group t)) (q_running q),
     q_free := q_free q + sum_list (map tk_held (filter (\<lambda>t. fin (tk_group t)) (q_running q)))\<rparr>"

subsection \<open>The abstraction\<close>

definition task_of :: "Scheduler \<Rightarrow> SequenceGroup \<Rightarrow> task" where
  "task_of s g = \<lparr>tk_group = g, tk_size = get_logical_token_blocks (sequences s (arc g)),
     tk_need = blocks_to_add_new_tok (sequences s (arc g)), tk_held = length (table_of (block_engine s) (sid g))\<rparr>"

abbreviation tasks :: "Scheduler \<Rightarrow> SequenceGroup list \<Rightarrow> task list" where
  "tasks s \<equiv> map (task_of s)"

definition view :: "Scheduler \<Rightarrow> queues" where
  "view s = \<lparr>q_waiting = tasks s (waiting s), q_running = tasks s (running s), q_free = num_free s,
     q_total = num_gpu_blocks (block_engine s), q_limit = max_num_seqs (config s)\<rparr>"

lemma task_of_simps [simp]: "tk_group (task_of s g) = g"
  "tk_size (task_of s g) = get_logical_token_blocks (sequences s (arc g))"
  "tk_need (task_of s g) = blocks_to_add_new_tok (sequences s (arc g))"
  "tk_held (task_of s g) = length (table_of (block_engine s) (sid g))"
  by (simp_all add: task_of_def)

lemma task_of_resized:
  assumes "same_setup s s'" "resized (block_engine s) (sid g) m (block_engine s')"
  shows "task_of s' g = (task_of s g)\<lparr>tk_held := m\<rparr>" "\<And>g'. sid g' \<noteq> sid g \<Longrightarrow> task_of s' g' = task_of s g'"
    "num_free s + tk_held (task_of s g) = num_free s' + m" "num_gpu_blocks (block_engine s') = num_gpu_blocks (block_engine s)"
  using assms by (auto simp: task_of_def same_setup_def resized_def)

lemma tasks_others:
  assumes "same_setup s s'" "resized (block_engine s) (sid g) m (block_engine s')" "sid g \<notin> sid ` set gs"
  shows "tasks s' gs = tasks s gs"
  by (intro map_cong refl task_of_resized(2) [OF assms(1,2)]) (use assms(3) in \<open>metis imageI\<close>)

lemma tasks_update [simp]:
  "tasks (s\<lparr>running := r\<rparr>) = tasks s" "tasks (s\<lparr>waiting := r\<rparr>) = tasks s" "tasks (s\<lparr>swapped_out := r\<rparr>) = tasks s"
  by (simp_all add: task_of_def fun_eq_iff)

subsection \<open>The decode phase\<close>

text \<open>A victim of the inner loop is the last task of the specification.\<close>

lemma preempt_last_sim:
  assumes inv: "ginv s (kept @ g # running s)" and rv: "running s = rest @ [v]"
  shows "\<exists>s1. preempt v (s\<lparr>running := rest\<rparr>) swaps = Inr (s1, swaps) \<and> ginv s1 (kept @ g # rest) \<and> running s1 = rest
     \<and> num_free s1 = num_free s + tk_held (task_of s v) \<and> tasks s1 (kept @ g # rest) = tasks s (kept @ g # rest)
     \<and> tasks s1 (waiting s1) = (task_of s v)\<lparr>tk_held := 0\<rparr> # tasks s (waiting s)
     \<and> num_gpu_blocks (block_engine s1) = num_gpu_blocks (block_engine s)"
proof -
  obtain s1 where s1: "preempt v (s\<lparr>running := rest\<rparr>) swaps = Inr (s1, swaps)" "ginv s1 (kept @ g # rest)"
      "waiting s1 = v # waiting s" "running s1 = rest" "same_setup s s1" "resized (block_engine s) (sid v) 0 (block_engine s1)"
    using preempt_last [OF inv rv] by blast
  have "sid v \<notin> sid ` set (waiting s @ kept @ g # rest)" using group_invD(4) [OF inv] rv by auto
  then show ?thesis
    using s1 task_of_resized [OF s1(5,6)] tasks_others [OF s1(5,6), of "kept @ g # rest"] tasks_others [OF s1(5,6), of "waiting s"]
    by auto
qed

text \<open>The guard of the loops is the comparison of the specification.\<close>

lemma can_append_iff:
  assumes "ginv s gs" "g \<in> set gs"
  shows "can_append_token_to_seq (sequences s) g (block_engine s) \<longleftrightarrow> tk_need (task_of s g) \<le> num_free s"
proof -
  have "single_ok (sequences s) g" using group_invD(3) [OF assms(1)] assms(2) by simp
  then show ?thesis by (simp add: can_append_token_to_seq_def total_blocks_to_add_new_tok_def single_ok_def)
qed

text \<open>The last group preempts itself.\<close>

lemma preempt_self_sim:
  assumes inv: "ginv s (kept @ [g])"
  shows "\<exists>s1. preempt g s swaps = Inr (s1, swaps) \<and> num_free s1 = num_free s + tk_held (task_of s g)
     \<and> tasks s1 kept = tasks s kept \<and> tasks s1 (waiting s1) = (task_of s g)\<lparr>tk_held := 0\<rparr> # tasks s (waiting s)
     \<and> num_gpu_blocks (block_engine s1) = num_gpu_blocks (block_engine s)"
proof -
  have "g \<notin> set kept" using ginv_last_new inv by simp
  then have "remove1 g (kept @ [g]) = kept" by (simp add: remove1_snoc_new)
  then obtain s1 where s1: "preempt g s swaps = Inr (s1, swaps)" "waiting s1 = g # waiting s"
      "same_setup s s1" "resized (block_engine s) (sid g) 0 (block_engine s1)"
    using preempt_ok [OF inv, of g swaps] by auto
  have "sid g \<notin> sid ` set kept" "sid g \<notin> sid ` set (waiting s)" using group_invD(4) [OF inv] by auto
  note others = this [THEN tasks_others [OF s1(3,4)]]
  show ?thesis using s1(1,2) task_of_resized [OF s1(3,4)] by (simp add: others del: map_eq_conv)
qed

lemma make_room_sim:
  "ginv s (kept @ g # running s) \<Longrightarrow> make_room g s swaps pre = Inr (broke, s', swaps', pre') \<Longrightarrow>
   spec_reserve (num_free s) ks (tasks s (g # running s)) (tasks s (waiting s)) =
     spec_reserve (num_free s') ks (if broke then [] else tasks s' (g # running s')) (tasks s' (waiting s'))
   \<and> tasks s' kept = tasks s kept \<and> num_gpu_blocks (block_engine s') = num_gpu_blocks (block_engine s)"
proof (induction "length (running s)" arbitrary: s swaps pre)
  case 0
  note guard = can_append_iff [OF 0(2), of g, simplified]
  show ?case
  proof (cases "tk_need (task_of s g) \<le> num_free s")
    case True
    then show ?thesis using 0 guard by (simp add: make_room.simps [of g s])
  next
    case False
    obtain s1 where s1: "preempt g s swaps = Inr (s1, swaps)" "num_free s1 = num_free s + tk_held (task_of s g)"
        "tasks s1 kept = tasks s kept" "tasks s1 (waiting s1) = (task_of s g)\<lparr>tk_held := 0\<rparr> # tasks s (waiting s)"
        "num_gpu_blocks (block_engine s1) = num_gpu_blocks (block_engine s)"
      using preempt_self_sim [of s kept g swaps] 0(1,2) by auto
    have eqs: "broke" "s' = s1" using s1(1) 0 False guard by (auto simp: make_room.simps [of g s])
    then show ?thesis using 0(1) s1(2-5) False by (simp add: spec_reserve_last del: map_eq_conv)
  qed
next
  case (Suc m)
  note guard = can_append_iff [OF Suc.prems(1), of g, simplified]
  show ?case
  proof (cases "tk_need (task_of s g) \<le> num_free s")
    case True
    then show ?thesis using Suc.prems(2) guard by (simp add: make_room.simps [of g s])
  next
    case False
    obtain rest v where rv: "running s = rest @ [v]" using Suc(2) by (cases "running s" rule: rev_cases) auto
    obtain s1 where s1: "preempt v (s\<lparr>running := rest\<rparr>) swaps = Inr (s1, swaps)" "ginv s1 (kept @ g # rest)" "running s1 = rest"
        "num_free s1 = num_free s + tk_held (task_of s v)" "tasks s1 (kept @ g # rest) = tasks s (kept @ g # rest)"
        "tasks s1 (waiting s1) = (task_of s v)\<lparr>tk_held := 0\<rparr> # tasks s (waiting s)"
        "num_gpu_blocks (block_engine s1) = num_gpu_blocks (block_engine s)"
      using preempt_last_sim [OF Suc.prems(1) rv, of swaps] by (elim exE conjE) (rule that; assumption)
    have "make_room g s1 swaps (pre @ [v]) = Inr (broke, s', swaps', pre')"
      using Suc.prems(2) False guard rv s1(1) by (simp add: make_room.simps [of g s])
    then have IH: "spec_reserve (num_free s1) ks (tasks s1 (g # rest)) (tasks s1 (waiting s1)) =
         spec_reserve (num_free s') ks (if broke then [] else tasks s' (g # running s')) (tasks s' (waiting s'))
       \<and> tasks s' kept = tasks s1 kept \<and> num_gpu_blocks (block_engine s') = num_gpu_blocks (block_engine s1)"
      using Suc.hyps(1) [of s1] Suc.hyps(2) s1(2,3) rv by simp
    have "spec_reserve (num_free s) ks (tasks s (g # running s)) (tasks s (waiting s)) =
        spec_reserve (num_free s1) ks (tasks s1 (g # rest)) (tasks s1 (waiting s1))"
      using False rv s1(4-6) by (simp add: spec_reserve_last cong: map_cong)
    then show ?thesis using IH s1(5,7) by simp
  qed
qed

text \<open>The slot of the next token.\<close>

lemma append_slot_sim:
  assumes inv: "ginv s (kept @ g # running s)" and guard: "can_append_token_to_seq (sequences s) g (block_engine s)"
  shows "\<exists>s2. append_token_slot_to_seq_group g s copies = Inr (s2, copies) \<and> ginv s2 (kept @ g # running s) \<and> running s2 = running s
     \<and> num_gpu_blocks (block_engine s2) = num_gpu_blocks (block_engine s)
     \<and> spec_reserve (num_free s) (tasks s kept) (tasks s (g # running s)) (tasks s (waiting s)) =
       spec_reserve (num_free s2) (tasks s2 (kept @ [g])) (tasks s2 (running s2)) (tasks s2 (waiting s2))"
proof -
  obtain s2 where s2: "append_token_slot_to_seq_group g s copies = Inr (s2, copies)" "ginv s2 (kept @ g # running s)"
      "waiting s2 = waiting s" "running s2 = running s" "same_setup s s2"
      "resized (block_engine s) (sid g) (tk_held (task_of s g) + tk_need (task_of s g)) (block_engine s2)"
    using append_slot_group_ok [OF inv _ guard, of copies] by auto
  have need: "tk_need (task_of s g) \<le> num_free s" using can_append_iff [OF inv, of g] guard by simp
  have "sid g \<notin> sid ` set (kept @ running s)" "sid g \<notin> sid ` set (waiting s)" using group_invD(4) [OF inv] by auto
  note others = this [THEN tasks_others [OF s2(5,6)], unfolded map_append append_eq_append_conv_if]
  show ?thesis
    using s2(1,2) need s2(3,4) others task_of_resized [OF s2(5,6)] by (simp add: spec_reserve.simps(2) cong: map_cong)
qed

lemma reserve_slots_sim:
  "ginv s (kept @ running s) \<Longrightarrow> reserve_slots s kept swaps copies pre = Inr (s', kept', swaps', copies', pre') \<Longrightarrow>
   spec_reserve (num_free s) (tasks s kept) (tasks s (running s)) (tasks s (waiting s)) =
     (tasks s' kept', num_free s', tasks s' (waiting s'))
   \<and> num_gpu_blocks (block_engine s') = num_gpu_blocks (block_engine s)"
proof (induction "length (running s)" arbitrary: s kept swaps copies pre rule: less_induct)
  case less
  show ?case
  proof (cases "running s")
    case Nil
    then show ?thesis using less.prems by (simp add: reserve_slots.simps [of s])
  next
    case (Cons g rest)
    let ?s = "s\<lparr>running := rest\<rparr>"
    have inv: "ginv ?s (kept @ g # running ?s)" using less.prems(1) Cons by simp
    obtain n s1 broke pre1 where mr: "make_room g ?s swaps pre = Inr (broke, s1, swaps, pre1)"
        "running s1 = take n rest" "broke \<longrightarrow> n = 0"
        "\<not> broke \<longrightarrow> ginv s1 (kept @ g # running s1) \<and> can_append_token_to_seq (sequences s1) g (block_engine s1)"
      using make_room_ok [OF inv, of swaps pre] by (auto split: if_splits)
    note sim = make_room_sim [OF inv mr(1), of "tasks s kept", simplified]
    show ?thesis
    proof (cases broke)
      case True
      then have "s' = s1" "kept' = kept"
        using mr(1-3) less.prems(2) Cons by (auto simp: reserve_slots.simps [of s] reserve_slots.simps [of s1])
      then show ?thesis using sim True Cons by simp
    next
      case False
      then obtain s2 where s2: "append_token_slot_to_seq_group g s1 copies = Inr (s2, copies)" "ginv s2 (kept @ g # running s1)"
          "running s2 = running s1" "num_gpu_blocks (block_engine s2) = num_gpu_blocks (block_engine s1)"
          "spec_reserve (num_free s1) (tasks s1 kept) (tasks s1 (g # running s1)) (tasks s1 (waiting s1)) =
           spec_reserve (num_free s2) (tasks s2 (kept @ [g])) (tasks s2 (running s2)) (tasks s2 (waiting s2))"
        using append_slot_sim [of s1 kept g copies] mr(4) by (elim impE exE conjE) auto
      have "reserve_slots s2 (kept @ [g]) swaps copies pre1 = Inr (s', kept', swaps', copies', pre')"
        using less.prems(2) Cons mr(1) False s2(1) by (simp add: reserve_slots.simps [of s])
      then have "spec_reserve (num_free s2) (tasks s2 (kept @ [g])) (tasks s2 (running s2)) (tasks s2 (waiting s2)) =
          (tasks s' kept', num_free s', tasks s' (waiting s'))
        \<and> num_gpu_blocks (block_engine s') = num_gpu_blocks (block_engine s2)"
        using less.hyps [of s2 "kept @ [g]"] s2(2,3) mr(2) Cons by simp
      then show ?thesis using sim False Cons s2(4,5) by (simp cong: map_cong)
    qed
  qed
qed

subsection \<open>Admission\<close>

lemma view_start:
  assumes inv: "ginv s (running s)" and w: "waiting s = g # rest" and s1: "waiting s1 = rest" "running s1 = running s @ [g]"
    "same_setup s s1" "resized (block_engine s) (sid g) m (block_engine s1)" "tk_size (task_of s g) = m"
  shows "view s1 = (view s)\<lparr>q_waiting := tasks s rest, q_running := q_running (view s) @ [(task_of s g)\<lparr>tk_held := m\<rparr>],
     q_free := num_free s - m\<rparr>"
proof -
  have "sid g \<notin> sid ` set rest" "sid g \<notin> sid ` set (running s)" using group_invD(4) [OF inv] w by auto
  note others = this [THEN tasks_others [OF s1(3,4)]]
  have "sid g \<notin> set (keys (block_tables (block_engine s)))" using group_invD(4,5) [OF inv] w by auto
  then have "map_of (block_tables (block_engine s)) (sid g) = None" by (metis map_of_eq_None_iff list.set_map)
  then have "tk_held (task_of s g) = 0" by (simp add: table_of_def)
  then show ?thesis
    using s1 task_of_resized [OF s1(3,4)] others by (simp add: view_def same_setup_def del: map_eq_conv)
qed

lemma admit_sim:
  "ginv s (running s) \<Longrightarrow> case spec_admit sched (view s) of
      None \<Rightarrow> admit s sched ign = Inl (Panic UnwrapNone)
    | Some (batch, q) \<Rightarrow> \<exists>s'. admit s sched ign = Inr (s', batch, ign) \<and> view s' = q"
proof (induction "length (waiting s)" arbitrary: s sched)
  case 0
  then show ?case by (simp add: admit.simps [of s] spec_admit.simps [of sched] view_def)
next
  case (Suc m)
  obtain g rest where w: "waiting s = g # rest" using Suc(2) by (cases "waiting s") auto
  have size: "get_total_logical_token_blocks (sequences s) g = tk_size (task_of s g)"
    using group_invD(3) [OF Suc.prems, of g] w by (simp add: single_ok_def get_total_logical_token_blocks_def)
  have view: "q_waiting (view s) = task_of s g # tasks s rest" "q_limit (view s) = max_num_seqs (config s)"
      "length (q_running (view s)) = num_running_seqs s" "q_free (view s) = num_free s"
      "q_total (view s) = num_gpu_blocks (block_engine s)"
    using w num_running_single [OF Suc.prems] by (simp_all add: view_def)
  note spec = spec_admit.simps [of sched "view s", unfolded view, simplified]
  show ?case
  proof (cases "max_num_seqs (config s) = num_running_seqs s + 1
      \<or> num_free s + tk_size (task_of s g) < num_gpu_blocks (block_engine s)")
    case True
    then show ?thesis
      using w size by (auto simp: spec admit.simps [of s] can_allocate_def)
  next
    case go: False
    show ?thesis
    proof (cases "num_free s < tk_size (task_of s g)")
      case True
      then have "admit s sched ign = Inl (Panic UnwrapNone)"
        using admit_no_room [OF Suc.prems w, of sched ign] go w size
        by (simp add: can_allocate_def)
      then show ?thesis using go True by (simp add: spec)
    next
      case False
      then have room: "get_total_logical_token_blocks (sequences s) g \<le> num_free s" using size by simp
      obtain s1 where s1: "start_group g s = Inr (g, s1)" "ginv s1 (running s1)" "same_setup s s1"
          "waiting s1 = rest" "running s1 = running s @ [g]"
          "resized (block_engine s) (sid g) (get_total_logical_token_blocks (sequences s) g) (block_engine s1)"
        using start_group_ok [OF Suc.prems w room] by blast
      have "can_allocate (sequences s) g (block_engine s) = AllocOk"
        using go False size free_le_total [OF group_invD(1) [OF Suc.prems]] by (simp add: can_allocate_def)
      then have code: "admit s sched ign = admit s1 (sched @ [g]) ign"
        using go w s1(1) by (simp add: admit.simps [of s])
      have abs: "spec_admit sched (view s) = spec_admit (sched @ [g]) (view s1)"
        using go False view_start [OF Suc.prems w s1(4,5,3,6)] size by (simp add: spec)
      show ?thesis
        unfolding code abs by (rule Suc.hyps(1)) (use Suc.hyps(2) w s1(2,4) in simp_all)
    qed
  qed
qed

subsection \<open>The operations refine the specification\<close>

lemma sort_key_map: "sort_key f (map h xs) = map h (sort_key (f \<circ> h) xs)"
proof -
  have "insort_key f (h x) (map h ys) = map h (insort_key (f \<circ> h) x ys)" for x ys by (induction ys) auto
  then show ?thesis by (induction xs) auto
qed

lemma schedule_decode_sim:
  assumes "sched_inv s"
  shows "\<exists>out s'. schedule_decode s = Inr (out, s') \<and> sched_inv s' \<and> spec_decode (view s) = (scheduled out, view s')"
proof -
  let ?s = "sort_running_by_priority_fcfs s"
  obtain n out s' s1 pre where d: "schedule_decode s = Inr (out, s')" "sched_inv s'" "config s' = config s"
      "scheduled out = running s'" "reserve_slots ?s [] [] [] [] = Inr (s1, running s', [], [], pre)"
      "s' = sort_swapped_out_by_priority_fcfs (s1\<lparr>running := running s'\<rparr>)"
    using schedule_decode_ok [OF assms] by auto
  have "ginv ?s ([] @ running ?s)"
    using assms group_inv_perm [of _ _ _ "running s" "waiting s" "rev (sort_key sg_arrival_time (running s))"]
    by (auto simp: sort_running_by_priority_fcfs_def sched_inv_def)
  from reserve_slots_sim [OF this d(5)]
  have "spec_reserve (num_free s) [] (tasks s (rev (sort_key sg_arrival_time (running s)))) (tasks s (waiting s)) =
      (tasks s1 (running s'), num_free s1, tasks s1 (waiting s1))"
      "num_gpu_blocks (block_engine s1) = num_gpu_blocks (block_engine s)"
    by (simp_all add: sort_running_by_priority_fcfs_def)
  moreover have fields: "tasks s' = tasks s1" "num_free s' = num_free s1" "waiting s' = waiting s1"
      "num_gpu_blocks (block_engine s') = num_gpu_blocks (block_engine s1)"
    by (subst d(6), simp add: sort_swapped_out_by_priority_fcfs_def)+
  moreover have "(\<lambda>a. sg_arrival_time (tk_group (task_of s a))) = sg_arrival_time" by (simp add: fun_eq_iff)
  then have "rev (sort_key (sg_arrival_time \<circ> tk_group) (q_running (view s))) = tasks s (rev (sort_key sg_arrival_time (running s)))"
    by (simp add: view_def sort_key_map comp_def rev_map)
  ultimately have "spec_decode (view s) = (running s', view s')"
    using d(3) by (simp add: spec_decode_def view_def comp_def)
  then show ?thesis using d(1,2,4) by auto
qed

lemma schedule_sim:
  assumes "sched_inv s"
  shows "case spec_schedule (view s) of
      None \<Rightarrow> schedule s = Inl (Panic UnwrapNone)
    | Some (batch, q) \<Rightarrow> \<exists>out s'. schedule s = Inr (out, s') \<and> scheduled out = batch \<and> view s' = q"
proof -
  have inv: "ginv s (running s)" "swapped_out s = []" using assms by (auto simp: sched_inv_def)
  show ?thesis
  proof (cases "spec_admit [] (view s)")
    case None
    then show ?thesis using admit_sim [OF inv(1), of "[]" "[]"] inv(2) by (simp add: spec_schedule_def schedule_def)
  next
    case (Some p)
    then obtain batch q s' where p: "p = (batch, q)" "admit s [] [] = Inr (s', batch, [])" "view s' = q"
      using admit_sim [OF inv(1), of "[]" "[]"] by (auto split: prod.splits)
    show ?thesis
    proof (cases "batch = []")
      case True
      then have "s' = s" using admit_ok [OF inv(1), of "[]" "[]"] p(2) by auto
      then have "schedule s = schedule_decode s" using p(2) True inv(2) by (simp add: schedule_def)
      then show ?thesis using schedule_decode_sim [OF assms] Some p(1) True by (auto simp: spec_schedule_def)
    next
      case False
      then show ?thesis using Some p inv(2) by (simp add: spec_schedule_def schedule_def)
    qed
  qed
qed

lemma fold_free_sim:
  "ginv s (gs @ rs) \<Longrightarrow> foldE (\<lambda>s g. Scheduler_free g s) s gs = Inr s' \<Longrightarrow>
   num_free s' = num_free s + sum_list (map tk_held (tasks s gs)) \<and> tasks s' (rs @ waiting s) = tasks s (rs @ waiting s)
   \<and> num_gpu_blocks (block_engine s') = num_gpu_blocks (block_engine s)"
proof (induction gs arbitrary: s)
  case (Cons g gs)
  obtain be' where be': "Scheduler_free g s = Inr (s\<lparr>block_engine := be'\<rparr>)"
      "group_inv be' (sequences s) (waiting s) (gs @ rs)" "resized (block_engine s) (sid g) 0 be'"
    using Scheduler_free_single [OF Cons.prems(1), of g] by auto
  let ?s = "s\<lparr>block_engine := be'\<rparr>"
  have same: "same_setup s ?s" "resized (block_engine s) (sid g) 0 (block_engine ?s)" using be'(3) by (simp_all add: same_setup_def)
  have "sid g \<notin> sid ` set gs" "sid g \<notin> sid ` set (rs @ waiting s)" using group_invD(4) [OF Cons.prems(1)] by auto
  note others = this [THEN tasks_others [OF same]]
  have "num_free s' = num_free ?s + sum_list (map tk_held (tasks ?s gs)) \<and> tasks s' (rs @ waiting s) = tasks ?s (rs @ waiting s)
     \<and> num_gpu_blocks (block_engine s') = num_gpu_blocks (block_engine ?s)"
    using Cons.IH [of ?s] Cons.prems(2) be'(1,2) by simp
  then show ?case
    using task_of_resized(3,4) [OF same] unfolding others by (simp del: map_eq_conv map_append map_map)
qed simp

lemma free_finished_sim:
  assumes "sched_inv s" "free_finished_sequence_groups s = Inr s'"
  shows "view s' = spec_retire (SequenceGroup_is_finished (sequences s)) (view s)"
proof -
  let ?fin = "SequenceGroup_is_finished (sequences s)"
  let ?rs = "filter (\<lambda>g. \<not> ?fin g) (running s)"
  let ?s0 = "s\<lparr>running := ?rs\<rparr>"
  have "mset (filter ?fin (running s) @ ?rs) = mset (running s)"
    using multiset_partition [of "mset (running s)" ?fin] by simp
  then have "ginv ?s0 (filter ?fin (running s) @ ?rs)"
    using assms(1) group_inv_perm [of "block_engine s" "sequences s" "waiting s" "running s" "waiting s"]
    by (auto simp: sched_inv_def)
  moreover have f: "foldE (\<lambda>s g. Scheduler_free g s) ?s0 (filter ?fin (running s)) = Inr s'"
    using assms(2) by (simp add: free_finished_sequence_groups_def Let_def)
  ultimately have "num_free s' = num_free s + sum_list (map tk_held (tasks s (filter ?fin (running s))))"
      "tasks s' (?rs @ waiting s) = tasks s (?rs @ waiting s)" "num_gpu_blocks (block_engine s') = num_gpu_blocks (block_engine s)"
    using fold_free_sim [of ?s0 _ ?rs s'] by (simp_all del: map_eq_conv map_append)
  moreover have "waiting s' = waiting s" "running s' = ?rs" "config s' = config s"
    using free_finished_ok [OF assms(1)] assms(2) fold_free_config [OF f] by auto
  moreover have "tasks s' ?rs = tasks s ?rs" "tasks s' (waiting s) = tasks s (waiting s)"
    using \<open>tasks s' (?rs @ waiting s) = tasks s (?rs @ waiting s)\<close> by auto
  ultimately show ?thesis
    by (simp add: view_def spec_retire_def filter_map comp_def del: map_eq_conv)
qed

subsection \<open>Runs\<close>

text \<open>The abstract machine; which groups are finished is up to the environment.\<close>

inductive spec_step :: "queues \<Rightarrow> queues \<Rightarrow> bool" where
  enqueue: "tk_held t = 0 \<Longrightarrow> spec_step q (spec_enqueue t q)"
| scheduling: "spec_schedule q = Some (batch, q') \<Longrightarrow> spec_step q q'"
| token: "need \<le> 1 \<Longrightarrow> spec_step q (spec_token g need q)"
| retire: "spec_step q (spec_retire fin q)"

definition spec_start :: "nat \<Rightarrow> nat \<Rightarrow> queues" where
  "spec_start num_blocks limit = \<lparr>q_waiting = [], q_running = [], q_free = num_blocks, q_total = num_blocks, q_limit = limit\<rparr>"

lemma add_token_blocks:
  "add_token s lp = Inr s' \<Longrightarrow> get_logical_token_blocks s' = get_logical_token_blocks s + blocks_to_add_new_tok s"
  by (auto simp: add_token_def append_token_to_blocks_def Let_def bindE_Inr_iff get_logical_token_blocks_def
      blocks_to_add_new_tok_def split: if_splits option.splits)

lemma no_table_waiting:
  assumes "group_inv be st ws rs" "k \<notin> sid ` set rs"
  shows "table_of be k = []"
proof -
  have "k \<notin> set (keys (block_tables be))" using group_invD(5) [OF assms(1)] assms(2) by simp
  then have "map_of (block_tables be) k = None" by (metis map_of_eq_None_iff list.set_map)
  then show ?thesis by (simp add: table_of_def)
qed

text \<open>Two groups of a state that satisfies the invariant have different sequences.\<close>

lemma arc_neq:
  assumes "ginv s (running s)" "g \<in> set (waiting s @ running s)" "g' \<in> set (waiting s @ running s)" "g \<noteq> g'"
  shows "arc g \<noteq> arc g'"
proof -
  have "inj_on sid (set (waiting s @ running s))" using group_invD(4) [OF assms(1)] by (simp only: distinct_map)
  then have "sid g \<noteq> sid g'" using assms(2-4) by (auto simp: inj_on_def)
  moreover have "single_ok (sequences s) g" "single_ok (sequences s) g'" using group_invD(3) [OF assms(1)] assms(2,3) by auto
  ultimately show ?thesis by (auto simp: single_ok_def)
qed

lemma view_token:
  assumes inv: "sched_inv s" and g: "g \<in> set (running s)" and q: "add_token (sequences s (arc g)) lp = Inr q"
  shows "view (s\<lparr>sequences := (sequences s)(arc g := q)\<rparr>) = spec_token g (blocks_to_add_new_tok q) (view s)"
proof -
  let ?s = "s\<lparr>sequences := (sequences s)(arc g := q)\<rparr>"
  have i: "ginv s (running s)" using inv by (simp add: sched_inv_def)
  have "task_of ?s g' = (if g' = g then (task_of s g)\<lparr>tk_size := tk_size (task_of s g) + tk_need (task_of s g),
      tk_need := blocks_to_add_new_tok q\<rparr> else task_of s g')" if "g' \<in> set (waiting s @ running s)" for g'
    using arc_neq [OF i that, of g] g add_token_blocks [OF q] by (auto simp: task_of_def)
  moreover have "g \<notin> set (waiting s)" using group_invD(4) [OF i] g by auto
  ultimately show ?thesis
    by (auto simp: view_def spec_token_def intro!: map_cong)
qed

lemma step_sim: "sched_step s s' \<Longrightarrow> sched_inv s \<Longrightarrow> view s' = view s \<or> spec_step (view s) (view s')"
proof (induction rule: sched_step.induct)
  case (enqueue g q a s)
  let ?s = "add_sequence g (s\<lparr>sequences := (sequences s)(a := q)\<rparr>)"
  have "sid g = seq_id q" "arc g = a" using enqueue.hyps(1) by (auto simp: sid_def arc_def)
  then have new: "tk_held (task_of ?s g) = 0"
    using enqueue.hyps(3) enqueue.prems no_table_waiting [of "block_engine s" "sequences s" "waiting s" "running s" "sid g"]
    by (auto simp: sched_inv_def add_sequence_def)
  have "task_of ?s g' = task_of s g'" if "g' \<in> set (waiting s @ running s)" for g'
    using that enqueue.hyps(4) by (auto simp: task_of_def add_sequence_def)
  then have "tasks ?s (waiting s) = tasks s (waiting s)" "tasks ?s (running s) = tasks s (running s)" by simp_all
  moreover have "waiting ?s = waiting s @ [g]" "running ?s = running s" "block_engine ?s = block_engine s" "config ?s = config s"
    by (simp_all add: add_sequence_def)
  ultimately have "view ?s = spec_enqueue (task_of ?s g) (view s)"
    unfolding view_def spec_enqueue_def by simp
  then show ?case using spec_step.enqueue [OF new] by simp
next
  case (scheduling s out s')
  then show ?case using schedule_sim [OF scheduling.prems] by (auto split: option.splits intro: spec_step.scheduling)
next
  case (token g s lp q)
  then show ?case using view_token blocks_to_add_cases [of q] spec_step.token by (metis le_numeral_extra(4) zero_le_one)
next
  case (finish g s reason)
  have "task_of (s\<lparr>sequences := (sequences s)(arc g := set_finish_reason (sequences s (arc g)) reason)\<rparr>) = task_of s"
    by (auto simp: fun_eq_iff task_of_def set_finish_reason_def get_logical_token_blocks_def blocks_to_add_new_tok_def)
  then show ?case by (simp add: view_def)
next
  case (freeing_finished s s')
  then show ?case using free_finished_sim spec_step.retire by metis
qed

interpretation scheduler_sim: forward_simulation sched_step sched_inv spec_step view
  by unfold_locales (auto dest: sched_inv_step step_sim)

lemma reachable_run:
  "reachable cfg cache s \<Longrightarrow> \<exists>st s0. Scheduler_new cfg cache st = Inr s0 \<and> sched_step\<^sup>*\<^sup>* s0 s"
  by (induction rule: reachable.induct) (auto intro: rtranclp.rtrancl_into_rtrancl)

text \<open>The specification conserves blocks.\<close>

definition blocks_held :: "task list \<Rightarrow> nat" where
  "blocks_held ts = sum_list (map tk_held ts)"

lemma blocks_held_simps [simp]: "blocks_held [] = 0" "blocks_held (t # ts) = tk_held t + blocks_held ts"
  "blocks_held (ts @ us) = blocks_held ts + blocks_held us"
  by (simp_all add: blocks_held_def)

lemma spec_admit_conserves:
  "spec_admit batch q = Some (batch', q') \<Longrightarrow> q_free q' + blocks_held (q_running q') = q_free q + blocks_held (q_running q)
     \<and> q_total q' = q_total q"
proof (induction batch q rule: spec_admit.induct)
  case (1 batch q)
  show ?case
  proof (cases "q_waiting q")
    case Nil
    then show ?thesis using 1(2) by (simp add: spec_admit.simps [of batch])
  next
    case (Cons t ts)
    then show ?thesis using 1(1) [OF Cons] 1(2) by (simp add: spec_admit.simps [of batch] split: if_splits)
  qed
qed

lemma spec_reserve_conserves:
  "spec_reserve free kept ts ws = (kept', free', ws') \<Longrightarrow> free' + blocks_held kept' = free + blocks_held (kept @ ts)"
proof (induction free kept ts ws rule: spec_reserve.induct)
  case (2 free kept t ts ws)
  show ?case
  proof (cases "tk_need t \<le> free")
    case True
    then show ?thesis using 2(1) 2(3) by (simp add: spec_reserve.simps(2) [of free kept t])
  next
    case False
    have "blocks_held (t # ts) = blocks_held (butlast (t # ts)) + tk_held (last (t # ts))"
      by (metis append_butlast_last_id blocks_held_simps add_0_right list.distinct(1))
    then show ?thesis using 2(2) [OF False] 2(3) False by (simp add: spec_reserve.simps(2) [of free kept t])
  qed
qed simp

lemma blocks_held_perm: "mset ts = mset us \<Longrightarrow> blocks_held ts = blocks_held us"
  unfolding blocks_held_def by (metis mset_map sum_mset_sum_list)

lemma spec_decode_conserves:
  "spec_decode q = (batch, q') \<Longrightarrow> q_free q' + blocks_held (q_running q') = q_free q + blocks_held (q_running q)
     \<and> q_total q' = q_total q"
  using blocks_held_perm [of "rev (sort_key (sg_arrival_time \<circ> tk_group) (q_running q))" "q_running q"]
  by (auto simp: spec_decode_def split: prod.splits dest!: spec_reserve_conserves)

lemma spec_step_conserves:
  "spec_step q q' \<Longrightarrow> q_free q + blocks_held (q_running q) = q_total q \<Longrightarrow>
   q_free q' + blocks_held (q_running q') = q_total q' \<and> q_total q' = q_total q"
proof (induction rule: spec_step.induct)
  case (scheduling q batch q')
  then obtain batch1 q1 where "spec_admit [] q = Some (batch1, q1)"
      "(batch, q') = (if batch1 = [] then spec_decode q else (batch1, q1))"
    by (auto simp: spec_schedule_def split: option.splits)
  then show ?case
    using spec_admit_conserves [of "[]" q] spec_decode_conserves [of q batch q'] scheduling.prems by (auto split: if_splits)
next
  case (token need q g)
  then show ?case by (simp add: spec_token_def blocks_held_def comp_def if_distrib cong: if_cong)
next
  case (retire q fin)
  have "blocks_held (filter (\<lambda>t. fin (tk_group t)) ts) + blocks_held (filter (\<lambda>t. \<not> fin (tk_group t)) ts) = blocks_held ts" for ts
    by (induction ts) auto
  then show ?case using retire by (simp add: spec_retire_def blocks_held_def [symmetric] add.assoc)
qed (simp add: spec_enqueue_def)

text \<open>Somebody is preempted exactly when the free blocks do not suffice for all.\<close>

lemma spec_reserve_waiting:
  "spec_reserve free kept ts ws = (kept', free', ws') \<Longrightarrow> length ws \<le> length ws'
     \<and> (sum_list (map tk_need ts) \<le> free \<longrightarrow> ws' = ws) \<and> (free < sum_list (map tk_need ts) \<longrightarrow> length ws < length ws')"
proof (induction free kept ts ws rule: spec_reserve.induct)
  case (2 free kept t ts ws)
  show ?case
  proof (cases "tk_need t \<le> free")
    case True
    then have "spec_reserve (free - tk_need t) (kept @ [t\<lparr>tk_held := tk_held t + tk_need t\<rparr>]) ts ws = (kept', free', ws')"
      using 2(3) by (simp add: spec_reserve.simps(2) [of free kept t])
    then show ?thesis using 2(1) [OF True] True by auto
  next
    case False
    then have "spec_reserve (free + tk_held (last (t # ts))) kept (butlast (t # ts)) ((last (t # ts))\<lparr>tk_held := 0\<rparr> # ws) = (kept', free', ws')"
      using 2(3) by (simp only: spec_reserve.simps(2) [of free kept t] if_False)
    then have "length (last (t # ts)\<lparr>tk_held := 0\<rparr> # ws) \<le> length ws'" using 2(2) [OF False] by blast
    then show ?thesis using False by simp
  qed
qed simp

definition conserved :: "nat \<Rightarrow> queues \<Rightarrow> bool" where
  "conserved num_blocks q \<longleftrightarrow> q_free q + blocks_held (q_running q) = q_total q \<and> q_total q = num_blocks"

lemma reachable_conserved:
  assumes "reachable cfg cache s" "cc_num_gpu_blocks cache = Some num_blocks"
  shows "conserved num_blocks (view s) \<and> spec_step\<^sup>*\<^sup>* (spec_start num_blocks (max_num_seqs cfg)) (view s)"
proof -
  obtain st s0 where s0: "Scheduler_new cfg cache st = Inr s0" "sched_step\<^sup>*\<^sup>* s0 s" using reachable_run [OF assms(1)] by blast
  have v: "view s0 = spec_start num_blocks (max_num_seqs cfg)"
    using s0(1) assms(2) by (auto simp: Scheduler_new_def bindE_Inr_iff view_def spec_start_def)
  have inv: "sched_inv s0" by (rule sched_inv_new [OF s0(1)])
  have "conserved num_blocks (view s)"
    by (rule scheduler_sim.run_abs_invariant [OF s0(2) inv, of "conserved num_blocks"])
      (auto simp: v conserved_def spec_start_def dest: spec_step_conserves)
  then show ?thesis using scheduler_sim.run_simulates [OF s0(2) inv] v by simp
qed

subsection \<open>Properties\<close>

text \<open>
  C3: \<open>schedule\<close> is the queue algorithm of the specification.  In a state that satisfies the invariant the specification, run on the
  queues and the number of free blocks, says whether \<open>schedule\<close> panics; when it does not, the groups that are scheduled, the
  new queues in their order, the blocks each group holds and the number of free blocks are those of the
  specification.  Freeing the finished groups is its abstract operation too.
\<close>

theorem schedule_refines_queues:
  assumes "sched_inv s"
  shows "(case spec_schedule (view s) of
        None \<Rightarrow> schedule s = Inl (Panic UnwrapNone)
      | Some (batch, q) \<Rightarrow> \<exists>out s'. schedule s = Inr (out, s') \<and> scheduled out = batch \<and> view s' = q)
    \<and> (\<exists>s'. free_finished_sequence_groups s = Inr s' \<and> view s' = spec_retire (SequenceGroup_is_finished (sequences s)) (view s))"
proof -
  obtain s' where "free_finished_sequence_groups s = Inr s'" using free_finished_ok [OF assms] by blast
  then show ?thesis using schedule_sim [OF assms] free_finished_sim [OF assms] by auto
qed

theorem schedule_refines_queues_witness:
  "\<exists>out s'. schedule busy_scheduler = Inr (out, s') \<and> scheduled out = [sample_group [6] 20]
     \<and> q_free (view s') = 1 \<and> map tk_held (q_running (view s')) = [2] \<and> map tk_group (q_waiting (view s')) = [sample_group [5] 10]"
proof -
  have v: "view busy_scheduler = \<lparr>q_waiting = [],
      q_running = [\<lparr>tk_group = sample_group [5] 10, tk_size = 1, tk_need = 1, tk_held = 1\<rparr>,
                   \<lparr>tk_group = sample_group [6] 20, tk_size = 1, tk_need = 1, tk_held = 1\<rparr>],
      q_free = 1, q_total = 3, q_limit = 8\<rparr>"
    by (simp add: view_def task_of_def busy_scheduler_def arc_def sid_def two_owners_def get_num_free_blocks_def table_of_def)
  have "spec_schedule (view busy_scheduler) = Some ([sample_group [6] 20], \<lparr>q_waiting =
      [\<lparr>tk_group = sample_group [5] 10, tk_size = 1, tk_need = 1, tk_held = 0\<rparr>],
      q_running = [\<lparr>tk_group = sample_group [6] 20, tk_size = 1, tk_need = 1, tk_held = 2\<rparr>],
      q_free = 1, q_total = 3, q_limit = 8\<rparr>)"
    by (simp add: v spec_schedule_def spec_admit.simps spec_decode_def spec_reserve.simps)
  then show ?thesis using schedule_refines_queues [OF sched_inv_busy] by auto
qed

text \<open>
  C2: every run of the scheduler, for queued groups of one sequence with a logical block, is a run of the specification.  Whatever the order of the calls, the queues, the blocks each
  group holds and the free blocks of a reachable scheduler are those of a run of the abstract machine, which
  starts with all blocks free; so the free blocks and the blocks the running groups hold always add up to the configured number.
\<close>

theorem reachable_refines_queues:
  assumes "reachable cfg cache s" "cc_num_gpu_blocks cache = Some num_blocks"
  shows "spec_step\<^sup>*\<^sup>* (spec_start num_blocks (max_num_seqs cfg)) (view s)
    \<and> num_free s + sum_list (map (\<lambda>g. length (table_of (block_engine s) (sid g))) (running s)) = num_blocks"
proof -
  have "conserved num_blocks (view s)" using reachable_conserved [OF assms] by simp
  then have "num_free s + sum_list (map (\<lambda>g. length (table_of (block_engine s) (sid g))) (running s)) = num_blocks"
    by (simp add: conserved_def view_def blocks_held_def comp_def)
  then show ?thesis using reachable_conserved [OF assms] by simp
qed

theorem reachable_refines_queues_witness:
  "spec_step\<^sup>*\<^sup>* (spec_start 4 8) (view (fresh_scheduler 3))"
  using reachable_refines_queues [OF reachable_queued, of 4] by (simp add: sample_cache_def)

text \<open>
  C6: nobody is preempted without need.  When the admission lets nobody in, \<open>schedule\<close> leaves the waiting queue as
  it is, so that every running group keeps its place, exactly when the free blocks suffice for the blocks that the next tokens of all running
  groups need.
\<close>

theorem preempts_iff_short:
  assumes inv: "sched_inv s"
    and none: "waiting s = [] \<or> max_num_seqs (config s) = num_running_seqs s + 1
       \<or> can_allocate (sequences s) (hd (waiting s)) (block_engine s) = Later"
  shows "\<exists>out s'. schedule s = Inr (out, s')
     \<and> (waiting s' = waiting s \<longleftrightarrow> sum_list (map (\<lambda>g. blocks_to_add_new_tok (sequences s (arc g))) (running s)) \<le> num_free s)"
proof -
  let ?q = "rev (sort_key (sg_arrival_time \<circ> tk_group) (q_running (view s)))"
  have "admit s [] [] = Inr (s, [], [])" using none by (cases "waiting s") (auto simp: admit.simps [of s])
  then have dec: "schedule s = schedule_decode s" using inv by (simp add: schedule_def sched_inv_def)
  obtain out s' where d: "schedule_decode s = Inr (out, s')" "spec_decode (view s) = (scheduled out, view s')"
    using schedule_decode_sim [OF inv] by blast
  obtain kept free ws where r: "spec_reserve (num_free s) [] ?q (q_waiting (view s)) = (kept, free, ws)"
    by (cases "spec_reserve (num_free s) [] ?q (q_waiting (view s))") auto
  have "q_free (view s) = num_free s" by (simp add: view_def)
  then have "view s' = (view s)\<lparr>q_waiting := ws, q_running := kept, q_free := free\<rparr>"
    using d(2) r by (auto simp: spec_decode_def)
  then have "q_waiting (view s') = ws" by simp
  then have ws: "ws = tasks s' (waiting s')" by (simp add: view_def)
  have "mset (map tk_need ?q) = mset (map tk_need (q_running (view s)))" by simp
  then have "sum_list (map tk_need ?q) = sum_list (map tk_need (q_running (view s)))" by (metis sum_mset_sum_list)
  moreover have "map tk_need (q_running (view s)) = map (\<lambda>g. blocks_to_add_new_tok (sequences s (arc g))) (running s)"
    by (simp add: view_def)
  ultimately have need: "sum_list (map tk_need ?q) = sum_list (map (\<lambda>g. blocks_to_add_new_tok (sequences s (arc g))) (running s))"
    by simp
  have "waiting s' = waiting s" if "ws = q_waiting (view s)"
  proof -
    have "map tk_group ws = waiting s" using that by (simp add: view_def comp_def)
    then show ?thesis by (simp add: ws comp_def)
  qed
  moreover have "length (waiting s') = length ws" "length (waiting s) = length (q_waiting (view s))"
    by (simp_all add: ws view_def)
  ultimately have "waiting s' = waiting s \<longleftrightarrow> sum_list (map tk_need ?q) \<le> num_free s"
    using spec_reserve_waiting [OF r] by (metis linorder_not_le order_less_irrefl)
  then show ?thesis using dec d(1) need by auto
qed

theorem preempts_iff_short_witness:
  "\<exists>out s'. schedule busy_scheduler = Inr (out, s') \<and> waiting s' \<noteq> []"
proof -
  have "waiting busy_scheduler = []" "num_free busy_scheduler = 1"
      "map (\<lambda>g. blocks_to_add_new_tok (sequences busy_scheduler (arc g))) (running busy_scheduler) = [1, 1]"
    by (simp_all add: busy_scheduler_def arc_def two_owners_def get_num_free_blocks_def)
  then show ?thesis using preempts_iff_short [OF sched_inv_busy] by auto
qed

end
