(* ===== verification/Cache_Properties.thy ===== *)
theory Cache_Properties
  imports Generate_Properties Scheduling_Refinement
begin

section \<open>The shapes of the caches\<close>

text \<open>
  What the tensors of the cache engine look like from \<open>CacheEngine::new\<close> on: a pair of tensors for every hidden layer, with the shape of the key and the
  value blocks, the data type and the device they were made with.  The swaps and copies of \<open>execute_scheduler_ops\<close> keep that.
\<close>

definition tensor_meta :: "'t candle \<Rightarrow> 't \<Rightarrow> nat list \<times> DType \<times> Device" where
  "tensor_meta cd t = (dims cd t, dtype cd t, device cd t)"

text \<open>What the library documents: \<open>zeros\<close> makes what it is asked for, and copies into a tensor change its cells only.\<close>

definition copies_keep_shapes :: "'t candle \<Rightarrow> bool" where
  "copies_keep_shapes cd \<longleftrightarrow>
     (\<forall>ds dt dev t. zeros cd ds dt dev = Inr t \<longrightarrow> tensor_meta cd t = (ds, dt, dev))
   \<and> (\<forall>sp dst dp len t. dtod_copy cd sp dst dp len = Inr t \<longrightarrow> tensor_meta cd t = tensor_meta cd dst)
   \<and> (\<forall>src so dst dp len t. htod_copy cd src so dst dp len = Inr t \<longrightarrow> tensor_meta cd t = tensor_meta cd dst)
   \<and> (\<forall>func kps vps vec pairs threads ks vs ks' vs'. launch_copy cd func kps vps vec pairs threads ks vs = Inr (ks', vs') \<longrightarrow>
        map (tensor_meta cd) ks' = map (tensor_meta cd) ks \<and> map (tensor_meta cd) vs' = map (tensor_meta cd) vs)"

lemma copies_keep_shapesD:
  assumes "copies_keep_shapes cd"
  shows "zeros cd ds dt dev = Inr t \<Longrightarrow> tensor_meta cd t = (ds, dt, dev)"
    "dtod_copy cd sp dst dp len = Inr t \<Longrightarrow> tensor_meta cd t = tensor_meta cd dst"
    "htod_copy cd src so dst dp len = Inr t \<Longrightarrow> tensor_meta cd t = tensor_meta cd dst"
    "launch_copy cd func kps vps vec pairs threads ks vs = Inr (ks', vs') \<Longrightarrow>
       map (tensor_meta cd) ks' = map (tensor_meta cd) ks \<and> map (tensor_meta cd) vs' = map (tensor_meta cd) vs"
  using assms by (simp_all add: copies_keep_shapes_def del: map_eq_conv)

definition layer_meta :: "'t candle \<Rightarrow> 't \<times> 't \<Rightarrow> (nat list \<times> DType \<times> Device) \<times> (nat list \<times> DType \<times> Device)" where
  "layer_meta cd kv = (tensor_meta cd (fst kv), tensor_meta cd (snd kv))"

definition layer_shapes :: "'t candle \<Rightarrow> 't \<times> 't \<Rightarrow> DType \<Rightarrow> nat option \<Rightarrow> nat list \<Rightarrow> nat list \<Rightarrow> bool" where
  "layer_shapes cd kv dt num_blocks ks vs \<longleftrightarrow>
     (\<exists>nb dev. num_blocks = Some nb \<and> new_cuda cd 0 = Inr dev \<and> layer_meta cd kv = ((nb # ks, dt, dev), (nb # vs, dt, dev)))"

definition cache_inv :: "'t candle \<Rightarrow> ConfigLike \<Rightarrow> CacheConfig \<Rightarrow> DType \<Rightarrow> 't CacheEngine \<Rightarrow> bool" where
  "cache_inv cd cfg cc dt ce \<longleftrightarrow> num_layers ce = get_num_hidden_layers cfg
     \<and> length (gpu_cache ce) = num_layers ce \<and> length (cpu_cache ce) = num_layers ce
     \<and> (\<exists>ks vs. calculate_key_block_shape cd cfg dt (block_size cc) = Inr ks \<and> calculate_value_block_shape cfg (block_size cc) = Inr vs
          \<and> (\<forall>kv \<in> set (gpu_cache ce). layer_shapes cd kv dt (cc_num_gpu_blocks cc) ks vs)
          \<and> (\<forall>kv \<in> set (cpu_cache ce). layer_shapes cd kv dt (cc_num_cpu_blocks cc) ks vs))"

subsection \<open>Allocation\<close>

lemma allocate_layer_shapes:
  assumes "copies_keep_shapes cd" "allocate_layer cd nb dt ks vs = Inr kv"
  shows "layer_shapes cd kv dt nb ks vs"
  using assms(2) copies_keep_shapesD(1) [OF assms(1)]
  by (auto simp: allocate_layer_def layer_shapes_def layer_meta_def bindE_Inr_iff unwrap_def split: option.splits)

lemma allocate_layers_shapes:
  assumes "copies_keep_shapes cd" "mapE (\<lambda>_. allocate_layer cd nb dt ks vs) [0..<n'] = Inr cache"
  shows "length cache = n' \<and> (\<forall>kv \<in> set cache. layer_shapes cd kv dt nb ks vs)"
proof -
  have l: "list_all2 (\<lambda>_ kv. allocate_layer cd nb dt ks vs = Inr kv) [0..<n'] cache" using assms(2) by (simp add: mapE_Inr_iff)
  then have "length cache = n'" by (auto dest: list_all2_lengthD)
  moreover have "allocate_layer cd nb dt ks vs = Inr kv" if "kv \<in> set cache" for kv
    using l that by (auto simp: list_all2_conv_all_nth in_set_conv_nth)
  ultimately show ?thesis using allocate_layer_shapes [OF assms(1)] by blast
qed

lemma cache_inv_new:
  assumes "copies_keep_shapes cd" "CacheEngine_new cd cfg cc dt = Inr ce"
  shows "cache_inv cd cfg cc dt ce"
proof -
  obtain ks vs gpu cpu where "calculate_key_block_shape cd cfg dt (block_size cc) = Inr ks"
      "calculate_value_block_shape cfg (block_size cc) = Inr vs"
      "mapE (\<lambda>_. allocate_layer cd (cc_num_gpu_blocks cc) dt ks vs) [0..<get_num_hidden_layers cfg] = Inr gpu"
      "mapE (\<lambda>_. allocate_layer cd (cc_num_cpu_blocks cc) dt ks vs) [0..<get_num_hidden_layers cfg] = Inr cpu"
      "ce = \<lparr>gpu_cache = gpu, cpu_cache = cpu, num_layers = get_num_hidden_layers cfg\<rparr>"
    using assms(2) by (auto simp: CacheEngine_new_def allocate_gpu_cache_def allocate_cpu_cache_def bindE_Inr_iff)
  then show ?thesis
    using allocate_layers_shapes [OF assms(1)] by (simp add: cache_inv_def)
qed

subsection \<open>Swaps and copies\<close>

lemma swap_blocks_meta:
  assumes lib: "copies_keep_shapes cd" and r: "swap_blocks cd src dst m = Inr dst'"
  shows "tensor_meta cd dst' = tensor_meta cd dst"
proof -
  have dtod: "foldE (\<lambda>dst (s, d). dtod_copy cd (f s) dst (g dst d) len) dst m = Inr dst' \<Longrightarrow> tensor_meta cd dst' = tensor_meta cd dst" for f g len
    by (rule kept_by_loop.loop_keeps [of _ "\<lambda>t. tensor_meta cd t = tensor_meta cd dst"])
      (auto simp: kept_by_loop_def dest: copies_keep_shapesD(2) [OF lib])
  have htod: "foldE (\<lambda>dst (s, d). if c s then Inl (Panic IndexOutOfBounds) else htod_copy cd src (f s) dst (g d) len) dst m = Inr dst'
      \<Longrightarrow> tensor_meta cd dst' = tensor_meta cd dst" for c f g len
    by (rule kept_by_loop.loop_keeps [of _ "\<lambda>t. tensor_meta cd t = tensor_meta cd dst"])
      (auto simp: kept_by_loop_def split: if_splits dest: copies_keep_shapesD(3) [OF lib])
  show ?thesis
    using r by (cases "device cd src"; cases "device cd dst")
      (auto simp: swap_blocks_def bindE_Inr_iff split: if_splits dest: dtod htod)
qed

lemma swap_layer_meta:
  assumes lib: "copies_keep_shapes cd" and r: "swap_layer cd srcs m dsts i = Inr dsts'"
  shows "map (layer_meta cd) dsts' = map (layer_meta cd) dsts"
proof -
  obtain k v where kv: "i < length dsts" "swap_blocks cd (fst (srcs ! i)) (fst (dsts ! i)) m = Inr k"
      "swap_blocks cd (snd (srcs ! i)) (snd (dsts ! i)) m = Inr v" "dsts' = dsts[i := (k, v)]"
    using r by (auto simp: swap_layer_def bindE_Inr_iff try_api_Inr split: if_splits)
  then have "layer_meta cd (k, v) = layer_meta cd (dsts ! i)" using swap_blocks_meta [OF lib] by (simp add: layer_meta_def)
  then show ?thesis using kv(1,4) by (simp add: map_update list_update_same_conv)
qed

lemma swap_layers_meta:
  assumes "copies_keep_shapes cd"
  shows "foldE (swap_layer cd srcs m) dsts is = Inr dsts' \<Longrightarrow> map (layer_meta cd) dsts' = map (layer_meta cd) dsts"
  by (rule kept_by_loop.loop_keeps [of _ "\<lambda>t. map (layer_meta cd) t = map (layer_meta cd) dsts"])
    (auto simp: kept_by_loop_def dest: swap_layer_meta [OF assms])

lemma copy_blocks_meta:
  assumes lib: "copies_keep_shapes cd" and r: "copy_blocks cd ks vs m = Inr (ks', vs')"
  shows "map (tensor_meta cd) ks' = map (tensor_meta cd) ks \<and> map (tensor_meta cd) vs' = map (tensor_meta cd) vs"
proof -
  obtain k where k: "unwrap (first_of ks) = Inr k" using r by (auto simp: copy_blocks_def bindE_Inr_iff)
  obtain ord where "device cd k = Cuda ord" using r k by (cases "device cd k") (auto simp: copy_blocks_def)
  then consider "ks' = ks" "vs' = vs"
    | func kps vps vec pairs threads where "launch_copy cd func kps vps vec pairs threads ks vs = Inr (ks', vs')"
    using r k by (auto simp: copy_blocks_def bindE_Inr_iff split: if_splits)
  then show ?thesis by cases (simp, rule copies_keep_shapesD(4) [OF lib])
qed

lemma cache_inv_same_meta:
  assumes "cache_inv cd cfg cc dt ce" "num_layers ce' = num_layers ce"
    "map (layer_meta cd) (gpu_cache ce') = map (layer_meta cd) (gpu_cache ce)"
    "map (layer_meta cd) (cpu_cache ce') = map (layer_meta cd) (cpu_cache ce)"
  shows "cache_inv cd cfg cc dt ce'"
proof -
  have shapes: "(\<forall>kv \<in> set xs. layer_shapes cd kv dt nb ks vs) \<longleftrightarrow>
      (\<forall>md \<in> set (map (layer_meta cd) xs). \<exists>b dev. nb = Some b \<and> new_cuda cd 0 = Inr dev \<and> md = ((b # ks, dt, dev), (b # vs, dt, dev)))" for xs nb ks vs
    by (simp add: layer_shapes_def)
  have "length (gpu_cache ce') = length (gpu_cache ce)" "length (cpu_cache ce') = length (cpu_cache ce)"
    using assms(3,4) map_eq_imp_length_eq by blast+
  then show ?thesis using assms unfolding cache_inv_def shapes by simp
qed

lemma cache_inv_swap_in:
  assumes "copies_keep_shapes cd" "cache_inv cd cfg cc dt ce" "CacheEngine_swap_in cd m ce = Inr ce'"
  shows "cache_inv cd cfg cc dt ce'"
  by (rule cache_inv_same_meta [OF assms(2)])
    (use assms(3) swap_layers_meta [OF assms(1)] in \<open>auto simp: CacheEngine_swap_in_def bindE_Inr_iff\<close>)

lemma cache_inv_swap_out:
  assumes "copies_keep_shapes cd" "cache_inv cd cfg cc dt ce" "CacheEngine_swap_out cd m ce = Inr ce'"
  shows "cache_inv cd cfg cc dt ce'"
  by (rule cache_inv_same_meta [OF assms(2)])
    (use assms(3) swap_layers_meta [OF assms(1)] in \<open>auto simp: CacheEngine_swap_out_def bindE_Inr_iff\<close>)

lemma cache_inv_copy:
  assumes "copies_keep_shapes cd" "cache_inv cd cfg cc dt ce" "CacheEngine_copy cd m ce = Inr ce'"
  shows "cache_inv cd cfg cc dt ce'"
proof -
  obtain ks vs where c: "copy_blocks cd (map fst (gpu_cache ce)) (map snd (gpu_cache ce)) m = Inr (ks, vs)"
      "ce' = ce\<lparr>gpu_cache := zip ks vs\<rparr>"
    using assms(3) by (auto simp: CacheEngine_copy_def bindE_Inr_iff try_api_Inr)
  note m = copy_blocks_meta [OF assms(1) c(1)]
  have len: "length ks = length (gpu_cache ce)" "length vs = length (gpu_cache ce)"
    using m map_eq_imp_length_eq by (metis length_map)+
  have "map (layer_meta cd) (zip ks vs) = zip (map (tensor_meta cd) ks) (map (tensor_meta cd) vs)"
    using len by (simp add: layer_meta_def zip_map_map split_def)
  also have "\<dots> = map (layer_meta cd) (gpu_cache ce)"
    unfolding conjunct1 [OF m] conjunct2 [OF m] by (simp add: layer_meta_def zip_map_map zip_same_conv_map)
  finally show ?thesis using c(2) by (intro cache_inv_same_meta [OF assms(2)]) simp_all
qed

subsection \<open>Properties\<close>

text \<open>
  C12: the caches keep their shapes, and every block number is in range.  An engine that \<open>CacheEngine::new\<close> returns has a
  pair of tensors for every hidden layer, with the configured number of blocks in front and the computed block shapes behind; carrying out
  what the scheduler decides keeps that and changes nothing else in the engine.  For a scheduler of the same configuration, whatever
  it has been through, the block numbers of a running sequence are smaller than the first dimension of every tensor of the GPU cache.
\<close>

theorem cache_blocks_in_range:
  assumes lib: "copies_keep_shapes cd"
  shows "(CacheEngine_new cd mc cc dt = Inr ce \<longrightarrow> cache_inv cd mc cc dt ce)
    \<and> (cache_inv cd mc cc dt (cache_engine e) \<and> execute_scheduler_ops cd out e = Inr e' \<longrightarrow>
         cache_inv cd mc cc dt (cache_engine e') \<and> e'\<lparr>cache_engine := cache_engine e\<rparr> = e)
    \<and> (cache_inv cd mc cc dt ce \<and> reachable cfg cc s \<and> g \<in> set (running s) \<longrightarrow>
         (\<exists>ids. block_numbers (block_engine s) (table_of (block_engine s) (sid g)) = Inr ids
            \<and> (\<forall>i \<in> set ids. \<forall>(k, v) \<in> set (gpu_cache ce). i < hd (dims cd k) \<and> i < hd (dims cd v))))"
proof (intro conjI impI)
  show "cache_inv cd mc cc dt ce" if "CacheEngine_new cd mc cc dt = Inr ce" by (rule cache_inv_new [OF lib that])
next
  assume a: "cache_inv cd mc cc dt (cache_engine e) \<and> execute_scheduler_ops cd out e = Inr e'"
  then obtain ce1 ce2 ce3 where ops: "CacheEngine_swap_in cd (blocks_to_swap_in out) (cache_engine e) = Inr ce1"
      "CacheEngine_swap_out cd (blocks_to_swap_out out) ce1 = Inr ce2" "CacheEngine_copy cd (blocks_to_copy out) ce2 = Inr ce3"
      "e' = e\<lparr>cache_engine := ce3\<rparr>"
    by (auto simp: execute_scheduler_ops_def bindE_Inr_iff try_api_Inr)
  have "cache_inv cd mc cc dt ce1" using a cache_inv_swap_in [OF lib _ ops(1)] by blast
  then have "cache_inv cd mc cc dt ce2" by (rule cache_inv_swap_out [OF lib _ ops(2)])
  then have "cache_inv cd mc cc dt ce3" by (rule cache_inv_copy [OF lib _ ops(3)])
  then show "cache_inv cd mc cc dt (cache_engine e')" "e'\<lparr>cache_engine := cache_engine e\<rparr> = e" using ops(4) by simp_all
next
  assume a: "cache_inv cd mc cc dt ce \<and> reachable cfg cc s \<and> g \<in> set (running s)"
  let ?be = "block_engine s"
  have inv: "ginv s (running s)" using a reachable_inv by (auto simp: sched_inv_def)
  obtain t where t: "map_of (block_tables ?be) (sid g) = Some t" "set t \<subseteq> gpu_range ?be"
    using running_table [OF inv conjunct2 [OF conjunct2 [OF a]]] by metis
  have "block_numbers ?be (table_of ?be (sid g)) = Inr t"
    using block_numbers_gpu [OF group_invD(1) [OF inv] t(2)] t(1) by (simp add: table_of_def)
  moreover have "i < hd (dims cd k) \<and> i < hd (dims cd v)" if i: "i \<in> set t" and kv: "(k, v) \<in> set (gpu_cache ce)" for i k v
  proof -
    obtain nb where nb: "cc_num_gpu_blocks cc = Some nb" "hd (dims cd k) = nb" "hd (dims cd v) = nb"
      using a kv by (fastforce simp: cache_inv_def layer_shapes_def layer_meta_def tensor_meta_def)
    have "conserved nb (view s)" using reachable_conserved nb(1) a by blast
    then have "num_gpu_blocks ?be = nb" by (simp add: conserved_def view_def)
    then show ?thesis using t(2) i nb by auto
  qed
  ultimately show "\<exists>ids. block_numbers ?be (table_of ?be (sid g)) = Inr ids
      \<and> (\<forall>i \<in> set ids. \<forall>(k, v) \<in> set (gpu_cache ce). i < hd (dims cd k) \<and> i < hd (dims cd v))"
    by auto
qed

lemma copies_keep_shapes_shape_candle: "copies_keep_shapes shape_candle"
  by (simp add: copies_keep_shapes_def shape_candle_def tensor_meta_def)

lemma mapE_const: "mapE (\<lambda>_. Inr x) xs = Inr (map (\<lambda>_. x) xs)"
  by (induction xs) simp_all

theorem cache_blocks_in_range_witness:
  "\<exists>ce s ids. CacheEngine_new shape_candle (dyn_Config config_7b_v2) sample_cache F16 = Inr ce
      \<and> reachable \<lparr>max_num_seqs = 8\<rparr> sample_cache s \<and> running s = [sample_group [5] 10]
      \<and> block_numbers (block_engine s) (table_of (block_engine s) 5) = Inr ids
      \<and> (\<forall>i \<in> set ids. \<forall>(k, v) \<in> set (gpu_cache ce). i < hd (dims shape_candle k))"
proof -
  obtain ce where ce: "CacheEngine_new shape_candle (dyn_Config config_7b_v2) sample_cache F16 = Inr ce"
    by (simp add: CacheEngine_new_def allocate_gpu_cache_def allocate_cpu_cache_def sample_cache_def dyn_Config_def config_7b_v2_def
        calculate_key_block_shape_def calculate_value_block_shape_def get_head_size_def shape_candle_def allocate_layer_def assertE_def mapE_const)
  obtain s where s: "reachable \<lparr>max_num_seqs = 8\<rparr> sample_cache s" "running s = [sample_group [5] 10]"
    using reachable_running [of 8] by auto
  note in_range = cache_blocks_in_range [OF copies_keep_shapes_shape_candle, of "dyn_Config config_7b_v2" sample_cache F16 ce]
  have "cache_inv shape_candle (dyn_Config config_7b_v2) sample_cache F16 ce" using in_range ce by blast
  then obtain ids where "block_numbers (block_engine s) (table_of (block_engine s) (sid (sample_group [5] 10))) = Inr ids"
      "\<forall>i \<in> set ids. \<forall>(k, v) \<in> set (gpu_cache ce). i < hd (dims shape_candle k) \<and> i < hd (dims shape_candle v)"
    using in_range s by (metis list.set_intros(1))
  then show ?thesis using ce s by (intro exI [of _ ce] exI [of _ s] exI [of _ ids]) (auto simp: sid_def)
qed

end
