(* ===== verification/Copy_Kernel.thy ===== *)
theory Copy_Kernel
  imports Cache_Engine "HOL-Library.Multiset"
begin

section \<open>The copy kernel\<close>

text \<open>
  \<open>copy_blocks_internal_kernel\<close> of \<open>kernels/copy_blocks_kernel.cu\<close> on one cache of one layer, the cache as the list of
  its cells.  A thread takes every \<open>blockDim.x\<close>-th cell of its pair of blocks; the
  copies of single cells of all threads happen in any order.  The kernel does the same for the key and the value cache
  of every layer, which are different tensors.

  The kernel has four parameters; \<open>copy_blocks\<close> launches it with three arguments.  What the kernel reads as its fourth,
  \<open>numel_per_block\<close>, is therefore an argument of the model, \<open>numel_arg\<close>, of which the launch says nothing.  That the vectors of the host, whose pointers are
  passed, can be read on the device is taken for granted.
\<close>

text \<open>The values of \<open>int\<close> and \<open>int64_t\<close>, with wrap-around.\<close>

definition to_i32 :: "int \<Rightarrow> int" where
  "to_i32 k = signed_take_bit 31 k"

definition to_i64 :: "int \<Rightarrow> int" where
  "to_i64 k = signed_take_bit 63 k"

text \<open>\<open>for (int i = threadIdx.x; i < numel_per_block; i += blockDim.x)\<close>, \<open>None\<close> when it does not end: near the largest \<open>int\<close> the index wraps around.\<close>

partial_function (option) thread_indices :: "int \<Rightarrow> int \<Rightarrow> int \<Rightarrow> int list option" where
  "thread_indices numel_arg block_dim i =
     (if i < numel_arg
      then Option.bind (thread_indices numel_arg block_dim (to_i32 (i + block_dim))) (\<lambda>rest. Some (i # rest))
      else Some [])"

text \<open>The copies of one thread of the pair \<open>pair_idx\<close>: the offset that is read and the offset that is written.\<close>

definition thread_copies :: "int list \<Rightarrow> int \<Rightarrow> int \<Rightarrow> nat \<Rightarrow> int \<Rightarrow> (int \<times> int) list option" where
  "thread_copies block_mapping numel_arg block_dim pair_idx thread_idx =
     (let src_block_offset = to_i64 (block_mapping ! (2 * pair_idx) * numel_arg);
          dst_block_offset = to_i64 (block_mapping ! (2 * pair_idx + 1) * numel_arg)
      in map_option (map (\<lambda>i. (to_i64 (src_block_offset + i), to_i64 (dst_block_offset + i))))
           (thread_indices numel_arg block_dim thread_idx))"

text \<open>\<open>cache[dst_offset] = cache[src_offset]\<close>, \<open>None\<close> for an access outside of the cache.\<close>

definition copy_cell :: "int \<times> int \<Rightarrow> 'c list \<Rightarrow> 'c list option" where
  "copy_cell = (\<lambda>(src_offset, dst_offset) cache.
     if src_offset \<in> {0..<int (length cache)} \<and> dst_offset \<in> {0..<int (length cache)}
     then Some (cache[nat dst_offset := cache ! nat src_offset]) else None)"

fun copy_cells :: "(int \<times> int) list \<Rightarrow> 'c list \<Rightarrow> 'c list option" where
  "copy_cells [] cache = Some cache"
| "copy_cells (p # ps) cache = Option.bind (copy_cell p cache) (copy_cells ps)"

text \<open>
  The launch of \<open>copy_blocks\<close>: a row of the grid for every pair, and as many threads as a block has cells, at most 1024.
\<close>

definition launch_copies :: "int list \<Rightarrow> nat \<Rightarrow> int \<Rightarrow> (int \<times> int) list option" where
  "launch_copies block_mapping numel_per_block numel_arg =
     (let block_dim = min numel_per_block 1024 in
      map_option concat (those (map (\<lambda>(pair_idx, thread_idx).
          thread_copies block_mapping numel_arg (int block_dim) pair_idx (int thread_idx))
        (List.product [0..<length block_mapping div 2] [0..<block_dim]))))"

subsection \<open>Without wrap-around\<close>

lemma to_i32_id: "0 \<le> k \<Longrightarrow> k < 2 ^ 31 \<Longrightarrow> to_i32 k = k"
  by (simp add: to_i32_def signed_take_bit_int_eq_self_iff)

lemma to_i64_id: "0 \<le> k \<Longrightarrow> k < 2 ^ 63 \<Longrightarrow> to_i64 k = k"
  by (simp add: to_i64_def signed_take_bit_int_eq_self_iff)

text \<open>The indices of a thread as natural numbers.\<close>

function steps :: "nat \<Rightarrow> nat \<Rightarrow> nat \<Rightarrow> nat list" where
  "steps m d i = (if i < m \<and> 0 < d then i # steps m d (i + d) else [])"
  by pat_completeness auto
termination
  by (relation "measure (\<lambda>(m, _, i). m - i)") auto

declare steps.simps [simp del]

lemma thread_indices_steps:
  "0 < d \<Longrightarrow> m + d \<le> 2 ^ 31 \<Longrightarrow> thread_indices (int m) (int d) (int i) = Some (map int (steps m d i))"
proof (induction m d i rule: steps.induct)
  case (1 m d i)
  show ?case
  proof (cases "i < m")
    case True
    then have "to_i32 (int i + int d) = int (i + d)" using 1(3) to_i32_id [of "int (i + d)"] by simp
    then show ?thesis using True 1 by (simp add: thread_indices.simps [of "int m" "int d" "int i"] steps.simps [of m d i])
  next
    case False
    then show ?thesis by (simp add: thread_indices.simps [of "int m" "int d" "int i"] steps.simps [of m d i])
  qed
qed

lemma steps_set: "0 < d \<Longrightarrow> set (steps m d i) = {k. i \<le> k \<and> k < m \<and> k mod d = i mod d}"
proof (induction m d i rule: steps.induct)
  case (1 m d i)
  show ?case
  proof (cases "i < m")
    case True
    have "k = i \<or> i + d \<le> k" if "i \<le> k" "k mod d = i mod d" for k
    proof -
      have "(k - i) mod d = 0" using that by (metis mod_eq_dvd_iff_nat dvd_imp_mod_0)
      then have "d dvd k - i" by presburger
      then show ?thesis using that(1) by (auto dest: dvd_imp_le)
    qed
    then have "{k. i \<le> k \<and> k < m \<and> k mod d = i mod d} = insert i {k. i + d \<le> k \<and> k < m \<and> k mod d = (i + d) mod d}"
      using True by auto
    then show ?thesis using 1 True by (simp add: steps.simps [of m d i])
  next
    case False
    then show ?thesis by (auto simp: steps.simps [of m d i])
  qed
qed

lemma steps_cover: "0 < d \<Longrightarrow> (\<Union>t \<in> {..<d}. set (steps m d t)) = {..<m}"
proof -
  assume d: "0 < d"
  have "k \<in> set (steps m d (k mod d))" if "k < m" for k using d that by (simp add: steps_set)
  then show ?thesis using d by (auto simp: steps_set)
qed

subsection \<open>The copies of a launch\<close>

text \<open>The copies of a pair of blocks.\<close>

definition pair_cells :: "nat \<Rightarrow> nat \<times> nat \<Rightarrow> (nat \<times> nat) set" where
  "pair_cells m b = (\<lambda>i. (fst b * m + i, snd b * m + i)) ` {..<m}"

lemma thread_copies_steps:
  assumes d: "0 < d" "m + d \<le> 2 ^ 31" and v: "v ! (2 * p) = int s" "v ! (2 * p + 1) = int t"
    and room: "Suc s * m \<le> 2 ^ 63" "Suc t * m \<le> 2 ^ 63"
  shows "thread_copies v (int m) (int d) p (int i) = Some (map (\<lambda>k. (int (s * m + k), int (t * m + k))) (steps m d i))"
proof -
  have block: "to_i64 (to_i64 (int b * int m) + int k) = int (b * m + k)" if "Suc b * m \<le> 2 ^ 63" "k < m" for b k
  proof -
    have "b * m + k < 2 ^ 63" using that by simp
    then have "int (b * m + k) < 2 ^ 63" by (simp only: of_nat_less_numeral_power_cancel_iff)
    moreover from this have "int (b * m) < 2 ^ 63" by simp
    ultimately show ?thesis using to_i64_id [of "int (b * m)"] to_i64_id [of "int (b * m + k)"] by simp
  qed
  have "k < m" if "k \<in> set (steps m d i)" for k using that d(1) by (simp add: steps_set)
  then show ?thesis
    using thread_indices_steps [OF d, of i] v block room by (simp add: thread_copies_def Let_def)
qed

lemma those_Some: "(\<And>x. x \<in> set xs \<Longrightarrow> f x = Some (g x)) \<Longrightarrow> those (map f xs) = Some (map g xs)"
  by (induction xs) simp_all

lemma decode_pairs_nth: "even (length v) \<Longrightarrow> p < length v div 2 \<Longrightarrow> decode_pairs v ! p = (nat (v ! (2 * p)), nat (v ! (2 * p + 1)))"
proof (induction v arbitrary: p rule: decode_pairs.induct)
  case (1 a b v)
  then show ?case by (cases p) auto
qed auto

lemma length_decode_pairs: "length (decode_pairs v) = length v div 2"
  by (induction v rule: decode_pairs.induct) auto

lemma launch_copies_ok:
  assumes v: "even (length v)" "\<forall>x \<in> set v. 0 \<le> x" and room: "\<forall>(s, t) \<in> set (decode_pairs v). Suc s * m \<le> 2 ^ 63 \<and> Suc t * m \<le> 2 ^ 63"
    and m: "m + 1024 \<le> 2 ^ 31"
  shows "\<exists>cs. launch_copies v m (int m) = Some cs
     \<and> set cs = (\<lambda>(s, t). (int s, int t)) ` (\<Union>b \<in> set (decode_pairs v). pair_cells m b)"
proof -
  let ?d = "min m 1024" and ?b = "\<lambda>p. decode_pairs v ! p"
  let ?cs = "\<lambda>(p, i). map (\<lambda>k. (int (fst (?b p) * m + k), int (snd (?b p) * m + k))) (steps m ?d i)"
  let ?grid = "List.product [0..<length v div 2] [0..<?d]"
  have thread: "thread_copies v (int m) (int ?d) p (int i) = Some (?cs (p, i))" if "p < length v div 2" "i < ?d" for p i
  proof -
    have nat: "v ! (2 * p) = int (fst (?b p))" "v ! (2 * p + 1) = int (snd (?b p))"
      using that(1) v decode_pairs_nth [OF v(1) that(1)] by simp_all
    have "?b p \<in> set (decode_pairs v)" using that(1) by (simp add: length_decode_pairs)
    then have "Suc (fst (?b p)) * m \<le> 2 ^ 63 \<and> Suc (snd (?b p)) * m \<le> 2 ^ 63" using room by fastforce
    then show ?thesis using thread_copies_steps [of ?d m v p, OF _ _ nat] that(2) m by simp
  qed
  have "those (map (\<lambda>(p, i). thread_copies v (int m) (int ?d) p (int i)) ?grid) = Some (map ?cs ?grid)"
    by (rule those_Some) (auto simp: thread)
  then have "launch_copies v m (int m) = Some (concat (map ?cs ?grid))" by (simp add: launch_copies_def Let_def)
  moreover have "set (concat (map ?cs ?grid)) = (\<lambda>(s, t). (int s, int t)) ` (\<Union>b \<in> set (decode_pairs v). pair_cells m b)"
  proof (cases "m = 0")
    case False
    then have d: "0 < ?d" by simp
    have "set (concat (map ?cs ?grid)) = (\<Union>p \<in> {..<length v div 2}. \<Union>i \<in> {..<?d}. set (?cs (p, i)))" by force
    also have "\<dots> = (\<Union>p \<in> {..<length v div 2}. (\<lambda>k. (int (fst (?b p) * m + k), int (snd (?b p) * m + k))) ` {..<m})"
      unfolding steps_cover [OF d, of m, symmetric] image_UN by simp
    also have "\<dots> = (\<lambda>(s, t). (int s, int t)) ` (\<Union>p \<in> {..<length v div 2}. pair_cells m (?b p))"
      by (simp add: pair_cells_def image_UN image_image)
    also have "(\<Union>p \<in> {..<length v div 2}. pair_cells m (?b p)) = (\<Union>b \<in> set (decode_pairs v). pair_cells m b)"
      using nth_image [of "length (decode_pairs v)" "decode_pairs v"]
      by (simp add: length_decode_pairs lessThan_atLeast0 flip: image_image)
    finally show ?thesis .
  qed (simp add: pair_cells_def)
  ultimately show ?thesis by blast
qed

text \<open>A fourth argument that is not positive: no thread copies anything.\<close>

lemma launch_nothing:
  assumes "numel_arg \<le> 0"
  shows "launch_copies v m numel_arg = Some []"
proof -
  have "thread_copies v numel_arg d p (int i) = Some []" for d p i
    using assms by (simp add: thread_copies_def Let_def thread_indices.simps [of numel_arg d "int i"])
  then have "those (map (\<lambda>(p, i). thread_copies v numel_arg d p (int i)) xs) = Some (map (\<lambda>_. []) xs)" for d xs
    by (intro those_Some) auto
  then show ?thesis by (simp add: launch_copies_def Let_def)
qed

text \<open>A copy inside the cache, with natural numbers as offsets.\<close>

definition move_cell :: "nat \<times> nat \<Rightarrow> 'c list \<Rightarrow> 'c list" where
  "move_cell p cache = cache[snd p := cache ! fst p]"

lemma copy_cells_move:
  "(\<forall>(s, t) \<in> set ps. s < length cache \<and> t < length cache) \<Longrightarrow>
   copy_cells (map (\<lambda>(s, t). (int s, int t)) ps) cache = Some (fold move_cell ps cache)"
proof (induction ps arbitrary: cache)
  case (Cons p ps)
  obtain s t where p: "p = (s, t)" by (cases p)
  have "length (move_cell p cache) = length cache" by (simp add: move_cell_def)
  then show ?case using Cons p by (simp add: copy_cell_def) (simp add: move_cell_def)
qed simp

subsection \<open>Copies in any order\<close>

text \<open>
  Copies whose targets are read by none of them, and in which a target has one source, can be reordered and repeated:
  every target ends with the old content of its source and nothing else changes.
\<close>

lemma copies_any_order:
  assumes "\<And>s s' t. (s, t) \<in> set ps \<Longrightarrow> (s', t) \<in> set ps \<Longrightarrow> s = s'" "\<And>s t. (s, t) \<in> set ps \<Longrightarrow> s \<notin> snd ` set ps"
    "\<And>s t. (s, t) \<in> set ps \<Longrightarrow> t < length cache"
  shows "length (fold move_cell ps cache) = length cache
     \<and> (\<forall>s t. (s, t) \<in> set ps \<longrightarrow> fold move_cell ps cache ! t = cache ! s)
     \<and> (\<forall>k. k \<notin> snd ` set ps \<longrightarrow> fold move_cell ps cache ! k = cache ! k)"
  using assms
proof (induction ps arbitrary: cache)
  case (Cons p ps)
  obtain s t where p: "p = (s, t)" by (cases p)
  let ?c = "move_cell p cache"
  have c: "length ?c = length cache" "?c ! t = cache ! s" "\<And>k. k \<noteq> t \<Longrightarrow> ?c ! k = cache ! k"
    using Cons.prems(3) [of s t] p by (simp_all add: move_cell_def)
  have src: "s' \<noteq> t" "s' \<notin> snd ` set ps" if "(s', t') \<in> set (p # ps)" for s' t'
    using Cons.prems(2) [OF that] p by simp_all
  have IH: "length (fold move_cell ps ?c) = length cache"
      "\<And>s t. (s, t) \<in> set ps \<Longrightarrow> fold move_cell ps ?c ! t = ?c ! s"
      "\<And>k. k \<notin> snd ` set ps \<Longrightarrow> fold move_cell ps ?c ! k = ?c ! k"
    using Cons.IH [of ?c] Cons.prems(1,3) src(2) c(1) by (simp_all, blast+)
  have rest: "fold move_cell ps ?c ! t' = cache ! s'" if "(s', t') \<in> set ps" for s' t'
    using IH(2) [OF that] c(3) src(1) [of s' t'] that by simp
  have "fold move_cell ps ?c ! t = cache ! s"
  proof (cases "t \<in> snd ` set ps")
    case True
    then obtain s' where s': "(s', t) \<in> set ps" by force
    then have "s' = s" using Cons.prems(1) [of s' t s] p by simp
    then show ?thesis using rest [OF s'] by simp
  next
    case False
    then show ?thesis using IH(3) c(2) by simp
  qed
  then show ?case using IH(1,3) c(3) rest p by auto
qed simp

text \<open>The offsets of a block: a cell is in one block.\<close>

lemma offset_inject: "(i :: nat) < m \<Longrightarrow> i' < m \<Longrightarrow> a * m + i = b * m + i' \<longleftrightarrow> a = b \<and> i = i'"
proof -
  assume "i < m" "i' < m"
  then have "(a * m + i) div m = a" "(b * m + i') div m = b" "(a * m + i) mod m = i" "(b * m + i') mod m = i'" by simp_all
  then show ?thesis by metis
qed

lemma pair_cells_iff: "i < m \<Longrightarrow> (x, t * m + i) \<in> pair_cells m b \<longleftrightarrow> snd b = t \<and> x = fst b * m + i"
  by (auto simp: pair_cells_def offset_inject)

text \<open>A block of a cache: its cells.\<close>

definition block_cells :: "nat \<Rightarrow> 'c list \<Rightarrow> nat \<Rightarrow> 'c list" where
  "block_cells m cache b = map (\<lambda>i. cache ! (b * m + i)) [0..<m]"

lemma pair_cells_mem: "(x, t) \<in> pair_cells m b \<longleftrightarrow> (\<exists>i < m. x = fst b * m + i \<and> t = snd b * m + i)"
  by (auto simp: pair_cells_def)

lemma pair_cells_target:
  assumes "set ps = (\<Union>b \<in> set bs. pair_cells m b)" "i < m" "t * m + i \<in> snd ` set ps"
  shows "t \<in> snd ` set bs"
proof -
  obtain x where "(x, t * m + i) \<in> set ps" using assms(3) by force
  then show ?thesis using assms(1,2) by (auto simp: pair_cells_iff)
qed

text \<open>The cells that a list of pairs of blocks copies satisfy the conditions of the last lemma.\<close>

lemma block_cells_copied:
  assumes cells: "set ps = (\<Union>b \<in> set bs. pair_cells m b)" and targets: "distinct (map snd bs)"
    and sources: "fst ` set bs \<inter> snd ` set bs = {}" and room: "\<And>b. b \<in> set bs \<Longrightarrow> snd b < num_blocks"
    and len: "length cache = num_blocks * m"
  shows "length (fold move_cell ps cache) = length cache
     \<and> (\<forall>s t. (s, t) \<in> set ps \<longrightarrow> fold move_cell ps cache ! t = cache ! s)
     \<and> (\<forall>k. k \<notin> snd ` set ps \<longrightarrow> fold move_cell ps cache ! k = cache ! k)"
proof (rule copies_any_order)
  fix s s' t
  assume "(s, t) \<in> set ps" "(s', t) \<in> set ps"
  then obtain b b' i i' where b: "b \<in> set bs" "b' \<in> set bs" "i < m" "i' < m" "s = fst b * m + i" "s' = fst b' * m + i'"
      "t = snd b * m + i" "t = snd b' * m + i'" by (auto simp: cells pair_cells_mem)
  then have "snd b = snd b'" "i = i'" using offset_inject [of i m i' "snd b" "snd b'"] by simp_all
  moreover have "b = b'" using targets b(1,2) calculation(1) by (auto simp: distinct_map dest: inj_onD)
  ultimately show "s = s'" using b(5,6) by simp
next
  fix s t
  assume "(s, t) \<in> set ps"
  then obtain b i where b: "b \<in> set bs" "i < m" "s = fst b * m + i" by (auto simp: cells pair_cells_mem)
  then have "fst b \<notin> snd ` set bs" using sources by (metis disjoint_iff imageI)
  then show "s \<notin> snd ` set ps" using pair_cells_target [OF cells b(2), of "fst b"] b(3) by auto
next
  fix s t
  assume "(s, t) \<in> set ps"
  then obtain b i where b: "b \<in> set bs" "i < m" "t = snd b * m + i" by (auto simp: cells pair_cells_mem)
  then have "Suc (snd b) * m \<le> num_blocks * m" using room [OF b(1)] by (intro mult_le_mono1) simp
  then show "t < length cache" using b len by simp
qed

lemma block_copies:
  assumes cells: "set ps = (\<Union>b \<in> set bs. pair_cells m b)" and targets: "distinct (map snd bs)"
    and sources: "fst ` set bs \<inter> snd ` set bs = {}" and room: "\<And>b. b \<in> set bs \<Longrightarrow> snd b < num_blocks"
    and len: "length cache = num_blocks * m"
  shows "length (fold move_cell ps cache) = length cache"
    and "b \<in> set bs \<Longrightarrow> block_cells m (fold move_cell ps cache) (snd b) = block_cells m cache (fst b)"
    and "k \<notin> snd ` set bs \<Longrightarrow> block_cells m (fold move_cell ps cache) k = block_cells m cache k"
proof -
  note ok = block_cells_copied [OF assms]
  show "length (fold move_cell ps cache) = length cache" using ok by blast
  show "block_cells m (fold move_cell ps cache) (snd b) = block_cells m cache (fst b)" if b: "b \<in> set bs"
  proof -
    have "(fst b * m + i, snd b * m + i) \<in> set ps" if "i < m" for i using b that by (auto simp: cells pair_cells_mem)
    then show ?thesis using ok by (simp add: block_cells_def)
  qed
  show "block_cells m (fold move_cell ps cache) k = block_cells m cache k" if k: "k \<notin> snd ` set bs"
  proof -
    have "k * m + i \<notin> snd ` set ps" if "i < m" for i using pair_cells_target [OF cells that] k by metis
    then show ?thesis using ok by (simp add: block_cells_def)
  qed
qed

text \<open>The copies of a launch in any order.\<close>

lemma launched_order:
  assumes cells: "set order = (\<lambda>(s, t). (int s, int t)) ` (\<Union>b \<in> set bs. pair_cells m b)"
    and bs: "distinct (map snd bs)" "fst ` set bs \<inter> snd ` set bs = {}" "\<forall>(s, t) \<in> set bs. s < num_blocks \<and> t < num_blocks"
    and len: "length cache = num_blocks * m"
  shows "\<exists>cache'. copy_cells order cache = Some cache' \<and> length cache' = length cache
     \<and> (\<forall>(s, t) \<in> set bs. block_cells m cache' t = block_cells m cache s)
     \<and> (\<forall>k. k \<notin> snd ` set bs \<longrightarrow> block_cells m cache' k = block_cells m cache k)"
proof -
  let ?ps = "map (\<lambda>(s, t). (nat s, nat t)) order"
  have "(\<lambda>(s, t). (nat s, nat t)) ` (\<lambda>(s, t). (int s, int t)) ` A = A" for A by (force simp: image_image split_def)
  then have ps: "set ?ps = (\<Union>b \<in> set bs. pair_cells m b)" using cells by simp
  have "map (\<lambda>(s, t). (int s, int t)) ?ps = order"
    by (rule nth_equalityI) (use cells nth_mem in \<open>fastforce simp: split_def\<close>)+
  moreover have "s < length cache \<and> t < length cache" if st: "(s, t) \<in> set ?ps" for s t
  proof -
    obtain b i where b: "b \<in> set bs" "i < m" "s = fst b * m + i" "t = snd b * m + i" using st unfolding ps by (auto simp: pair_cells_def)
    have "fst b < num_blocks" "snd b < num_blocks" using bs(3) b(1) by auto
    then have "Suc (fst b) * m \<le> num_blocks * m" "Suc (snd b) * m \<le> num_blocks * m" by (intro mult_le_mono1; simp)+
    then show ?thesis using b(2-4) len by simp
  qed
  then have "\<forall>(s, t) \<in> set ?ps. s < length cache \<and> t < length cache" by blast
  note copy_cells_move [OF this]
  ultimately have run: "copy_cells order cache = Some (fold move_cell ?ps cache)" by (simp only:)
  have room: "snd b < num_blocks" if "b \<in> set bs" for b using bs(3) that by auto
  show ?thesis using run block_copies [OF ps bs(1,2) room len] by fastforce
qed

text \<open>
  C17: the copy kernel copies blocks.  For a mapping in which no block is a target twice
  or both source and target, and a cache of \<open>num_blocks\<close> blocks that has all of them, \<open>copy_blocks\<close> encodes the mapping
  as a vector.  When the kernel reads the number of cells of a block as its fourth argument, and neither the index of a thread nor an offset exceeds its type, then
  every thread of the launched grid ends, and in whatever order the threads do their copies of single cells, no access is outside of the cache, the cache keeps
  its size, every target block ends with the old content of its source block and every other block is unchanged.  The launch in the code
  leaves that argument out; when what the kernel reads instead is not positive, no thread copies anything.
\<close>

theorem copy_kernel_copies_blocks:
  assumes "distinct (map snd (mapping_pairs mapping))" "fst ` set (mapping_pairs mapping) \<inter> snd ` set (mapping_pairs mapping) = {}"
    "\<forall>(s, t) \<in> set (mapping_pairs mapping). s < num_blocks \<and> t < num_blocks" "length cache = num_blocks * numel_per_block"
    "numel_per_block + 1024 \<le> 2 ^ 31" "num_blocks * numel_per_block \<le> 2 ^ 63"
    "\<forall>(src, dsts) \<in> set mapping. src < 2 ^ 63 \<and> (\<forall>d \<in> set dsts. d < 2 ^ 63)"
  shows "\<exists>v copies. block_mapping_vec mapping = Inr v \<and> launch_copies v numel_per_block (int numel_per_block) = Some copies
     \<and> (\<forall>order. mset order = mset copies \<longrightarrow> (\<exists>cache'. copy_cells order cache = Some cache' \<and> length cache' = length cache
        \<and> (\<forall>(s, t) \<in> set (mapping_pairs mapping). block_cells numel_per_block cache' t = block_cells numel_per_block cache s)
        \<and> (\<forall>k. k \<notin> snd ` set (mapping_pairs mapping) \<longrightarrow> block_cells numel_per_block cache' k = block_cells numel_per_block cache k)))
     \<and> (\<forall>numel_arg \<le> 0. launch_copies v numel_per_block numel_arg = Some [])"
proof -
  let ?bs = "mapping_pairs mapping" and ?m = numel_per_block
  obtain v where v: "block_mapping_vec mapping = Inr v" "decode_pairs v = ?bs" "even (length v)" "\<forall>x \<in> set v. 0 \<le> x"
    using block_mapping_vec_roundtrip [OF assms(7)] by blast
  have fits: "Suc b * ?m \<le> num_blocks * ?m" if "b < num_blocks" for b using that by (intro mult_le_mono1) simp
  have "\<forall>(s, t) \<in> set (decode_pairs v). Suc s * ?m \<le> 2 ^ 63 \<and> Suc t * ?m \<le> 2 ^ 63"
  proof (intro ballI, clarify)
    fix s t
    assume "(s, t) \<in> set (decode_pairs v)"
    then have "s < num_blocks" "t < num_blocks" using assms(3) v(2) by auto
    then show "Suc s * ?m \<le> 2 ^ 63 \<and> Suc t * ?m \<le> 2 ^ 63" using order_trans [OF fits assms(6)] by blast
  qed
  then obtain copies where copies: "launch_copies v ?m (int ?m) = Some copies"
      "set copies = (\<lambda>(s, t). (int s, int t)) ` (\<Union>b \<in> set ?bs. pair_cells ?m b)"
    using launch_copies_ok [OF v(3,4) _ assms(5)] v(2) by auto
  have "\<exists>cache'. copy_cells order cache = Some cache' \<and> length cache' = length cache
        \<and> (\<forall>(s, t) \<in> set ?bs. block_cells ?m cache' t = block_cells ?m cache s)
        \<and> (\<forall>k. k \<notin> snd ` set ?bs \<longrightarrow> block_cells ?m cache' k = block_cells ?m cache k)"
    if "mset order = mset copies" for order
    using launched_order [OF mset_eq_setD [OF that, unfolded copies(2)] assms(1-4)] by blast
  then show ?thesis using v(1) copies(1) launch_nothing by blast
qed

theorem copy_kernel_copies_blocks_witness:
  "\<exists>v copies. block_mapping_vec [(0, [2, 3])] = Inr v \<and> launch_copies v 2 2 = Some copies
     \<and> (\<forall>order. mset order = mset copies \<longrightarrow> (\<exists>cache'. copy_cells order [10, 11, 20, 21, 30, 31, 40, 41 :: nat] = Some cache'
          \<and> block_cells 2 cache' 3 = [10, 11] \<and> block_cells 2 cache' 1 = [20, 21]))
     \<and> launch_copies v 2 0 = Some []"
proof -
  have *: "block_cells 2 [10, 11, 20, 21, 30, 31, 40, 41 :: nat] 0 = [10, 11]" "block_cells 2 [10, 11, 20, 21, 30, 31, 40, 41 :: nat] 1 = [20, 21]"
    by (simp_all add: block_cells_def upt_rec)
  have p: "mapping_pairs [(0, [2, 3])] = [(0, 2), (0, 3)]" by (simp add: mapping_pairs_def)
  obtain v copies where vc: "block_mapping_vec [(0, [2, 3])] = Inr v" "launch_copies v 2 (int 2) = Some copies"
      "\<forall>order. mset order = mset copies \<longrightarrow> (\<exists>cache'. copy_cells order [10, 11, 20, 21, 30, 31, 40, 41 :: nat] = Some cache'
        \<and> length cache' = length [10, 11, 20, 21, 30, 31, 40, 41 :: nat]
        \<and> (\<forall>(s, t) \<in> set [(0, 2), (0, 3)]. block_cells 2 cache' t = block_cells 2 [10, 11, 20, 21, 30, 31, 40, 41] s)
        \<and> (\<forall>k. k \<notin> snd ` set [(0 :: nat, 2), (0, 3)] \<longrightarrow> block_cells 2 cache' k = block_cells 2 [10, 11, 20, 21, 30, 31, 40, 41] k))"
      "\<forall>numel_arg \<le> 0. launch_copies v 2 numel_arg = Some []"
    using copy_kernel_copies_blocks [of "[(0, [2, 3])]" 4 "[10, 11, 20, 21, 30, 31, 40, 41 :: nat]" 2, unfolded p] by auto
  have "\<exists>cache'. copy_cells order [10, 11, 20, 21, 30, 31, 40, 41 :: nat] = Some cache'
          \<and> block_cells 2 cache' 3 = [10, 11] \<and> block_cells 2 cache' 1 = [20, 21]" if "mset order = mset copies" for order
    using vc(3) that * by fastforce
  then show ?thesis using vc(1,2,4) by auto
qed

end
