(* ===== verification/Server_Runs.thy ===== *)
theory Server_Runs
  imports Server
begin

section \<open>Runs of the server\<close>

text \<open>
  Sequences of requests.  \<open>get_created_time_secs\<close> is the clock of \<open>src/openai/utils.rs\<close>; the system time is a number of nanoseconds
  since the epoch, negative when the clock is set before it.  \<open>served sv0 rs sv\<close>: the server \<open>sv0\<close> has answered its
  requests by \<open>rs\<close> and is now \<open>sv\<close>.
\<close>

definition get_created_time_secs :: "int \<Rightarrow> nat res" where
  "get_created_time_secs system_time =
     (if system_time < 0 then Inl (Panic UnwrapErr) else Inr (nat (system_time div 10 ^ 9)))"

inductive served ::
    "'t candle \<Rightarrow> 't externals \<Rightarrow> formatter \<Rightarrow> bool \<Rightarrow> 't Server \<Rightarrow> reply res option list \<Rightarrow> 't Server \<Rightarrow> bool"
  for cd :: "'t candle" and ext :: "'t externals" and fmt :: formatter and chk :: bool and sv0 :: "'t Server" where
  started: "served cd ext fmt chk sv0 [] sv0"
| request: "\<lbrakk>served cd ext fmt chk sv0 rs sv; get_created_time_secs clock = Inr now;
     chat_completions cd ext fmt chk rid now rq sv = (r, Some sv')\<rbrakk> \<Longrightarrow> served cd ext fmt chk sv0 (rs @ [r]) sv'"

text \<open>The replies without an answer: an error, a panic, a stream without chunks or a response without choices.\<close>

definition no_answer :: "reply res option \<Rightarrow> bool" where
  "no_answer r = (case r of
     None \<Rightarrow> False
   | Some (Inl _) \<Rightarrow> True
   | Some (Inr (Streaming chunks)) \<Rightarrow> chunks = []
   | Some (Inr (Json rsp)) \<Rightarrow> rs_choices rsp = [] \<and> completion_tokens (rs_usage rsp) = 0 \<and> prompt_tokens (rs_usage rsp) = 0
       \<and> total_tokens (rs_usage rsp) = 0)"

text \<open>An engine with nothing to run: \<open>generate\<close> panics on a prompt and returns nothing without one.\<close>

lemma Sequence_new_empty: "\<exists>q. Sequence_new [] i b = Inr q"
  by (simp add: Sequence_new_def append_tokens_to_blocks_def)

lemma generate_idle:
  assumes "running (scheduler e) = []"
  shows "generate cd ext chk now prompt rid crt params e = Some (Inl (Panic UnwrapNone))
     \<or> (\<exists>e'. generate cd ext chk now prompt rid crt params e = Some (Inr (e', [])) \<and> running (scheduler e') = [])"
proof (cases "prompt = []")
  case True
  then obtain e1 where e1: "add_request now prompt rid crt e = Inr e1"
    using Sequence_new_empty [of "eng_seq_id e" "block_size (cache_config e)"] by (auto simp: add_request_def Let_def)
  then have "running (scheduler e1) = []" using add_request_running [OF e1] assms by simp
  then show ?thesis
    using e1 by (simp add: generate_def gen_loop.simps [of cd ext chk params e1] has_unfinished_sequences_def)
next
  case False
  then show ?thesis using add_request_panics [OF False, of now rid crt e] by (simp add: generate_def)
qed

definition idle :: "'t Server \<Rightarrow> bool" where
  "idle sv \<longleftrightarrow> running (scheduler (engine sv)) = [] \<and> lock_of sv \<noteq> Stuck"

lemma stop_reply: "no_answer (Some (Inl e))"
  by (simp add: no_answer_def)

lemma after_tokenize_idle: "idle sv \<Longrightarrow> idle (after_tokenize ext prompt sv)"
  by (simp add: after_tokenize_def idle_def split: sum.split stop.split)

lemma chat_completions_idle:
  assumes "idle sv"
  shows "\<exists>r sv'. chat_completions cd ext fmt chk rid now rq sv = (Some r, Some sv') \<and> no_answer (Some r) \<and> idle sv'"
proof (cases "verify_model sv (rq_model rq)")
  case (Inl e)
  then show ?thesis using assms by (simp add: chat_completions_def stop_reply)
next
  case ok: (Inr u)
  show ?thesis
  proof (cases "case rq_logit_bias rq of Some m \<Rightarrow> m \<noteq> [] | None \<Rightarrow> False")
    case True
    then show ?thesis using assms ok by (simp add: chat_completions_def stop_reply)
  next
    case bias: False
    obtain r conv where p: "get_gen_prompt fmt (rq_messages rq) (conversation (engine sv)) = (r, conv)" by fastforce
    let ?sv1 = "sv\<lparr>engine := (engine sv)\<lparr>conversation := conv\<rparr>\<rparr>"
    have idle1: "idle ?sv1" using assms by (simp add: idle_def)
    show ?thesis
    proof (cases "bindE r (\<lambda>prompt. bindE (check_length ext chk (max_model_len sv) (rq_max_tokens rq) prompt) (\<lambda>ids.
        bindE (request_params rq) (\<lambda>params. Inr (ids, params))))")
      case (Inl e)
      then show ?thesis
        using ok bias p idle1 after_tokenize_idle [OF idle1] by (cases r) (auto simp: chat_completions_def Let_def stop_reply)
    next
      case (Inr q)
      obtain ids params where q: "q = (ids, params)" by (cases q)
      let ?g = "generate cd ext chk now ids (''cmpl-'' @ rid) now params (engine ?sv1)"
      consider (panic) "?g = Some (Inl (Panic UnwrapNone))"
        | (ret) e' where "?g = Some (Inr (e', []))" "running (scheduler e') = []"
        using generate_idle [of "engine ?sv1" cd ext chk now ids "''cmpl-'' @ rid" now params] idle1 by (auto simp: idle_def)
      then show ?thesis
      proof cases
        case panic
        then show ?thesis
          using ok bias p Inr q idle1
          by (cases r) (auto simp: chat_completions_def Let_def after_generate_def stream_chunks_def no_answer_def idle_def)
      next
        case (ret e')
        then show ?thesis
          using ok bias p Inr q idle1
          by (cases r) (auto simp: chat_completions_def Let_def after_generate_def stream_chunks_def no_answer_def idle_def collect_usage_def)
      qed
    qed
  qed
qed

lemma served_idle: "served cd ext fmt chk sv0 rs sv \<Longrightarrow> idle sv0 \<Longrightarrow> idle sv \<and> (\<forall>r \<in> set rs. no_answer r)"
proof (induction rule: served.induct)
  case (request rs sv clock now rid rq r sv')
  then show ?case using chat_completions_idle [of sv cd ext fmt chk rid now rq] by auto
qed simp

text \<open>A poisoned lock stays poisoned.\<close>

lemma served_poisoned:
  "served cd ext fmt chk sv0 rs sv \<Longrightarrow> lock_of sv0 = Poisoned \<Longrightarrow> sv = sv0 \<and> (\<forall>r \<in> set rs. r = Some (Inl (Panic UnwrapErr)))"
proof (induction rule: served.induct)
  case (request rs sv clock now rid rq r sv')
  then show ?case using poisoned_panics [of sv cd ext fmt chk rid now rq] by auto
qed simp

text \<open>
  C31: no server ever answers.  A server that starts with an empty running queue and a lock that is not stuck handles every
  sequence of requests without hanging: each request gets a reply and leaves a server of the same kind, and no reply is
  an answer; it is an error, a panic, an empty stream or a response without choices and tokens.
\<close>

theorem server_never_answers:
  assumes "served cd ext fmt chk sv0 rs sv" "running (scheduler (engine sv0)) = []" "lock_of sv0 \<noteq> Stuck"
  shows "running (scheduler (engine sv)) = [] \<and> lock_of sv \<noteq> Stuck \<and> (\<forall>r \<in> set rs. no_answer r)
    \<and> (\<forall>rid now rq. \<exists>r sv'. chat_completions cd ext fmt chk rid now rq sv = (Some r, Some sv') \<and> no_answer (Some r))"
proof -
  have i: "idle sv \<and> (\<forall>r \<in> set rs. no_answer r)" using served_idle [OF assms(1)] assms(2,3) by (simp add: idle_def)
  then have "\<exists>r sv'. chat_completions cd ext fmt chk rid now rq sv = (Some r, Some sv') \<and> no_answer (Some r)" for rid now rq
    using chat_completions_idle by blast
  then show ?thesis using i by (simp add: idle_def)
qed

theorem server_never_answers_witness:
  "\<exists>r sv'. served shape_candle sample_externals (\<lambda>t args. t) True
       (sample_server\<lparr>engine := sample_engine (fresh_scheduler 3)\<rparr>) [Some r] sv' \<and> no_answer (Some r)"
proof -
  let ?sv = "sample_server\<lparr>engine := sample_engine (fresh_scheduler 3)\<rparr>"
  have idle: "running (scheduler (engine ?sv)) = []" "lock_of ?sv \<noteq> Stuck"
    by (simp_all add: sample_engine_def fresh_scheduler_def sample_server_def)
  obtain r sv' where r: "chat_completions shape_candle sample_externals (\<lambda>t args. t) True ''1'' 1 sample_request ?sv = (Some r, Some sv')"
      "no_answer (Some r)"
    using server_never_answers [OF served.started idle] by blast
  have "get_created_time_secs 1500000000 = Inr 1" by (simp add: get_created_time_secs_def)
  from served.request [OF served.started this r(1)] show ?thesis using r(2) by auto
qed

end
