(* ===== verification/Streaming.thy ===== *)
theory Streaming
  imports Server "HOL-Library.Sublist"
begin

section \<open>Streaming\<close>

text \<open>
  \<open>src/openai/streaming.rs\<close> and the thread that \<open>chat_completions\<close> starts for a streaming request.  The channel is
  \<open>tokio::sync::mpsc\<close>, a parameter: \<open>send\<close> is \<open>None\<close> while it has to wait, \<open>drop_sender\<close> is what happens when the thread ends, and
  \<open>drop_receiver\<close> when the client disconnects.
  \<open>to_vec\<close> is the JSON serialisation of an \<open>APIError\<close>.  The thread, the polls of the client and its disconnection interleave freely.
\<close>

text \<open>\<open>SenderError\<close> is an error of any type; the items are \<open>Result<Bytes, SenderError>\<close>.\<close>

typedecl SenderError

type_synonym item = "SenderError + string"

text \<open>\<open>std::task::Poll\<close>.\<close>

datatype 'a poll = Ready 'a | Pending

record ('c, 'a) mpsc =
  channel :: "nat \<Rightarrow> 'c"
  send :: "'a \<Rightarrow> 'c \<Rightarrow> 'c option"
  drop_sender :: "'c \<Rightarrow> 'c"
  drop_receiver :: "'c \<Rightarrow> 'c"
  poll_recv :: "'c \<Rightarrow> 'a option poll \<times> 'c"

text \<open>
  The documented behaviour of the channel: a bounded queue in order of sending, whose receiver sees the end when the queue
  is empty and the sender is gone.  A poll may always be pending, also by a spurious failure; it then changes nothing.  Sending
  waits while the queue is full, and returns at once, with an error, when the receiver is gone.  \<open>repr\<close> reads the queue, the capacity, and whether the sender and the receiver are there.
\<close>

definition fifo_channel :: "('c, 'a) mpsc \<Rightarrow> ('c \<Rightarrow> 'a list \<times> nat \<times> bool \<times> bool) \<Rightarrow> bool" where
  "fifo_channel lib repr \<longleftrightarrow>
     (\<forall>k. 0 < k \<longrightarrow> repr (channel lib k) = ([], k, True, True))
   \<and> (\<forall>c q k x. repr c = (q, k, True, True) \<longrightarrow> length q < k \<longrightarrow>
        (\<exists>c'. send lib x c = Some c' \<and> repr c' = (q @ [x], k, True, True)))
   \<and> (\<forall>c q k x. repr c = (q, k, True, True) \<longrightarrow> k \<le> length q \<longrightarrow> send lib x c = None)
   \<and> (\<forall>c q k x. repr c = (q, k, True, False) \<longrightarrow> (\<exists>c'. send lib x c = Some c' \<and> repr c' = (q, k, True, False)))
   \<and> (\<forall>c q k b d. repr c = (q, k, b, d) \<longrightarrow> repr (drop_sender lib c) = (q, k, False, d))
   \<and> (\<forall>c q k b d. repr c = (q, k, b, d) \<longrightarrow> repr (drop_receiver lib c) = ([], k, b, False))
   \<and> (\<forall>c q k b. repr c = (q, k, b, True) \<longrightarrow> (\<exists>r c'. poll_recv lib c = (r, c')
        \<and> (r = Pending \<and> repr c' = (q, k, b, True)
           \<or> (\<exists>x q'. q = x # q' \<and> r = Ready (Some x) \<and> repr c' = (q', k, b, True))
           \<or> q = [] \<and> \<not> b \<and> r = Ready None \<and> repr c' = ([], k, False, True))))"

lemma fifo_channelD:
  assumes "fifo_channel lib repr"
  shows "0 < k \<Longrightarrow> repr (channel lib k) = ([], k, True, True)"
    "repr c = (q, k, True, True) \<Longrightarrow> length q < k \<Longrightarrow> \<exists>c'. send lib x c = Some c' \<and> repr c' = (q @ [x], k, True, True)"
    "repr c = (q, k, True, False) \<Longrightarrow> \<exists>c'. send lib x c = Some c' \<and> repr c' = (q, k, True, False)"
    "repr c = (q, k, b, d) \<Longrightarrow> repr (drop_sender lib c) = (q, k, False, d)"
    "repr c = (q, k, b, d) \<Longrightarrow> repr (drop_receiver lib c) = ([], k, b, False)"
  using assms by (simp_all add: fifo_channel_def)

lemma fifo_poll:
  assumes "fifo_channel lib repr" "repr c = (q, k, b, True)"
  obtains (pending) c' where "poll_recv lib c = (Pending, c')" "repr c' = (q, k, b, True)"
    | (chunk) x q' c' where "q = x # q'" "poll_recv lib c = (Ready (Some x), c')" "repr c' = (q', k, b, True)"
    | (closed) c' where "q = []" "\<not> b" "poll_recv lib c = (Ready None, c')" "repr c' = ([], k, False, True)"
proof -
  have "\<exists>r c'. poll_recv lib c = (r, c')
        \<and> (r = Pending \<and> repr c' = (q, k, b, True)
           \<or> (\<exists>x q'. q = x # q' \<and> r = Ready (Some x) \<and> repr c' = (q', k, b, True))
           \<or> q = [] \<and> \<not> b \<and> r = Ready None \<and> repr c' = ([], k, False, True))"
    using assms by (simp add: fifo_channel_def)
  then show thesis using that by (elim exE conjE disjE) simp_all
qed

record 'c Client =
  receiver :: 'c

definition new_streaming_conn :: "('c, 'a) mpsc \<Rightarrow> 'c Client" where
  "new_streaming_conn lib = \<lparr>receiver = channel lib 128\<rparr>"

definition poll_next :: "('c, 'a) mpsc \<Rightarrow> 'c Client \<Rightarrow> 'a option poll \<times> 'c Client" where
  "poll_next lib cl = (case poll_recv lib (receiver cl) of (r, c) \<Rightarrow> (r, cl\<lparr>receiver := c\<rparr>))"

subsection \<open>The thread and the client\<close>

datatype phase = Generating | Ending | Gone

record ('c, 'a) stream_run =
  phase :: phase
  client :: "'c Client"
  received :: "'a list"
  at_end :: bool
  left :: bool

definition stream_start :: "('c, 'a) mpsc \<Rightarrow> ('c, 'a) stream_run" where
  "stream_start lib = \<lparr>phase = Generating, client = new_streaming_conn lib, received = [], at_end = False, left = False\<rparr>"

text \<open>
  The thread, for the outcome \<open>g\<close> of \<open>generate\<close>: an error is sent (errors of sending are ignored), a result is not, a panic unwinds, and the
  sender is dropped with the closure; when \<open>generate\<close> does not return nothing happens.
\<close>

inductive thread_step ::
    "('c, item) mpsc \<Rightarrow> (message \<Rightarrow> string) \<Rightarrow> 'r res option \<Rightarrow> ('c, item) stream_run \<Rightarrow> ('c, item) stream_run \<Rightarrow> bool"
  for lib :: "('c, item) mpsc" and to_vec :: "message \<Rightarrow> string" and g :: "'r res option" where
  sends: "\<lbrakk>phase s = Generating; g = Some (Inl (Err m)); send lib (Inr (to_vec m)) (receiver (client s)) = Some c\<rbrakk>
    \<Longrightarrow> thread_step lib to_vec g s (s\<lparr>phase := Ending, client := (client s)\<lparr>receiver := c\<rparr>\<rparr>)"
| returns: "\<lbrakk>phase s = Generating; g = Some (Inr v)\<rbrakk> \<Longrightarrow> thread_step lib to_vec g s (s\<lparr>phase := Ending\<rparr>)"
| unwinds: "\<lbrakk>phase s = Generating; g = Some (Inl (Panic p))\<rbrakk> \<Longrightarrow> thread_step lib to_vec g s (s\<lparr>phase := Ending\<rparr>)"
| ends: "phase s = Ending
    \<Longrightarrow> thread_step lib to_vec g s (s\<lparr>phase := Gone, client := (client s)\<lparr>receiver := drop_sender lib (receiver (client s))\<rparr>\<rparr>)"

definition client_poll :: "('c, 'a) mpsc \<Rightarrow> ('c, 'a) stream_run \<Rightarrow> ('c, 'a) stream_run" where
  "client_poll lib s = (case poll_next lib (client s) of
     (Ready (Some x), cl) \<Rightarrow> s\<lparr>client := cl, received := received s @ [x]\<rparr>
   | (Ready None, cl) \<Rightarrow> s\<lparr>client := cl, at_end := True\<rparr>
   | (Pending, cl) \<Rightarrow> s\<lparr>client := cl\<rparr>)"

inductive stream_step ::
    "('c, item) mpsc \<Rightarrow> (message \<Rightarrow> string) \<Rightarrow> 'r res option \<Rightarrow> ('c, item) stream_run \<Rightarrow> ('c, item) stream_run \<Rightarrow> bool"
  for lib :: "('c, item) mpsc" and to_vec :: "message \<Rightarrow> string" and g :: "'r res option" where
  thread: "thread_step lib to_vec g s s' \<Longrightarrow> stream_step lib to_vec g s s'"
| polls: "\<not> left s \<Longrightarrow> stream_step lib to_vec g s (client_poll lib s)"
| leaves: "\<not> left s \<Longrightarrow>
    stream_step lib to_vec g s (s\<lparr>left := True, client := (client s)\<lparr>receiver := drop_receiver lib (receiver (client s))\<rparr>\<rparr>)"

definition stream_items :: "(message \<Rightarrow> string) \<Rightarrow> 'r res option \<Rightarrow> item list" where
  "stream_items to_vec g = map (\<lambda>m. Inr (to_vec m)) (stream_chunks g)"

definition returns_from :: "'r res option \<Rightarrow> bool" where
  "returns_from g \<longleftrightarrow> g \<noteq> None \<and> g \<noteq> Some (Inl Deadlock)"

text \<open>How many of the next \<open>k\<close> polls of the client are not pending.\<close>

fun ready_polls :: "('c, 'a) mpsc \<Rightarrow> nat \<Rightarrow> ('c, 'a) stream_run \<Rightarrow> nat" where
  "ready_polls lib 0 s = 0"
| "ready_polls lib (Suc k) s = (if fst (poll_next lib (client s)) = Pending then 0 else 1) + ready_polls lib k (client_poll lib s)"

text \<open>What has been received and what is still queued are together what the thread has sent, until the client leaves.\<close>

definition stream_inv ::
    "('c \<Rightarrow> item list \<times> nat \<times> bool \<times> bool) \<Rightarrow> (message \<Rightarrow> string) \<Rightarrow> 'r res option \<Rightarrow> ('c, item) stream_run \<Rightarrow> bool" where
  "stream_inv repr to_vec g s \<longleftrightarrow>
     (\<exists>q. repr (receiver (client s)) = (q, 128, phase s \<noteq> Gone, \<not> left s)
        \<and> (if left s then prefix (received s) (stream_items to_vec g)
           else received s @ q = (if phase s = Generating then [] else stream_items to_vec g))
        \<and> (at_end s \<longrightarrow> phase s = Gone \<and> received s = stream_items to_vec g) \<and> (phase s \<noteq> Generating \<longrightarrow> returns_from g))"

lemma stream_invE:
  assumes "stream_inv repr to_vec g s"
  obtains q where "repr (receiver (client s)) = (q, 128, phase s \<noteq> Gone, \<not> left s)"
    "left s \<Longrightarrow> prefix (received s) (stream_items to_vec g)"
    "\<not> left s \<Longrightarrow> received s @ q = (if phase s = Generating then [] else stream_items to_vec g)"
    "at_end s \<Longrightarrow> phase s = Gone \<and> received s = stream_items to_vec g" "phase s \<noteq> Generating \<Longrightarrow> returns_from g"
  using assms by (auto simp: stream_inv_def split: if_splits)

lemma stream_inv_start: "fifo_channel lib repr \<Longrightarrow> stream_inv repr to_vec g (stream_start lib)"
  by (simp add: stream_inv_def stream_start_def new_streaming_conn_def fifo_channelD(1))

lemmas chunk_defs = stream_items_def stream_chunks_def returns_from_def

lemma thread_keeps:
  assumes lib: "fifo_channel lib repr" and inv: "stream_inv repr to_vec g s" and step: "thread_step lib to_vec g s s'"
  shows "stream_inv repr to_vec g s'"
proof -
  obtain q where q: "repr (receiver (client s)) = (q, 128, phase s \<noteq> Gone, \<not> left s)"
      "left s \<Longrightarrow> prefix (received s) (stream_items to_vec g)"
      "\<not> left s \<Longrightarrow> received s @ q = (if phase s = Generating then [] else stream_items to_vec g)"
      "at_end s \<Longrightarrow> phase s = Gone \<and> received s = stream_items to_vec g" "phase s \<noteq> Generating \<Longrightarrow> returns_from g"
    using inv by (rule stream_invE) blast
  from step show ?thesis
  proof cases
    case (sends m c)
    show ?thesis
    proof (cases "left s")
      case True
      then show ?thesis
        using sends q fifo_channelD(3) [OF lib, of "receiver (client s)" q 128 "Inr (to_vec m)"]
        by (auto simp: stream_inv_def chunk_defs)
    next
      case False
      then show ?thesis
        using sends q fifo_channelD(2) [OF lib, of "receiver (client s)" q 128 "Inr (to_vec m)"]
        by (auto simp: stream_inv_def chunk_defs)
    qed
  next
    case (returns v)
    then show ?thesis using q by (auto simp: stream_inv_def chunk_defs)
  next
    case (unwinds p)
    then show ?thesis using q by (auto simp: stream_inv_def chunk_defs)
  next
    case ends
    then show ?thesis using q fifo_channelD(4) [OF lib q(1)] by (auto simp: stream_inv_def)
  qed
qed

lemma leaving_keeps:
  assumes lib: "fifo_channel lib repr" and inv: "stream_inv repr to_vec g s"
  shows "stream_inv repr to_vec g (s\<lparr>left := True, client := (client s)\<lparr>receiver := drop_receiver lib (receiver (client s))\<rparr>\<rparr>)"
proof -
  obtain q where q: "repr (receiver (client s)) = (q, 128, phase s \<noteq> Gone, \<not> left s)"
      "left s \<Longrightarrow> prefix (received s) (stream_items to_vec g)"
      "\<not> left s \<Longrightarrow> received s @ q = (if phase s = Generating then [] else stream_items to_vec g)"
      "at_end s \<Longrightarrow> phase s = Gone \<and> received s = stream_items to_vec g" "phase s \<noteq> Generating \<Longrightarrow> returns_from g"
    using inv by (rule stream_invE) blast
  have "prefix (received s) (stream_items to_vec g)"
    using q(2,3) by (metis append_is_Nil_conv prefixI prefix_bot.bot_least)
  then show ?thesis using q fifo_channelD(5) [OF lib q(1)] by (auto simp: stream_inv_def)
qed

text \<open>A poll keeps the invariant; when the thread is gone and it is not pending, it takes a chunk or sees the end.\<close>

lemma poll_keeps:
  assumes lib: "fifo_channel lib repr" and inv: "stream_inv repr to_vec g s" and here: "\<not> left s"
  shows "stream_inv repr to_vec g (client_poll lib s) \<and> phase (client_poll lib s) = phase s \<and> \<not> left (client_poll lib s)
     \<and> (at_end s \<longrightarrow> at_end (client_poll lib s))
     \<and> (fst (poll_next lib (client s)) \<noteq> Pending \<longrightarrow>
          at_end (client_poll lib s) \<or> length (received s) < length (stream_items to_vec g)
            \<and> length (received (client_poll lib s)) = Suc (length (received s)))
     \<and> (fst (poll_next lib (client s)) = Pending \<longrightarrow> received (client_poll lib s) = received s)"
proof -
  obtain q where q: "repr (receiver (client s)) = (q, 128, phase s \<noteq> Gone, \<not> left s)"
      "left s \<Longrightarrow> prefix (received s) (stream_items to_vec g)"
      "\<not> left s \<Longrightarrow> received s @ q = (if phase s = Generating then [] else stream_items to_vec g)"
      "at_end s \<Longrightarrow> phase s = Gone \<and> received s = stream_items to_vec g" "phase s \<noteq> Generating \<Longrightarrow> returns_from g"
    using inv by (rule stream_invE) blast
  have r: "repr (receiver (client s)) = (q, 128, phase s \<noteq> Gone, True)" using q(1) here by simp
  show ?thesis
  proof (cases rule: fifo_poll [OF lib r])
    case (1 c')
    then show ?thesis using q here by (auto simp: stream_inv_def client_poll_def poll_next_def)
  next
    case (2 x q' c')
    then have sent: "received s @ x # q' = stream_items to_vec g" "phase s \<noteq> Generating" using q(3) here by (auto split: if_splits)
    moreover from arg_cong [OF this(1), of length] have "length (received s) < length (stream_items to_vec g)" by simp
    ultimately show ?thesis using 2 q here by (auto simp: stream_inv_def client_poll_def poll_next_def)
  next
    case (3 c')
    then show ?thesis using q here by (auto simp: stream_inv_def client_poll_def poll_next_def)
  qed
qed

lemma stream_keeps:
  assumes "fifo_channel lib repr"
  shows "(stream_step lib to_vec g)\<^sup>*\<^sup>* (stream_start lib) s \<Longrightarrow> stream_inv repr to_vec g s"
proof (induction rule: rtranclp_induct)
  case base
  then show ?case by (rule stream_inv_start [OF assms])
next
  case (step s t)
  from step.hyps(2) show ?case
    by cases (use step.IH thread_keeps [OF assms] poll_keeps [OF assms] leaving_keeps [OF assms] in blast)+
qed

lemma stream_inv_received:
  assumes "stream_inv repr to_vec g s"
  shows "prefix (received s) (stream_items to_vec g)" "at_end s \<Longrightarrow> received s = stream_items to_vec g \<and> returns_from g"
  using assms by (auto simp: stream_inv_def split: if_splits intro: prefixI [OF sym])

text \<open>Once the thread is gone every poll that is not pending takes a chunk, and the one after the last chunk sees the end.\<close>

lemma polls_reach_end:
  assumes "fifo_channel lib repr"
  shows "stream_inv repr to_vec g s \<Longrightarrow> \<not> left s \<Longrightarrow>
     at_end s \<or> length (stream_items to_vec g) - length (received s) < ready_polls lib k s \<Longrightarrow>
     at_end ((client_poll lib ^^ k) s) \<and> received ((client_poll lib ^^ k) s) = stream_items to_vec g"
proof (induction k arbitrary: s)
  case 0
  then show ?case using stream_inv_received(2) by auto
next
  case (Suc k)
  note poll = poll_keeps [OF assms Suc.prems(1,2)]
  have "at_end (client_poll lib s)
     \<or> length (stream_items to_vec g) - length (received (client_poll lib s)) < ready_polls lib k (client_poll lib s)"
    using poll Suc.prems(3) by (cases "fst (poll_next lib (client s)) = Pending") auto
  then show ?case using Suc.IH [of "client_poll lib s"] poll by (simp add: funpow_swap1)
qed

text \<open>While the thread has work to do it can do it: with a capacity of 128 the one chunk never waits.\<close>

lemma thread_progress:
  assumes lib: "fifo_channel lib repr" and inv: "stream_inv repr to_vec g s" and g: "returns_from g" and p: "phase s \<noteq> Gone"
  shows "\<exists>s'. thread_step lib to_vec g s s'"
proof (cases "phase s")
  case Generating
  then obtain q where q: "repr (receiver (client s)) = (q, 128, True, \<not> left s)" "\<not> left s \<longrightarrow> q = []"
    using inv by (auto simp: stream_inv_def split: if_splits)
  have snd: "\<exists>c. send lib x (receiver (client s)) = Some c" for x
    using q fifo_channelD(2,3) [OF lib, of "receiver (client s)" q 128 x] by (cases "left s") auto
  consider m where "g = Some (Inl (Err m))" | pr where "g = Some (Inl (Panic pr))" | v where "g = Some (Inr v)"
    using g by (cases g; simp add: returns_from_def) (metis stop.exhaust sumE)
  then show ?thesis using Generating snd by cases (blast intro: thread_step.intros)+
qed (use p in \<open>auto intro: thread_step.ends\<close>)

subsection \<open>Properties\<close>

text \<open>
  C21: a stream delivers what the thread sends.  However the polls of the client, its disconnection and the steps of the thread interleave, the
  client has received a prefix of the chunks; it sees the end of the stream only after all of them, and only if \<open>generate\<close> returned or
  panicked; while \<open>generate\<close> does return the thread is never blocked by the channel, whether the client is there or not; and when the thread is gone, a client that
  is still there has received everything and seen the end after any number of polls of which at least two were not pending.
\<close>

theorem stream_delivers:
  assumes lib: "fifo_channel lib repr" and run: "(stream_step lib to_vec g)\<^sup>*\<^sup>* (stream_start lib) s"
  shows "prefix (received s) (stream_items to_vec g)
    \<and> (at_end s \<longrightarrow> received s = stream_items to_vec g \<and> returns_from g)
    \<and> (returns_from g \<and> phase s \<noteq> Gone \<longrightarrow> (\<exists>s'. thread_step lib to_vec g s s'))
    \<and> (phase s = Gone \<and> \<not> left s \<and> 2 \<le> ready_polls lib k s \<longrightarrow>
         at_end ((client_poll lib ^^ k) s) \<and> received ((client_poll lib ^^ k) s) = stream_items to_vec g)"
proof -
  note inv = stream_keeps [OF lib run]
  have "length (stream_items to_vec g) \<le> 1"
    by (simp add: stream_items_def stream_chunks_def split: option.split sum.split stop.split)
  then have "length (stream_items to_vec g) - length (received s) < ready_polls lib k s" if "2 \<le> ready_polls lib k s"
    using that by linarith
  then show ?thesis
    using stream_inv_received [OF inv] thread_progress [OF lib inv] polls_reach_end [OF lib inv] by blast
qed

text \<open>A channel that is its queue, its capacity, and three flags; by the last one every other poll fails spuriously.\<close>

definition list_channel :: "('a list \<times> nat \<times> bool \<times> bool \<times> bool, 'a) mpsc" where
  "list_channel = \<lparr>channel = (\<lambda>k. ([], k, True, True, False)),
     send = (\<lambda>x (q, k, b, d, t). if \<not> d then Some (q, k, b, d, t) else if length q < k then Some (q @ [x], k, b, d, t) else None),
     drop_sender = (\<lambda>(q, k, b, d, t). (q, k, False, d, t)), drop_receiver = (\<lambda>(q, k, b, d, t). ([], k, b, False, t)),
     poll_recv = (\<lambda>(q, k, b, d, t). if \<not> t then (Pending, (q, k, b, d, True)) else
       (case q of x # q' \<Rightarrow> (Ready (Some x), (q', k, b, d, False)) | [] \<Rightarrow> (if b then Pending else Ready None, (q, k, b, d, False))))\<rparr>"

definition list_repr :: "'a list \<times> nat \<times> bool \<times> bool \<times> bool \<Rightarrow> 'a list \<times> nat \<times> bool \<times> bool" where
  "list_repr = (\<lambda>(q, k, b, d, t). (q, k, b, d))"

lemma fifo_list_channel: "fifo_channel list_channel list_repr"
proof -
  have "\<exists>r c'. poll_recv list_channel c = (r, c')
        \<and> (r = Pending \<and> list_repr c' = (q, k, b, True)
           \<or> (\<exists>x q'. q = x # q' \<and> r = Ready (Some x) \<and> list_repr c' = (q', k, b, True))
           \<or> q = [] \<and> \<not> b \<and> r = Ready None \<and> list_repr c' = ([], k, False, True))"
    if "list_repr c = (q, k, b, True)" for c :: "'a list \<times> nat \<times> bool \<times> bool \<times> bool" and q k b
    using that by (cases c; cases q) (auto simp: list_repr_def list_channel_def)
  then show ?thesis by (simp add: fifo_channel_def) (auto simp: list_repr_def list_channel_def)
qed

theorem stream_delivers_witness:
  "\<exists>s :: (_, item) stream_run.
      (stream_step list_channel (\<lambda>m. ''boom'') (Some (Inl (Err [])) :: unit res option))\<^sup>*\<^sup>* (stream_start list_channel) s
    \<and> ready_polls list_channel 4 s = 2
    \<and> at_end ((client_poll list_channel ^^ 4) s) \<and> received ((client_poll list_channel ^^ 4) s) = [Inr ''boom'']"
proof -
  let ?g = "Some (Inl (Err [])) :: unit res option" and ?v = "\<lambda>m :: message. ''boom''"
  let ?s0 = "stream_start list_channel :: (_, item) stream_run"
  let ?s1 = "?s0\<lparr>phase := Ending, client := (client ?s0)\<lparr>receiver := ([Inr ''boom''], 128, True, True, False)\<rparr>\<rparr>"
  let ?s2 = "?s1\<lparr>phase := Gone, client := (client ?s1)\<lparr>receiver := drop_sender list_channel (receiver (client ?s1))\<rparr>\<rparr>"
  have "thread_step list_channel ?v ?g ?s0 ?s1"
    by (rule thread_step.sends [of _ _ "[]"]) (simp_all add: stream_start_def new_streaming_conn_def list_channel_def)
  moreover have "thread_step list_channel ?v ?g ?s1 ?s2" by (rule thread_step.ends) simp
  ultimately have run: "(stream_step list_channel ?v ?g)\<^sup>*\<^sup>* ?s0 ?s2"
    by (meson converse_rtranclp_into_rtranclp rtranclp.rtrancl_refl stream_step.thread)
  have "phase ?s2 = Gone" "\<not> left ?s2" "stream_items ?v ?g = ([Inr ''boom''] :: item list)"
    by (simp_all add: stream_items_def stream_chunks_def stream_start_def)
  moreover have "ready_polls list_channel 4 ?s2 = 2"
    by (simp add: eval_nat_numeral client_poll_def poll_next_def list_channel_def stream_start_def)
  ultimately show ?thesis using stream_delivers [OF fifo_list_channel run, of 4] run by auto
qed

end
