(* ===== verification/Spec2Isabelle.thy ===== *)
theory Spec2Isabelle
  imports Startup Build_Script Cache_Properties Copy_Kernel Server_Runs Streaming
begin

text \<open>
  \<^bold>\<open>A verification development for candle-vllm\<close>

  The program is an OpenAI-compatible inference server.  A chat request comes in at \<open>chat_completions\<close>
  (\<open>src/openai/openai_server.rs\<close>), is turned into a prompt by the conversation of the pipeline
  (\<open>src/openai/conversation\<close>) and into sampling parameters (\<open>src/openai/sampling_params.rs\<close>), and goes to
  \<open>LLMEngine::generate\<close> (\<open>src/openai/pipelines/llm_engine.rs\<close>).  The engine owns a scheduler
  (\<open>src/scheduler/mod.rs\<close>), which decides which sequence groups (\<open>src/scheduler/sequence.rs\<close>) run, and a block engine
  (\<open>src/scheduler/block_engine.rs\<close>), which hands out the blocks of the key-value cache.  The cache engine
  (\<open>src/scheduler/cache_engine.rs\<close>, \<open>src/backend/cache.rs\<close>) owns the tensors of that cache and moves blocks when
  the scheduler says so.  The forward pass is the llama network (\<open>src/openai/models/llama.rs\<close>) with the attention of
  \<open>src/paged_attention\<close> and the kernel launches of \<open>src/backend\<close>; a model is downloaded and loaded by
  \<open>src/openai/pipelines/llama.rs\<close>, selected in \<open>src/lib.rs\<close>, and started by \<open>src/main.rs\<close>.  \<open>build.rs\<close> compiles the kernels.

  \<^bold>\<open>How the code is modelled.\<close>  Every function is a HOL function of the same name, with the type as a prefix where two
  types share a name.  Structs are records, enums are datatypes, a \<open>HashMap\<close> is an association list in its order
  of iteration, a \<open>Vec\<close> or \<open>VecDeque\<close> is a list, \<open>usize\<close> is \<open>nat\<close>.  Subtractions that can underflow, and the one
  sum of numbers that come from a request, take the flag \<open>chk\<close> and panic or wrap as the build says; the other sums and products
  are of numbers of tokens and blocks in memory and are not wrapped.  An effectful call returns \<open>stop + 'a\<close>
  (theory Prelude): \<open>Panic\<close> with its reason, \<open>Deadlock\<close>, or \<open>Err\<close> with the pieces of the message; \<open>bindE\<close> is
  the sequence of two calls.  \<open>Arc<PhysicalTokenBlock>\<close> and \<open>Arc<Sequence>\<close> are addresses into a store, so that sharing is
  visible; a guard that outlives its expression is an entry of the list \<open>held\<close>, and taking such a lock again is
  \<open>Deadlock\<close>.  That reading of the \<open>try_lock\<close> loops is justified in Prelude: \<open>spin\<close> is a \<open>partial_function\<close>
  which is \<open>None\<close> exactly when the lock is never free.  Floats are the datatype \<open>f32\<close> (theory F32) with rounding of sums to
  24 bits.  \<open>candle\<close>, \<open>candle_nn\<close>, \<open>cudarc\<close>, the tokenizer, the sampler, the template formatter, the file system, the model hub and the
  CUDA tools and the channel of \<open>tokio\<close> are parameters: the records \<open>candle\<close>, \<open>tensor_ops\<close>, \<open>nn_ops\<close>, \<open>externals\<close>, \<open>host\<close>, \<open>toolchain\<close> and \<open>mpsc\<close> and the function \<open>fmt\<close>.
  What a theorem needs of them is a named predicate.  \<open>vector_shapes\<close>, \<open>checks_shapes\<close>, \<open>network_shapes\<close>, \<open>logits_have_rows\<close> and \<open>copies_keep_shapes\<close> only
  state the shapes that the library documents and hold for the concrete libraries of tensors as shapes, \<open>shape_candle\<close>, \<open>shape_ops\<close> and \<open>shape_nn\<close>;
  \<open>fifo_channel\<close> is a bounded queue whose polls may be pending spuriously, and holds for \<open>list_channel\<close>.

  \<^bold>\<open>Theories\<close>, each with its definitions, invariant and lemmas:

  \<^item> F32, Prelude: floats, outcomes, machine arithmetic, association lists, loops over lists (\<open>foldE\<close>, \<open>collectE\<close>, \<open>mapE\<close>),
    the loop rules as the locales \<open>kept_by_loop\<close> and \<open>guarded_loop\<close>, simulation of a step relation by another as the locale
    \<open>forward_simulation\<close>, and the spin lock.
  \<^item> Logical_Block, Sequences: \<open>LogicalTokenBlock\<close>, \<open>SequenceData\<close>, \<open>_Sequence\<close>, \<open>SequenceGroup\<close>.  A block is a bounded
    buffer (locale \<open>bounded_buffer\<close>); the blocks of a sequence refine the chunks of its token list.
  \<^item> Block_Allocator: physical blocks, \<open>Allocator\<close>.  The locale \<open>refcount_pool\<close> states the contract of a pool with
    reference counts and is interpreted for the two operations of the allocator.
  \<^item> Block_Engine, Block_Tables, Block_Swap, Block_Engine_Properties, Block_Engine_Groups: \<open>BlockEngine\<close>.  The invariant \<open>be_inv\<close> ties the reference
    counts to the entries of the block tables and the free lists to the blocks without references.  Block_Tables, Block_Swap and Block_Engine_Properties
    show that allocation, freeing, slot reservation with copy on write, and swapping out keep it and what each
    returns; Block_Engine_Groups shows what happens to groups of several sequences and to \<open>swap_in\<close>.
  \<^item> Cache_Config, Scheduling, Scheduling_Invariant, Scheduling_Loops, Scheduling_Properties, Scheduling_Runs: \<open>Scheduler\<close>.  The \<open>while\<close>
    loops of \<open>schedule\<close> are total functions (\<open>admit\<close>, \<open>make_room\<close>, \<open>reserve_slots\<close>, \<open>swap_in_groups\<close>) whose measures are
    the lengths of the queues they pop from.  The invariant \<open>sched_inv\<close> is for groups of one sequence, the only
    groups \<open>add_request\<close> makes.  Scheduling_Runs gives the calls on the scheduler as a step relation and proves the invariant
    and, for a positive maximum, the batch bound for all reachable states.
  \<^item> Scheduling_Refinement: the abstract machine of queues, \<open>spec_schedule\<close> and \<open>spec_step\<close>, which knows of a group only its size, its demand and the
    number of blocks it holds, and of the block engine only the number of free blocks.  The map \<open>view\<close> reads it from a scheduler; \<open>schedule\<close> and
    every other call are the operations of the machine under that map (an interpretation of \<open>forward_simulation\<close>).
  \<^item> Requests, Sampling_Params, Conversation: the data of requests and responses, the checks of the parameters and the
    prompt of every separator style, a definition for each (locale \<open>conversation\<close>).
  \<^item> Model_Config: \<open>LlamaConfig\<close>, \<open>Config\<close> and the trait \<open>ConfigLike\<close> as a record of its answers.
  \<^item> Candle, Cache_Engine, Cache_Properties: the interface to the tensor library, the shapes, allocation, swapping and copying of the caches, and the
    shapes as an invariant of the cache engine together with the block numbers of the scheduler.
  \<^item> Copy_Kernel: the copies that the threads of \<open>kernels/copy_blocks_kernel.cu\<close> do, in any order, on the grid that \<open>copy_blocks\<close> launches,
    with the \<open>int\<close> and \<open>int64_t\<close> of the kernel.  The launch leaves out the kernel's fourth argument, which is therefore a parameter, \<open>numel_arg\<close>.
  \<^item> Llm_Engine, Generate, Generate_Properties: requests, preparation of the inputs, sampling, the answers, and the loop of
    \<open>generate\<close> as a \<open>partial_function\<close>; C30 shows that it stops after at most one round, so no fuel is needed.
  \<^item> Server, Server_Runs, Streaming: the handlers and the lock on the engine, the answers to any sequence of requests, and a stream as the
    interleaving of the thread that generates with the polls of the client.
  \<^item> Attn_Bias, Input_Metadata, Kernels, Paged_Attention, Attention_Properties: the masks of a batch, its metadata, the checks and launches of the
    kernels, and \<open>PagedAttention\<close> for prompts and for decoding.
  \<^item> Llama_Model, Llama_Properties: loading and forward pass of the layers of the network; the shapes of what is loaded.
  \<^item> Llama_Pipeline, Startup: download and loading of a model (locale \<open>model_loader\<close> for the trait \<open>ModelLoader\<close>), the models that can be selected, and \<open>main\<close>.
    Startup also holds the composition of the engine's batches with the network.
  \<^item> Build_Script: the compute capability, the kernel files and the threads that compile them.

  \<^bold>\<open>What the theorems show.\<close>  C1 to C17: the scheduler and the block engine never leak, share or double free a block of a
  group of one sequence, \<open>schedule\<close> refines an algorithm on queues and numbers of blocks, always returns when the waiting groups fit and preempts only when blocks are
  short; positions of prompts never get the same slot of the cache, the caches keep their shapes and every block number is in their range, and the copy
  kernel copies blocks whatever the order of its threads.  C18 to C23: the checks of requests accept exactly an explicit set (which is not the documented one), a stream delivers what was sent, in order,
  and then ends, a sequence has as many blocks as its tokens need, and the prompt of every style equals its opening followed by its turns.  C24 to C29: a loaded network is well typed and is
  the one that was selected (files of its hub repository, its configuration parsed from them), the intervals of a batch are a partition of its positions, every kernel is compiled
  once for a supported capability, and the choices of an answer are the best sequences of the group.
  C30 to C40: what the code does where it does not do what its comments say: no server ever answers a request, the network refuses the batches of the engine, the attention is never
  computed, the first request poisons the server, prompts of one request are part of the next, admission compares with the used blocks, the token after a full
  prompt gets no slot, groups of several sequences are freed twice or deadlock, and what is swapped in stays on the CPU.  The lemmas \<open>Sequence_new_panics\<close>, \<open>main_never_serves\<close>, \<open>schedule_impossible_panics\<close>, \<open>get_len_deadlocks\<close>,
  \<open>reshape_and_cache_arguments\<close> and \<open>swap_block_size_wrong\<close> record more of this kind; \<open>causal_mask_cells\<close> gives the cells of the triangles alone.

  \<^bold>\<open>Not modelled:\<close> the other CUDA kernels and the values of tensors, of which only shapes, devices and data types matter to the program's own checks;
  the bodies of the libraries; the parsing of the command line by \<open>clap\<close> and of requests by \<open>serde\<close>; the wrapper \<open>Conjoined\<close> around a pointer and the hash of a
  physical block, which no code computes; code that is commented out, as the launcher in \<open>src/backend/paged_attention.rs\<close>; the tests; progress messages, log output and tracing spans.
\<close>

end
